(* ===== verification/Prelude.thy ===== *)
theory Prelude
  imports Main "HOL-Library.Char_ord" "HOL-Library.List_Lexorder"
begin

text \<open>
  Shared vocabulary of the development: the result type of a contract invocation, the Rust integer
  operations at their width, the Soroban host as the contracts see it (ledger clock, address
  authorisation, token contracts), the ordered map of the Soroban SDK, and the generic lemmas on
  lists and sums that the component theories use.

  Invocations are transactional: the host discards every write of an invocation that returns an
  error or traps.  A failing result therefore carries no state.
\<close>

section \<open>Results of an invocation\<close>

named_theorems contract_defs \<open>definitions of the small storage accessors of the contracts\<close>
named_theorems result_simps \<open>characterisations of successful results\<close>

text \<open>
  The ways a host function aborts an invocation: a missing authorisation, an arithmetic overflow
  (the contracts are built with overflow checks), an explicit panic or a failed unwrap, and a call
  into another contract that fails.
\<close>

datatype host_trap = AuthTrap | ArithTrap | PanicTrap | CallTrap

datatype ('e, 'a) result = Ok 'a | Err 'e | Trap host_trap

text \<open>Rust's question mark operator.\<close>

fun rbind :: "('e, 'a) result \<Rightarrow> ('a \<Rightarrow> ('e, 'b) result) \<Rightarrow> ('e, 'b) result" where
  "rbind (Ok x) f = f x"
| "rbind (Err e) f = Err e"
| "rbind (Trap t) f = Trap t"

definition ok_or :: "'a option \<Rightarrow> 'e \<Rightarrow> ('e, 'a) result" where
  "ok_or x e = (case x of None \<Rightarrow> Err e | Some v \<Rightarrow> Ok v)"

definition unwrap_or :: "'a option \<Rightarrow> 'a \<Rightarrow> 'a" where
  "unwrap_or x d = (case x of None \<Rightarrow> d | Some v \<Rightarrow> v)"

text \<open>Unwrapping a result: an error becomes a panic.\<close>

fun unwrap_result :: "('e, 'a) result \<Rightarrow> ('f, 'a) result" where
  "unwrap_result (Ok x) = Ok x"
| "unwrap_result (Err e) = Trap PanicTrap"
| "unwrap_result (Trap t) = Trap t"

definition is_ok :: "('e, 'a) result \<Rightarrow> bool" where
  "is_ok r = (case r of Ok _ \<Rightarrow> True | _ \<Rightarrow> False)"

lemma rbind_eq_Ok [simp, result_simps]: "rbind m f = Ok y \<longleftrightarrow> (\<exists>x. m = Ok x \<and> f x = Ok y)"
  by (cases m) auto

lemma Ok_eq_rbind [simp, result_simps]: "Ok y = rbind m f \<longleftrightarrow> (\<exists>x. m = Ok x \<and> f x = Ok y)"
  by (cases m) auto

text \<open>The state of a call that also returns a value.\<close>

definition drop_value :: "('e, 's \<times> 'v) result \<Rightarrow> ('e, 's) result" where
  "drop_value r = rbind r (\<lambda>(s, _). Ok s)"

lemma drop_value_eq_Ok [simp, result_simps]: "drop_value r = Ok s \<longleftrightarrow> (\<exists>v. r = Ok (s, v))"
  by (auto simp: drop_value_def)

lemma rbind_assoc: "rbind (rbind m f) g = rbind m (\<lambda>x. rbind (f x) g)"
  by (cases m) auto

lemma rbind_cong [fundef_cong]:
  "m = m' \<Longrightarrow> (\<And>x. m' = Ok x \<Longrightarrow> f x = f' x) \<Longrightarrow> rbind m f = rbind m' f'"
  by (cases m') auto

lemma ok_or_eq_Ok [simp, result_simps]: "ok_or x e = Ok v \<longleftrightarrow> x = Some v"
  by (cases x) (auto simp: ok_or_def)

lemma ok_or_Some [simp]: "ok_or (Some v) e = Ok v"
  by (simp add: ok_or_def)

lemma ok_or_None [simp]: "ok_or None e = Err e"
  by (simp add: ok_or_def)

lemma unwrap_or_Some [simp]: "unwrap_or (Some v) d = v"
  by (simp add: unwrap_or_def)

lemma unwrap_or_None [simp]: "unwrap_or None d = d"
  by (simp add: unwrap_or_def)

lemma unwrap_result_eq_Ok [simp, result_simps]: "unwrap_result r = Ok v \<longleftrightarrow> r = Ok v"
  by (cases r) auto

lemma is_ok_iff [simp]: "is_ok r \<longleftrightarrow> (\<exists>v. r = Ok v)"
  by (cases r) (auto simp: is_ok_def)


section \<open>Integers\<close>

text \<open>
  Signed 128-bit amounts are integers with an explicit range check; unsigned values are natural
  numbers with an explicit bound \<open>2 ^ w\<close>.  Three flavours of arithmetic occur in the sources:
  \<open>checked_*\<close> (an option), \<open>saturating_*\<close> (clamped) and the plain operators, which trap on
  overflow.
\<close>

definition i128_min :: int where "i128_min = - (2 ^ 127)"
definition i128_max :: int where "i128_max = 2 ^ 127 - 1"

definition in_i128 :: "int \<Rightarrow> bool" where
  "in_i128 x \<longleftrightarrow> i128_min \<le> x \<and> x \<le> i128_max"

definition clamp_i128 :: "int \<Rightarrow> int" where
  "clamp_i128 x = max i128_min (min i128_max x)"

definition checked_i128 :: "int \<Rightarrow> int option" where
  "checked_i128 x = (if in_i128 x then Some x else None)"

definition checked_add_i128 :: "int \<Rightarrow> int \<Rightarrow> int option" where
  "checked_add_i128 a b = checked_i128 (a + b)"

definition checked_sub_i128 :: "int \<Rightarrow> int \<Rightarrow> int option" where
  "checked_sub_i128 a b = checked_i128 (a - b)"

definition checked_mul_i128 :: "int \<Rightarrow> int \<Rightarrow> int option" where
  "checked_mul_i128 a b = checked_i128 (a * b)"

text \<open>Division of Rust truncates towards zero.\<close>

definition trunc_div :: "int \<Rightarrow> int \<Rightarrow> int" where
  "trunc_div a b = sgn a * sgn b * (\<bar>a\<bar> div \<bar>b\<bar>)"

definition checked_div_i128 :: "int \<Rightarrow> int \<Rightarrow> int option" where
  "checked_div_i128 a b = (if b = 0 then None else checked_i128 (trunc_div a b))"

text \<open>A product divided by a constant, \<open>checked_mul(..).and_then(|v| v.checked_div(..))\<close>.\<close>

definition checked_mul_div :: "int \<Rightarrow> int \<Rightarrow> int \<Rightarrow> int option" where
  "checked_mul_div a b c = (case checked_mul_i128 a b of Some v \<Rightarrow> checked_div_i128 v c | None \<Rightarrow> None)"

definition saturating_add_i128 :: "int \<Rightarrow> int \<Rightarrow> int" where
  "saturating_add_i128 a b = clamp_i128 (a + b)"

definition saturating_sub_i128 :: "int \<Rightarrow> int \<Rightarrow> int" where
  "saturating_sub_i128 a b = clamp_i128 (a - b)"

definition add_i128 :: "int \<Rightarrow> int \<Rightarrow> ('e, int) result" where
  "add_i128 a b = (if in_i128 (a + b) then Ok (a + b) else Trap ArithTrap)"

definition sub_i128 :: "int \<Rightarrow> int \<Rightarrow> ('e, int) result" where
  "sub_i128 a b = (if in_i128 (a - b) then Ok (a - b) else Trap ArithTrap)"

definition mul_i128 :: "int \<Rightarrow> int \<Rightarrow> ('e, int) result" where
  "mul_i128 a b = (if in_i128 (a * b) then Ok (a * b) else Trap ArithTrap)"

definition saturating_mul_i128 :: "int \<Rightarrow> int \<Rightarrow> int" where
  "saturating_mul_i128 a b = clamp_i128 (a * b)"

text \<open>An \<open>unwrap\<close> of an option: \<open>None\<close> panics.\<close>

definition unwrap :: "'a option \<Rightarrow> ('e, 'a) result" where
  "unwrap x = (case x of None \<Rightarrow> Trap PanicTrap | Some v \<Rightarrow> Ok v)"

definition checked_add_u :: "nat \<Rightarrow> nat \<Rightarrow> nat \<Rightarrow> nat option" where
  "checked_add_u w a b = (if a + b < 2 ^ w then Some (a + b) else None)"

definition checked_mul_u :: "nat \<Rightarrow> nat \<Rightarrow> nat \<Rightarrow> nat option" where
  "checked_mul_u w a b = (if a * b < 2 ^ w then Some (a * b) else None)"

definition saturating_add_u :: "nat \<Rightarrow> nat \<Rightarrow> nat \<Rightarrow> nat" where
  "saturating_add_u w a b = min (2 ^ w - 1) (a + b)"

definition saturating_mul_u :: "nat \<Rightarrow> nat \<Rightarrow> nat \<Rightarrow> nat" where
  "saturating_mul_u w a b = min (2 ^ w - 1) (a * b)"

definition add_u :: "nat \<Rightarrow> nat \<Rightarrow> nat \<Rightarrow> ('e, nat) result" where
  "add_u w a b = (if a + b < 2 ^ w then Ok (a + b) else Trap ArithTrap)"

definition sub_u :: "nat \<Rightarrow> nat \<Rightarrow> ('e, nat) result" where
  "sub_u a b = (if b \<le> a then Ok (a - b) else Trap ArithTrap)"

definition mul_u :: "nat \<Rightarrow> nat \<Rightarrow> nat \<Rightarrow> ('e, nat) result" where
  "mul_u w a b = (if a * b < 2 ^ w then Ok (a * b) else Trap ArithTrap)"

definition div_ceil :: "nat \<Rightarrow> nat \<Rightarrow> nat" where
  "div_ceil a b = (if a mod b = 0 then a div b else a div b + 1)"

lemma checked_i128_eq_Some [simp]: "checked_i128 x = Some y \<longleftrightarrow> y = x \<and> in_i128 x"
  by (auto simp: checked_i128_def)

lemma checked_add_i128_eq_Some [simp, result_simps]:
  "checked_add_i128 a b = Some c \<longleftrightarrow> c = a + b \<and> in_i128 (a + b)"
  by (simp add: checked_add_i128_def)

lemma checked_sub_i128_eq_Some [simp, result_simps]:
  "checked_sub_i128 a b = Some c \<longleftrightarrow> c = a - b \<and> in_i128 (a - b)"
  by (simp add: checked_sub_i128_def)

lemma checked_mul_i128_eq_Some [simp, result_simps]:
  "checked_mul_i128 a b = Some c \<longleftrightarrow> c = a * b \<and> in_i128 (a * b)"
  by (simp add: checked_mul_i128_def)

lemma checked_div_i128_eq_Some [simp, result_simps]:
  "checked_div_i128 a b = Some c \<longleftrightarrow> b \<noteq> 0 \<and> c = trunc_div a b \<and> in_i128 (trunc_div a b)"
  by (auto simp: checked_div_i128_def)

lemma checked_mul_div_eq_Some [simp, result_simps]:
  "checked_mul_div a b c = Some d \<longleftrightarrow> c \<noteq> 0 \<and> d = trunc_div (a * b) c \<and> in_i128 (a * b) \<and> in_i128 (trunc_div (a * b) c)"
  by (auto simp: checked_mul_div_def split: option.splits) (auto simp: checked_mul_i128_def checked_i128_def)

lemma add_i128_eq_Ok [simp, result_simps]: "add_i128 a b = Ok c \<longleftrightarrow> c = a + b \<and> in_i128 (a + b)"
  by (auto simp: add_i128_def)

lemma sub_i128_eq_Ok [simp, result_simps]: "sub_i128 a b = Ok c \<longleftrightarrow> c = a - b \<and> in_i128 (a - b)"
  by (auto simp: sub_i128_def)

lemma mul_i128_eq_Ok [simp, result_simps]: "mul_i128 a b = Ok c \<longleftrightarrow> c = a * b \<and> in_i128 (a * b)"
  by (auto simp: mul_i128_def)

lemma unwrap_eq_Ok [simp, result_simps]: "unwrap x = Ok v \<longleftrightarrow> x = Some v"
  by (cases x) (auto simp: unwrap_def)

lemma unwrap_Some [simp]: "unwrap (Some v) = Ok v"
  by (simp add: unwrap_def)

lemma checked_add_u_eq_Some [simp, result_simps]:
  "checked_add_u w a b = Some c \<longleftrightarrow> c = a + b \<and> a + b < 2 ^ w"
  by (auto simp: checked_add_u_def)

lemma checked_mul_u_eq_Some [simp, result_simps]:
  "checked_mul_u w a b = Some c \<longleftrightarrow> c = a * b \<and> a * b < 2 ^ w"
  by (auto simp: checked_mul_u_def)

lemma add_u_eq_Ok [simp, result_simps]: "add_u w a b = Ok c \<longleftrightarrow> c = a + b \<and> a + b < 2 ^ w"
  by (auto simp: add_u_def)

lemma sub_u_eq_Ok [simp, result_simps]: "sub_u a b = Ok c \<longleftrightarrow> c = a - b \<and> b \<le> a"
  by (auto simp: sub_u_def)

lemma mul_u_eq_Ok [simp, result_simps]: "mul_u w a b = Ok c \<longleftrightarrow> c = a * b \<and> a * b < 2 ^ w"
  by (auto simp: mul_u_def)

lemma in_i128_nat: "n < 2 ^ 64 \<Longrightarrow> in_i128 (int n)"
proof -
  assume "n < 2 ^ 64"
  then have "int n < 2 ^ 64" by (metis of_nat_less_iff of_nat_numeral of_nat_power)
  moreover have "(2::int) ^ 64 \<le> 2 ^ 127 - 1" by simp
  ultimately show ?thesis by (simp add: in_i128_def i128_min_def i128_max_def)
qed

lemma clamp_i128_id: "in_i128 x \<Longrightarrow> clamp_i128 x = x"
  by (auto simp: in_i128_def clamp_i128_def)

lemma in_i128_clamp [simp]: "in_i128 (clamp_i128 x)"
  by (auto simp: in_i128_def clamp_i128_def i128_min_def i128_max_def)

lemma saturating_add_u_bound [simp]: "saturating_add_u w a b < 2 ^ w"
proof -
  have "min (2 ^ w - 1) (a + b) \<le> 2 ^ w - (1::nat)" by simp
  also have "\<dots> < 2 ^ w" by simp
  finally show ?thesis by (simp only: saturating_add_u_def)
qed

lemma trunc_div_nonneg: "0 \<le> a \<Longrightarrow> 0 < b \<Longrightarrow> trunc_div a b = a div b"
  by (cases "a = 0") (auto simp: trunc_div_def)

lemma in_i128_between: "in_i128 a \<Longrightarrow> in_i128 b \<Longrightarrow> a \<le> x \<Longrightarrow> x \<le> b \<Longrightarrow> in_i128 x"
  by (auto simp: in_i128_def)

lemma div_ceil_le: "0 < b \<Longrightarrow> a \<le> b * div_ceil a b"
  by (auto simp: div_ceil_def) (metis add.commute mod_less_divisor mult_div_mod_eq nat_add_left_cancel_le
      less_imp_le)


section \<open>The host\<close>

type_synonym address = string

record transfer =
  tr_token :: address
  tr_from :: address
  tr_to :: address
  tr_amount :: int

text \<open>
  The part of the host environment an invocation reads: its own contract address, the ledger
  timestamp, the addresses that authorised the invocation, and the token contracts.  Token
  contracts are not part of the repository: whether a token accepts a transfer is a parameter, a
  function of the transfers already made.  The transfers a contract makes are recorded in the order
  of the calls.
\<close>

record env =
  current_contract :: address
  timestamp :: nat
  authorised :: "address \<Rightarrow> bool"
  token_accepts :: "transfer list \<Rightarrow> transfer \<Rightarrow> bool"

definition require_auth :: "'x env_scheme \<Rightarrow> address \<Rightarrow> ('e, unit) result" where
  "require_auth env a = (if authorised env a then Ok () else Trap AuthTrap)"

definition token_transfer :: "'x env_scheme \<Rightarrow> transfer \<Rightarrow> transfer list \<Rightarrow> ('e, transfer list) result" where
  "token_transfer env t ts = (if token_accepts env ts t then Ok (ts @ [t]) else Trap CallTrap)"

lemma require_auth_eq_Ok [simp, result_simps]: "require_auth env a = Ok u \<longleftrightarrow> authorised env a"
  by (simp add: require_auth_def)

lemma token_transfer_eq_Ok [simp, result_simps]:
  "token_transfer env t ts = Ok ts' \<longleftrightarrow> ts' = ts @ [t] \<and> token_accepts env ts t"
  by (auto simp: token_transfer_def)

text \<open>An environment in which everyone authorises and every transfer is accepted, for examples.\<close>

definition at_time :: "nat \<Rightarrow> env" where
  "at_time t = \<lparr>current_contract = ''contract'', timestamp = t, authorised = (\<lambda>_. True),
     token_accepts = (\<lambda>_ _. True)\<rparr>"

text \<open>The amount of a token that a list of transfers moves into an account, net of what leaves.\<close>

fun net_inflow :: "address \<Rightarrow> address \<Rightarrow> transfer list \<Rightarrow> int" where
  "net_inflow tok a [] = 0"
| "net_inflow tok a (t # ts) =
     (if tr_token t = tok \<and> tr_to t = a then tr_amount t else 0)
     - (if tr_token t = tok \<and> tr_from t = a then tr_amount t else 0)
     + net_inflow tok a ts"

lemma net_inflow_append [simp]: "net_inflow tok a (xs @ ys) = net_inflow tok a xs + net_inflow tok a ys"
  by (induction xs) auto


section \<open>The ordered map of the SDK\<close>

text \<open>
  \<open>soroban_sdk::Map\<close> keeps its entries sorted by key.  It is an association list here:
  \<open>map_of\<close> looks a key up, \<open>map_set\<close> replaces an entry or inserts it at its place, and
  \<open>map snd\<close> lists the values in key order.
\<close>

fun map_set :: "'k::linorder \<Rightarrow> 'v \<Rightarrow> ('k \<times> 'v) list \<Rightarrow> ('k \<times> 'v) list" where
  "map_set k v [] = [(k, v)]"
| "map_set k v ((k', v') # m) =
     (if k = k' then (k, v) # m
      else if k < k' then (k, v) # (k', v') # m
      else (k', v') # map_set k v m)"

definition map_wf :: "('k::linorder \<times> 'v) list \<Rightarrow> bool" where
  "map_wf m \<longleftrightarrow> sorted (map fst m) \<and> distinct (map fst m)"

lemma map_of_map_set [simp]: "map_of (map_set k v m) = (map_of m)(k \<mapsto> v)"
  by (induction k v m rule: map_set.induct) auto

lemma set_fst_map_set [simp]: "fst ` set (map_set k v m) = insert k (fst ` set m)"
  by (induction k v m rule: map_set.induct) auto

lemma set_keys_map_set: "set (map fst (map_set k v m)) = insert k (set (map fst m))"
  by (induction k v m rule: map_set.induct) auto

lemma map_wf_map_set: "map_wf m \<Longrightarrow> map_wf (map_set k v m)"
proof (induction k v m rule: map_set.induct)
  case (2 k v k' v' m)
  then show ?case
    using set_keys_map_set [of k v m] by (auto simp: map_wf_def)
qed (simp add: map_wf_def)

lemma sum_list_map_set:
  fixes f :: "'v \<Rightarrow> int"
  assumes "map_wf m"
  shows "sum_list (map (f \<circ> snd) (map_set k v m)) =
    sum_list (map (f \<circ> snd) m) + f v - (case map_of m k of None \<Rightarrow> 0 | Some v' \<Rightarrow> f v')"
  using assms
proof (induction k v m rule: map_set.induct)
  case (2 k v k' v' m)
  then have wf: "map_wf m" by (simp add: map_wf_def)
  have "k < k' \<Longrightarrow> map_of m k = None"
    using 2(2) by (force simp: map_wf_def map_of_eq_None_iff)
  with 2 wf show ?case by auto
qed simp


section \<open>Lists\<close>

lemma length_filter_distinct_remove:
  "distinct xs \<Longrightarrow> x \<in> set xs \<Longrightarrow> Suc (length (filter (\<lambda>y. y \<noteq> x) xs)) = length xs"
proof (induction xs)
  case (Cons a xs)
  then have "a = x \<Longrightarrow> filter (\<lambda>y. y \<noteq> x) xs = xs" by (auto simp: filter_id_conv)
  with Cons show ?case by auto
qed simp

lemma sum_list_filter_neq:
  fixes f :: "'a \<Rightarrow> int"
  shows "distinct xs \<Longrightarrow> x \<in> set xs \<Longrightarrow>
    sum_list (map f (filter (\<lambda>y. y \<noteq> x) xs)) = sum_list (map f xs) - f x"
proof (induction xs)
  case (Cons a xs)
  show ?case
  proof (cases "a = x")
    case True
    with Cons.prems have "filter (\<lambda>y. y \<noteq> x) xs = xs" by (auto simp: filter_id_conv)
    with True show ?thesis by simp
  qed (use Cons in auto)
qed simp

lemma sum_list_map_cong:
  "(\<And>x. x \<in> set xs \<Longrightarrow> f x = g x) \<Longrightarrow> sum_list (map f xs) = sum_list (map g xs)"
  by (metis map_cong)

lemma sum_list_div_le:
  fixes f :: "'a \<Rightarrow> int"
  assumes "\<And>x. x \<in> set xs \<Longrightarrow> 0 \<le> f x" and "0 < t"
  shows "sum_list (map (\<lambda>x. f x div t) xs) \<le> sum_list (map f xs) div t"
  using assms(1)
proof (induction xs)
  case (Cons a xs)
  have "f a div t + sum_list (map f xs) div t \<le> (f a + sum_list (map f xs)) div t"
    using assms(2) div_add1_eq [of "f a" "sum_list (map f xs)" t]
    by (simp add: pos_imp_zdiv_nonneg_iff)
  moreover have "sum_list (map (\<lambda>x. f x div t) xs) \<le> sum_list (map f xs) div t"
    using Cons by simp
  ultimately show ?case by simp
qed simp

lemma distinct_concat_map_apart:
  assumes "distinct (concat (map f xs))" "l \<in> set xs" "l' \<in> set xs" "l \<noteq> l'" "x \<in> set (f l)"
  shows "x \<notin> set (f l')"
  using assms by (induction xs) auto

end
