(* ===== verification/Sharded_Index.thy ===== *)
theory Sharded_Index
  imports Prelude
begin

text \<open>
  The contracts keep long lists (the events of an organizer, archived receipts, the voters of a
  dispute) as buckets of a fixed size with a separate element counter, so that no storage entry
  grows without bound.  The same three pieces recur: read a bucket, read the counter, append.
  This theory states the contract of such an index as a locale and proves once that an index
  that only grows reads back exactly what was appended, in order.
\<close>

section \<open>Reading a bucketed list\<close>

text \<open>All buckets \<open>0 \<dots> ceil(n / sz) - 1\<close>, concatenated: the loop of every reader.\<close>

definition read_shards :: "nat \<Rightarrow> (nat \<Rightarrow> 'v list) \<Rightarrow> nat \<Rightarrow> 'v list" where
  "read_shards sz f n = concat (map f [0..<div_ceil n sz])"

text \<open>The buckets are filled from the left and hold \<open>n\<close> elements in total.\<close>

definition dense_shards :: "nat \<Rightarrow> (nat \<Rightarrow> 'v list) \<Rightarrow> nat \<Rightarrow> bool" where
  "dense_shards sz f n \<longleftrightarrow> (\<forall>i. length (f i) = min sz (n - i * sz))"

lemma div_ceil_Suc: "0 < sz \<Longrightarrow> div_ceil (Suc n) sz = Suc (n div sz)"
  by (auto simp: div_ceil_def div_Suc mod_Suc split: if_splits)

lemma dense_shards_length: "dense_shards sz f n \<Longrightarrow> length (f i) = min sz (n - i * sz)"
  by (simp add: dense_shards_def)

lemma dense_last_bucket:
  "0 < sz \<Longrightarrow> dense_shards sz f n \<Longrightarrow> length (f (n div sz)) = n mod sz"
  using mod_less_divisor [of sz n]
  by (simp add: dense_shards_def minus_div_mult_eq_mod del: mod_less_divisor)

lemma read_shards_split:
  assumes "0 < sz" and "dense_shards sz f n"
  shows "read_shards sz f n = concat (map f [0..<n div sz]) @ f (n div sz)"
proof (cases "n mod sz = 0")
  case True
  with dense_last_bucket [OF assms] have "f (n div sz) = []" by simp
  with True show ?thesis by (simp add: read_shards_def div_ceil_def)
next
  case False
  then show ?thesis by (simp add: read_shards_def div_ceil_def)
qed

lemma dense_shards_empty [simp]: "dense_shards sz (\<lambda>_. []) 0"
  by (simp add: dense_shards_def)

lemma read_shards_0 [simp]: "read_shards sz f 0 = []"
  by (simp add: read_shards_def div_ceil_def)

lemma length_concat_buckets:
  assumes "dense_shards sz f n"
  shows "length (concat (map f [0..<m])) = min (m * sz) n"
proof (induction m)
  case (Suc m)
  then show ?case
    using dense_shards_length [OF assms, of m] by (auto simp: min_def)
qed simp

lemma length_read_shards:
  assumes "0 < sz" and "dense_shards sz f n"
  shows "length (read_shards sz f n) = n"
  using length_concat_buckets [OF assms(2), of "div_ceil n sz"] div_ceil_le [OF assms(1), of n]
  by (simp add: read_shards_def min_def mult.commute)

lemma dense_shards_append:
  assumes "0 < sz" and "dense_shards sz f n"
  shows "dense_shards sz (f(n div sz := f (n div sz) @ [v])) (Suc n)"
  unfolding dense_shards_def
proof
  fix i
  have n: "n = n div sz * sz + n mod sz" by simp
  have md: "n mod sz < sz" using assms(1) by simp
  consider "i = n div sz" | "i < n div sz" | "n div sz < i" by arith
  then show "length ((f(n div sz := f (n div sz) @ [v])) i) = min sz (Suc n - i * sz)"
  proof cases
    case 1
    have "Suc n - n div sz * sz = Suc (n mod sz)" using n by arith
    with 1 md show ?thesis
      using dense_last_bucket [OF assms] by simp
  next
    case 2
    then have "Suc i * sz \<le> n div sz * sz" by (intro mult_le_mono1) simp
    then have "i * sz + sz \<le> n div sz * sz" by (simp add: add.commute)
    also have "\<dots> \<le> n" by (rule div_times_less_eq_dividend)
    finally have "i * sz + sz \<le> n" .
    with 2 dense_shards_length [OF assms(2), of i] show ?thesis by auto
  next
    case 3
    then have "Suc (n div sz) * sz \<le> i * sz" by (intro mult_le_mono1) simp
    moreover have "n < Suc (n div sz) * sz" using dividend_less_div_times [OF assms(1), of n] by simp
    ultimately have "Suc n \<le> i * sz" by linarith
    with 3 dense_shards_length [OF assms(2), of i] show ?thesis by auto
  qed
qed

lemma read_shards_append:
  assumes "0 < sz" and "dense_shards sz f n"
  shows "read_shards sz (f(n div sz := f (n div sz) @ [v])) (Suc n) = read_shards sz f n @ [v]"
proof -
  have "map (f(n div sz := f (n div sz) @ [v])) [0..<n div sz] = map f [0..<n div sz]"
    by simp
  then have "read_shards sz (f(n div sz := f (n div sz) @ [v])) (Suc n) =
      concat (map f [0..<n div sz]) @ f (n div sz) @ [v]"
    by (simp add: read_shards_def div_ceil_Suc [OF assms(1)])
  then show ?thesis by (simp add: read_shards_split [OF assms])
qed


section \<open>The contract of an append-only index\<close>

locale sharded_index =
  fixes sz :: nat
    and get_shard :: "'s \<Rightarrow> 'k \<Rightarrow> nat \<Rightarrow> 'v list"
    and get_count :: "'s \<Rightarrow> 'k \<Rightarrow> nat"
    and append_to :: "'k \<Rightarrow> 'v \<Rightarrow> 's \<Rightarrow> ('e, 's) result"
  assumes size_pos: "0 < sz"
    and append_count: "append_to k v s = Ok s' \<Longrightarrow>
      get_count s' k' = (if k' = k then Suc (get_count s k) else get_count s k')"
    and append_shard: "append_to k v s = Ok s' \<Longrightarrow>
      get_shard s' k' = (if k' = k
        then (get_shard s k)(get_count s k div sz := get_shard s k (get_count s k div sz) @ [v])
        else get_shard s k')"
begin

definition contents :: "'s \<Rightarrow> 'k \<Rightarrow> 'v list" where
  "contents s k = read_shards sz (get_shard s k) (get_count s k)"

definition dense :: "'s \<Rightarrow> 'k \<Rightarrow> bool" where
  "dense s k \<longleftrightarrow> dense_shards sz (get_shard s k) (get_count s k)"

lemma append_dense: "append_to k v s = Ok s' \<Longrightarrow> dense s k' \<Longrightarrow> dense s' k'"
  using append_count [of k v s s' k'] append_shard [of k v s s' k']
  by (auto simp: dense_def dense_shards_append [OF size_pos])

lemma append_contents:
  "append_to k v s = Ok s' \<Longrightarrow> dense s k \<Longrightarrow> contents s' k = contents s k @ [v]"
  using append_count [of k v s s' k] append_shard [of k v s s' k]
  by (simp add: dense_def contents_def read_shards_append [OF size_pos])

lemma append_contents_other:
  "append_to k v s = Ok s' \<Longrightarrow> k' \<noteq> k \<Longrightarrow> contents s' k' = contents s k'"
  using append_count [of k v s s' k'] append_shard [of k v s s' k']
  by (simp add: contents_def)

lemma length_contents: "dense s k \<Longrightarrow> length (contents s k) = get_count s k"
  by (simp add: dense_def contents_def length_read_shards [OF size_pos])

end

end
