(* ===== verification/Pro_Subscription.thy ===== *)
theory Pro_Subscription
  imports Prelude
begin

text \<open>
  The Pro subscription contract (\<open>src/contract/contracts/pro_subscription/src\<close>): organizers pay a
  monthly price for a Pro membership, which the ticket contract consults for its fee.  One record
  holds the storage; a storage key that is read with a default is a field holding that default when
  unset.  Token transfers and published events are recorded in the order the contract makes them.
\<close>

section \<open>Data\<close>

definition SECONDS_PER_MONTH :: nat where
  "SECONDS_PER_MONTH = 30 * 24 * 60 * 60"

datatype subscription_tier = Basic | Pro

record subscription =
  sub_organizer :: address
  sub_tier :: subscription_tier
  sub_started_at :: nat
  sub_expires_at :: nat
  sub_is_active :: bool
  sub_amount_paid :: int
  sub_payment_token :: address

datatype pro_error =
    ProAlreadyInitialized | ProNotInitialized | ProUnauthorized | SubscriptionNotFound
  | SubscriptionExpired | SubscriptionInactive | InvalidTier | InvalidPrice | InsufficientPayment
  | ProArithmeticError | TransferFailed | ProInvalidAddress | SubscriptionAlreadyActive | AlreadyPro

datatype pro_event =
    ProContractInitialized address address address int nat
  | SubscriptionCreated address subscription_tier int nat nat
  | SubscriptionRenewed address int nat nat
  | SubscriptionCancelled address address nat
  | PriceUpdated int int address nat
  | ProMemberAdded address nat
  | ProMemberRemoved address nat

record pro_state =
  ps_admin :: "address option"
  ps_initialized :: bool
  ps_platform_wallet :: "address option"
  ps_pro_monthly_price :: int
  ps_subscriptions :: "address \<rightharpoonup> subscription"
  ps_members :: "address list"
  ps_total :: nat
  ps_payment_token :: "address option"
  ps_transfers :: "transfer list"
  ps_events :: "pro_event list"

definition pro_empty :: pro_state where
  "pro_empty = \<lparr>ps_admin = None, ps_initialized = False, ps_platform_wallet = None,
     ps_pro_monthly_price = 0, ps_subscriptions = Map.empty, ps_members = [], ps_total = 0,
     ps_payment_token = None, ps_transfers = [], ps_events = []\<rparr>"


section \<open>Storage\<close>

definition pro_publish :: "pro_event \<Rightarrow> pro_state \<Rightarrow> pro_state" where
  [contract_defs]: "pro_publish e s = s\<lparr>ps_events := ps_events s @ [e]\<rparr>"

definition set_subscription :: "subscription \<Rightarrow> pro_state \<Rightarrow> pro_state" where
  [contract_defs]:
  "set_subscription sub s = s\<lparr>ps_subscriptions := (ps_subscriptions s)(sub_organizer sub \<mapsto> sub)\<rparr>"

definition add_to_pro_members_list :: "address \<Rightarrow> pro_state \<Rightarrow> pro_state" where
  [contract_defs]:
  "add_to_pro_members_list organizer s =
     (if organizer \<in> set (ps_members s) then s
      else s\<lparr>ps_members := ps_members s @ [organizer]\<rparr>)"

text \<open>The list drops the first occurrence of the organizer.\<close>

definition remove_from_pro_members_list :: "address \<Rightarrow> pro_state \<Rightarrow> pro_state" where
  [contract_defs]:
  "remove_from_pro_members_list organizer s = s\<lparr>ps_members := remove1 organizer (ps_members s)\<rparr>"

definition increment_total_pro_subscriptions :: "pro_state \<Rightarrow> (pro_error, pro_state) result" where
  [contract_defs]:
  "increment_total_pro_subscriptions s =
     rbind (add_u 32 (ps_total s) 1) (\<lambda>count. Ok (s\<lparr>ps_total := count\<rparr>))"

definition decrement_total_pro_subscriptions :: "pro_state \<Rightarrow> pro_state" where
  [contract_defs]: "decrement_total_pro_subscriptions s = s\<lparr>ps_total := ps_total s - 1\<rparr>"


section \<open>Operations\<close>

definition pro_require_admin :: "env \<Rightarrow> pro_state \<Rightarrow> (pro_error, address) result" where
  "pro_require_admin env s =
     rbind (ok_or (ps_admin s) ProNotInitialized) (\<lambda>admin.
     rbind (require_auth env admin) (\<lambda>_. Ok admin))"

definition pro_validate_address :: "env \<Rightarrow> address \<Rightarrow> (pro_error, unit) result" where
  "pro_validate_address env addr =
     (if addr = current_contract env then Err ProInvalidAddress else Ok ())"

definition pro_initialize ::
    "env \<Rightarrow> address \<Rightarrow> address \<Rightarrow> address \<Rightarrow> int \<Rightarrow> pro_state \<Rightarrow> (pro_error, pro_state) result" where
  "pro_initialize env admin platform_wallet payment_token pro_monthly_price s =
     (if ps_initialized s then Err ProAlreadyInitialized
      else
        rbind (pro_validate_address env admin) (\<lambda>_.
        rbind (pro_validate_address env platform_wallet) (\<lambda>_.
        rbind (pro_validate_address env payment_token) (\<lambda>_.
        if pro_monthly_price \<le> 0 then Err InvalidPrice
        else Ok (pro_publish
               (ProContractInitialized admin platform_wallet payment_token pro_monthly_price
                  (timestamp env))
               (s\<lparr>ps_admin := Some admin,
                  ps_platform_wallet := Some platform_wallet,
                  ps_payment_token := Some payment_token,
                  ps_pro_monthly_price := pro_monthly_price,
                  ps_initialized := True\<rparr>))))))"

definition subscribe_pro :: "env \<Rightarrow> address \<Rightarrow> nat \<Rightarrow> pro_state \<Rightarrow> (pro_error, pro_state) result" where
  "subscribe_pro env organizer months s =
     (if \<not> ps_initialized s then Err ProNotInitialized
      else
        rbind (require_auth env organizer) (\<lambda>_.
        if months = 0 then Err InvalidPrice
        else if (case ps_subscriptions s organizer of
                   Some existing \<Rightarrow> sub_is_active existing \<and> sub_expires_at existing > timestamp env
                 | None \<Rightarrow> False)
        then Err SubscriptionAlreadyActive
        else
          rbind (ok_or (checked_mul_i128 (ps_pro_monthly_price s) (int months)) ProArithmeticError)
            (\<lambda>total_amount.
          rbind (ok_or (ps_payment_token s) ProNotInitialized) (\<lambda>payment_token.
          rbind (ok_or (ps_platform_wallet s) ProNotInitialized) (\<lambda>platform_wallet.
          rbind (token_transfer env
                   \<lparr>tr_token = payment_token, tr_from = organizer, tr_to = platform_wallet,
                     tr_amount = total_amount\<rparr> (ps_transfers s)) (\<lambda>transfers.
          rbind (mul_u 64 SECONDS_PER_MONTH months) (\<lambda>duration.
          rbind (ok_or (checked_add_u 64 (timestamp env) duration) ProArithmeticError) (\<lambda>expires_at.
          let subscription =
                \<lparr>sub_organizer = organizer, sub_tier = Pro, sub_started_at = timestamp env,
                  sub_expires_at = expires_at, sub_is_active = True,
                  sub_amount_paid = total_amount, sub_payment_token = payment_token\<rparr>
          in
          rbind (increment_total_pro_subscriptions
                   (add_to_pro_members_list organizer
                     (set_subscription subscription (s\<lparr>ps_transfers := transfers\<rparr>)))) (\<lambda>s1.
          Ok (pro_publish (SubscriptionCreated organizer Pro total_amount expires_at (timestamp env))
               (pro_publish (ProMemberAdded organizer (timestamp env)) s1)))))))))))"

definition renew_subscription ::
    "env \<Rightarrow> address \<Rightarrow> nat \<Rightarrow> pro_state \<Rightarrow> (pro_error, pro_state) result" where
  "renew_subscription env organizer months s =
     (if \<not> ps_initialized s then Err ProNotInitialized
      else
        rbind (require_auth env organizer) (\<lambda>_.
        if months = 0 then Err InvalidPrice
        else
          rbind (ok_or (ps_subscriptions s organizer) SubscriptionNotFound) (\<lambda>subscription.
          rbind (ok_or (checked_mul_i128 (ps_pro_monthly_price s) (int months)) ProArithmeticError)
            (\<lambda>total_amount.
          rbind (ok_or (ps_payment_token s) ProNotInitialized) (\<lambda>payment_token.
          rbind (ok_or (ps_platform_wallet s) ProNotInitialized) (\<lambda>platform_wallet.
          rbind (token_transfer env
                   \<lparr>tr_token = payment_token, tr_from = organizer, tr_to = platform_wallet,
                     tr_amount = total_amount\<rparr> (ps_transfers s)) (\<lambda>transfers.
          let base_time = (if sub_expires_at subscription < timestamp env then timestamp env
                           else sub_expires_at subscription)
          in
          rbind (mul_u 64 SECONDS_PER_MONTH months) (\<lambda>duration.
          rbind (ok_or (checked_add_u 64 base_time duration) ProArithmeticError) (\<lambda>new_expiry.
          rbind (ok_or (checked_add_i128 (sub_amount_paid subscription) total_amount)
                   ProArithmeticError) (\<lambda>amount_paid.
          Ok (pro_publish (SubscriptionRenewed organizer total_amount new_expiry (timestamp env))
               (pro_publish (ProMemberAdded organizer (timestamp env))
                 (add_to_pro_members_list organizer
                   (set_subscription
                     (subscription\<lparr>sub_expires_at := new_expiry, sub_is_active := True,
                        sub_amount_paid := amount_paid\<rparr>)
                     (s\<lparr>ps_transfers := transfers\<rparr>)))))))))))))))"

definition cancel_subscription :: "env \<Rightarrow> address \<Rightarrow> pro_state \<Rightarrow> (pro_error, pro_state) result" where
  "cancel_subscription env organizer s =
     rbind (pro_require_admin env s) (\<lambda>admin.
     rbind (ok_or (ps_subscriptions s organizer) SubscriptionNotFound) (\<lambda>subscription.
     Ok (pro_publish (SubscriptionCancelled organizer admin (timestamp env))
          (pro_publish (ProMemberRemoved organizer (timestamp env))
            (decrement_total_pro_subscriptions
              (remove_from_pro_members_list organizer
                (set_subscription (subscription\<lparr>sub_is_active := False\<rparr>) s)))))))"

definition is_pro_member :: "env \<Rightarrow> address \<Rightarrow> pro_state \<Rightarrow> bool" where
  "is_pro_member env organizer s =
     (case ps_subscriptions s organizer of
        Some subscription \<Rightarrow>
          sub_is_active subscription \<and> sub_expires_at subscription > timestamp env
      | None \<Rightarrow> False)"

definition get_subscription_expiry :: "address \<Rightarrow> pro_state \<Rightarrow> nat option" where
  "get_subscription_expiry organizer s = map_option sub_expires_at (ps_subscriptions s organizer)"

definition get_pro_members_count :: "pro_state \<Rightarrow> nat" where
  "get_pro_members_count s = length (ps_members s)"

definition register_basic :: "env \<Rightarrow> address \<Rightarrow> pro_state \<Rightarrow> (pro_error, pro_state) result" where
  "register_basic env organizer s =
     (if \<not> ps_initialized s then Err ProNotInitialized
      else
        rbind (require_auth env organizer) (\<lambda>_.
        if (case ps_subscriptions s organizer of
              Some existing \<Rightarrow> sub_tier existing = Pro \<and> sub_is_active existing
            | None \<Rightarrow> False)
        then Err SubscriptionAlreadyActive
        else Ok (set_subscription
               \<lparr>sub_organizer = organizer, sub_tier = Basic, sub_started_at = timestamp env,
                 sub_expires_at = 0, sub_is_active = True, sub_amount_paid = 0,
                 sub_payment_token = unwrap_or (ps_payment_token s) (current_contract env)\<rparr> s)))"

definition update_pro_price :: "env \<Rightarrow> int \<Rightarrow> pro_state \<Rightarrow> (pro_error, pro_state) result" where
  "update_pro_price env new_price s =
     rbind (pro_require_admin env s) (\<lambda>admin.
     if new_price \<le> 0 then Err InvalidPrice
     else Ok (pro_publish
            (PriceUpdated (ps_pro_monthly_price s) new_price admin (timestamp env))
            (s\<lparr>ps_pro_monthly_price := new_price\<rparr>)))"

definition pro_update_admin :: "env \<Rightarrow> address \<Rightarrow> pro_state \<Rightarrow> (pro_error, pro_state) result" where
  "pro_update_admin env new_admin s =
     rbind (pro_require_admin env s) (\<lambda>_.
     rbind (pro_validate_address env new_admin) (\<lambda>_.
     Ok (s\<lparr>ps_admin := Some new_admin\<rparr>)))"

definition pro_update_platform_wallet ::
    "env \<Rightarrow> address \<Rightarrow> pro_state \<Rightarrow> (pro_error, pro_state) result" where
  "pro_update_platform_wallet env new_wallet s =
     rbind (pro_require_admin env s) (\<lambda>_.
     rbind (pro_validate_address env new_wallet) (\<lambda>_.
     Ok (s\<lparr>ps_platform_wallet := Some new_wallet\<rparr>)))"

definition update_payment_token ::
    "env \<Rightarrow> address \<Rightarrow> pro_state \<Rightarrow> (pro_error, pro_state) result" where
  "update_payment_token env new_token s =
     rbind (pro_require_admin env s) (\<lambda>_.
     rbind (pro_validate_address env new_token) (\<lambda>_.
     Ok (s\<lparr>ps_payment_token := Some new_token\<rparr>)))"


section \<open>The contract as a state machine\<close>

datatype pro_call =
    Pro_initialize address address address int
  | Pro_subscribe_pro address nat
  | Pro_renew_subscription address nat
  | Pro_cancel_subscription address
  | Pro_register_basic address
  | Pro_update_pro_price int
  | Pro_update_admin address
  | Pro_update_platform_wallet address
  | Pro_update_payment_token address

fun pro_dispatch :: "env \<Rightarrow> pro_call \<Rightarrow> pro_state \<Rightarrow> (pro_error, pro_state) result" where
  "pro_dispatch env (Pro_initialize admin wallet tok price) s = pro_initialize env admin wallet tok price s"
| "pro_dispatch env (Pro_subscribe_pro organizer months) s = subscribe_pro env organizer months s"
| "pro_dispatch env (Pro_renew_subscription organizer months) s = renew_subscription env organizer months s"
| "pro_dispatch env (Pro_cancel_subscription organizer) s = cancel_subscription env organizer s"
| "pro_dispatch env (Pro_register_basic organizer) s = register_basic env organizer s"
| "pro_dispatch env (Pro_update_pro_price price) s = update_pro_price env price s"
| "pro_dispatch env (Pro_update_admin a) s = pro_update_admin env a s"
| "pro_dispatch env (Pro_update_platform_wallet a) s = pro_update_platform_wallet env a s"
| "pro_dispatch env (Pro_update_payment_token a) s = update_payment_token env a s"

inductive pro_reachable :: "pro_state \<Rightarrow> bool" where
  pro_start: "pro_reachable pro_empty"
| pro_step: "pro_reachable s \<Longrightarrow> pro_dispatch env c s = Ok s' \<Longrightarrow> pro_reachable s'"

text \<open>A sequence of calls, each in its own environment; the first failure stops it.\<close>

fun pro_run :: "(env \<times> pro_call) list \<Rightarrow> pro_state \<Rightarrow> (pro_error, pro_state) result" where
  "pro_run [] s = Ok s"
| "pro_run ((env, c) # cs) s = rbind (pro_dispatch env c s) (pro_run cs)"

lemma pro_run_reachable:
  "pro_reachable s \<Longrightarrow> pro_run cs s = Ok s' \<Longrightarrow> pro_reachable s'"
proof (induction cs arbitrary: s)
  case (Cons ec cs)
  then show ?case
    by (cases ec) (auto intro: pro_step)
qed simp

definition keyed_by_organizer :: "pro_state \<Rightarrow> bool" where
  "keyed_by_organizer s \<longleftrightarrow> (\<forall>a sub. ps_subscriptions s a = Some sub \<longrightarrow> sub_organizer sub = a)"

definition members_exact :: "pro_state \<Rightarrow> bool" where
  "members_exact s \<longleftrightarrow>
     distinct (ps_members s)
     \<and> (\<forall>a\<in>set (ps_members s). \<exists>sub. ps_subscriptions s a = Some sub \<and> sub_is_active sub)
     \<and> (\<forall>a sub. ps_subscriptions s a = Some sub \<and> sub_is_active sub \<and> sub_tier sub = Pro
          \<longrightarrow> a \<in> set (ps_members s))"

definition pro_configured :: "pro_state \<Rightarrow> bool" where
  "pro_configured s \<longleftrightarrow>
     (ps_initialized s \<longleftrightarrow> ps_admin s \<noteq> None)
     \<and> (ps_initialized s \<longrightarrow>
          ps_platform_wallet s \<noteq> None \<and> ps_payment_token s \<noteq> None \<and> ps_pro_monthly_price s > 0)"

definition pro_inv :: "pro_state \<Rightarrow> bool" where
  "pro_inv s \<longleftrightarrow> keyed_by_organizer s \<and> members_exact s \<and> pro_configured s"

lemmas pro_inv_defs = pro_inv_def keyed_by_organizer_def members_exact_def pro_configured_def

lemmas pro_admin_defs =
  pro_require_admin_def pro_initialize_def update_pro_price_def pro_update_admin_def
  pro_update_platform_wallet_def update_payment_token_def pro_validate_address_def

lemma pro_inv_empty: "pro_inv pro_empty"
  by (simp add: pro_inv_defs pro_empty_def)

lemma pro_inv_publish [simp]: "pro_inv (pro_publish e s) = pro_inv s"
  by (simp add: pro_inv_defs pro_publish_def)

lemma pro_inv_transfers [simp]: "pro_inv (s\<lparr>ps_transfers := ts\<rparr>) = pro_inv s"
  by (simp add: pro_inv_defs)

lemma pro_inv_total [simp]: "pro_inv (s\<lparr>ps_total := n\<rparr>) = pro_inv s"
  by (simp add: pro_inv_defs)

text \<open>Adding an active subscription together with its list entry keeps the list exact.\<close>

lemma pro_inv_activate:
  assumes "pro_inv s" "sub_is_active sub"
  shows "pro_inv (add_to_pro_members_list (sub_organizer sub) (set_subscription sub s))"
  using assms by (auto simp: pro_inv_defs contract_defs)

lemma pro_inv_deactivate:
  assumes "pro_inv s" "\<not> sub_is_active sub"
  shows "pro_inv (remove_from_pro_members_list (sub_organizer sub) (set_subscription sub s))"
  using assms by (auto simp: pro_inv_defs contract_defs)

lemma pro_inv_basic:
  assumes "pro_inv s" "sub_is_active sub" "sub_tier sub = Basic"
  shows "pro_inv (set_subscription sub s)"
  using assms by (auto simp: pro_inv_defs contract_defs)


lemma subscribe_pro_OkE:
  assumes "subscribe_pro env organizer months s = Ok s'"
  obtains tok wallet total expires n where
    "ps_initialized s" "authorised env organizer" "0 < months" "\<not> is_pro_member env organizer s"
    "ps_payment_token s = Some tok" "ps_platform_wallet s = Some wallet"
    "total = ps_pro_monthly_price s * int months"
    "expires = timestamp env + SECONDS_PER_MONTH * months" "expires < 2 ^ 64"
    "s' = pro_publish (SubscriptionCreated organizer Pro total expires (timestamp env))
           (pro_publish (ProMemberAdded organizer (timestamp env))
             ((add_to_pro_members_list organizer
                (set_subscription
                  \<lparr>sub_organizer = organizer, sub_tier = Pro, sub_started_at = timestamp env,
                    sub_expires_at = expires, sub_is_active = True,
                    sub_amount_paid = total, sub_payment_token = tok\<rparr>
                  (s\<lparr>ps_transfers := ps_transfers s @
                       [\<lparr>tr_token = tok, tr_from = organizer, tr_to = wallet,
                          tr_amount = total\<rparr>]\<rparr>)))\<lparr>ps_total := n\<rparr>))"
proof -
  have "\<not> is_pro_member env organizer s"
    using assms
    by (auto simp: is_pro_member_def subscribe_pro_def require_auth_def
        simp del: rbind_eq_Ok split: if_splits option.splits)
  then show thesis
    using assms that
    by (auto simp: subscribe_pro_def increment_total_pro_subscriptions_def Let_def
        is_pro_member_def [symmetric] split: if_splits)
qed

lemma renew_subscription_OkE:
  assumes "renew_subscription env organizer months s = Ok s'"
  obtains sub tok wallet total new_expiry where
    "ps_initialized s" "authorised env organizer" "0 < months"
    "ps_subscriptions s organizer = Some sub"
    "ps_payment_token s = Some tok" "ps_platform_wallet s = Some wallet"
    "total = ps_pro_monthly_price s * int months"
    "new_expiry = max (sub_expires_at sub) (timestamp env) + SECONDS_PER_MONTH * months"
    "new_expiry < 2 ^ 64"
    "s' = pro_publish (SubscriptionRenewed organizer total new_expiry (timestamp env))
           (pro_publish (ProMemberAdded organizer (timestamp env))
             (add_to_pro_members_list organizer
               (set_subscription
                 (sub\<lparr>sub_expires_at := new_expiry, sub_is_active := True,
                    sub_amount_paid := sub_amount_paid sub + total\<rparr>)
                 (s\<lparr>ps_transfers := ps_transfers s @
                      [\<lparr>tr_token = tok, tr_from = organizer, tr_to = wallet,
                         tr_amount = total\<rparr>]\<rparr>))))"
  using assms that
  by (auto simp: renew_subscription_def Let_def max_def split: if_splits)

lemma pro_inv_keyed: "pro_inv s \<Longrightarrow> ps_subscriptions s a = Some sub \<Longrightarrow> sub_organizer sub = a"
  by (simp add: pro_inv_def keyed_by_organizer_def)

lemma pro_inv_subscribe:
  assumes "pro_inv s" "subscribe_pro env organizer months s = Ok s'"
  shows "pro_inv s'"
  using assms(2)
proof (rule subscribe_pro_OkE)
  fix tok wallet total expires n
  let ?sub = "\<lparr>sub_organizer = organizer, sub_tier = Pro, sub_started_at = timestamp env,
    sub_expires_at = expires, sub_is_active = True, sub_amount_paid = total, sub_payment_token = tok\<rparr>"
  let ?s = "s\<lparr>ps_transfers := ps_transfers s @
    [\<lparr>tr_token = tok, tr_from = organizer, tr_to = wallet, tr_amount = total\<rparr>]\<rparr>"
  assume "s' = pro_publish (SubscriptionCreated organizer Pro total expires (timestamp env))
    (pro_publish (ProMemberAdded organizer (timestamp env))
      ((add_to_pro_members_list organizer (set_subscription ?sub ?s))\<lparr>ps_total := n\<rparr>))"
  moreover have "pro_inv (add_to_pro_members_list (sub_organizer ?sub) (set_subscription ?sub ?s))"
    by (rule pro_inv_activate) (simp_all add: assms(1))
  ultimately show ?thesis by simp
qed

lemma pro_inv_renew:
  assumes "pro_inv s" "renew_subscription env organizer months s = Ok s'"
  shows "pro_inv s'"
  using assms(2)
proof (rule renew_subscription_OkE)
  fix sub :: subscription and tok wallet total new_expiry
  let ?sub = "sub\<lparr>sub_expires_at := new_expiry, sub_is_active := True,
    sub_amount_paid := sub_amount_paid sub + total\<rparr>"
  let ?s = "s\<lparr>ps_transfers := ps_transfers s @
    [\<lparr>tr_token = tok, tr_from = organizer, tr_to = wallet, tr_amount = total\<rparr>]\<rparr>"
  assume "ps_subscriptions s organizer = Some sub"
    and s': "s' = pro_publish (SubscriptionRenewed organizer total new_expiry (timestamp env))
    (pro_publish (ProMemberAdded organizer (timestamp env))
      (add_to_pro_members_list organizer (set_subscription ?sub ?s)))"
  then have "sub_organizer ?sub = organizer"
    using assms(1) by (simp add: pro_inv_keyed)
  moreover have "pro_inv (add_to_pro_members_list (sub_organizer ?sub) (set_subscription ?sub ?s))"
    by (rule pro_inv_activate) (simp_all add: assms(1))
  ultimately show ?thesis using s' by simp
qed

lemma pro_inv_cancel:
  assumes "pro_inv s" "cancel_subscription env organizer s = Ok s'"
  shows "pro_inv s'"
proof -
  obtain sub where sub: "ps_subscriptions s organizer = Some sub"
    and s': "\<exists>e e'. s' = pro_publish e (pro_publish e' (decrement_total_pro_subscriptions
         (remove_from_pro_members_list organizer
            (set_subscription (sub\<lparr>sub_is_active := False\<rparr>) s))))"
    using assms(2) by (auto simp: cancel_subscription_def)
  have "pro_inv (remove_from_pro_members_list (sub_organizer (sub\<lparr>sub_is_active := False\<rparr>))
          (set_subscription (sub\<lparr>sub_is_active := False\<rparr>) s))"
    by (rule pro_inv_deactivate) (simp_all add: assms(1))
  then show ?thesis
    using s' pro_inv_keyed [OF assms(1) sub]
    by (auto simp: decrement_total_pro_subscriptions_def)
qed

lemma pro_inv_register_basic:
  assumes "pro_inv s" "register_basic env organizer s = Ok s'"
  shows "pro_inv s'"
  using assms by (auto simp: register_basic_def intro!: pro_inv_basic split: if_splits)

lemma pro_inv_dispatch:
  assumes "pro_inv s" "pro_dispatch env c s = Ok s'"
  shows "pro_inv s'"
proof (cases c)
  case (Pro_initialize a w t p)
  then show ?thesis
    using assms by (auto simp: pro_admin_defs pro_inv_defs pro_publish_def split: if_splits)
next
  case (Pro_update_pro_price p)
  then show ?thesis
    using assms by (auto simp: pro_admin_defs pro_inv_defs pro_publish_def split: if_splits)
next
  case (Pro_update_admin a)
  then show ?thesis
    using assms by (auto simp: pro_admin_defs pro_inv_defs pro_publish_def split: if_splits)
next
  case (Pro_update_platform_wallet a)
  then show ?thesis
    using assms by (auto simp: pro_admin_defs pro_inv_defs pro_publish_def split: if_splits)
next
  case (Pro_update_payment_token a)
  then show ?thesis
    using assms by (auto simp: pro_admin_defs pro_inv_defs pro_publish_def split: if_splits)
qed (use assms in \<open>auto intro: pro_inv_subscribe pro_inv_renew pro_inv_cancel pro_inv_register_basic\<close>)

lemma pro_reachable_inv: "pro_reachable s \<Longrightarrow> pro_inv s"
  by (induction rule: pro_reachable.induct) (auto intro: pro_inv_empty pro_inv_dispatch)


section \<open>Example runs\<close>

definition pro_demo :: "(env \<times> pro_call) list" where
  "pro_demo = [(at_time 0, Pro_initialize ''admin'' ''wallet'' ''usdc'' 50),
               (at_time 100, Pro_subscribe_pro ''alice'' 2)]"

definition pro_demo_state :: pro_state where
  "pro_demo_state = (case pro_run pro_demo pro_empty of Ok s \<Rightarrow> s | _ \<Rightarrow> pro_empty)"

text \<open>A subscription that lapses and is taken out again, with nobody else subscribing.\<close>

definition pro_drift :: "(env \<times> pro_call) list" where
  "pro_drift = pro_demo @ [(at_time 10000000, Pro_subscribe_pro ''alice'' 1)]"

definition pro_drift_state :: pro_state where
  "pro_drift_state = (case pro_run pro_drift pro_empty of Ok s \<Rightarrow> s | _ \<Rightarrow> pro_empty)"

lemmas pro_run_defs =
  pro_empty_def at_time_def pro_admin_defs subscribe_pro_def renew_subscription_def
  cancel_subscription_def contract_defs SECONDS_PER_MONTH_def require_auth_def token_transfer_def
  checked_mul_i128_def checked_add_i128_def checked_i128_def in_i128_def i128_min_def i128_max_def
  checked_add_u_def mul_u_def add_u_def ok_or_def

lemma pro_demo_runs: "pro_run pro_demo pro_empty = Ok pro_demo_state"
  by (simp add: pro_demo_state_def pro_demo_def pro_run_defs)

lemma pro_drift_runs: "pro_run pro_drift pro_empty = Ok pro_drift_state"
  by (simp add: pro_drift_state_def pro_drift_def pro_demo_def pro_run_defs)

lemma pro_demo_reachable: "pro_reachable pro_demo_state"
  using pro_run_reachable [OF pro_start pro_demo_runs] .

lemma pro_drift_reachable: "pro_reachable pro_drift_state"
  using pro_run_reachable [OF pro_start pro_drift_runs] .

lemmas pro_demo_eval = pro_demo_state_def pro_demo_def pro_run_defs

lemmas pro_drift_eval = pro_drift_state_def pro_drift_def pro_demo_def pro_run_defs


section \<open>Properties\<close>

text \<open>C33: in every reachable state the list of Pro members has no duplicates, everyone in it has an
  active subscription, and every active Pro subscription is in it; subscriptions are stored under
  their own organizer.\<close>

theorem pro_members_list_exact:
  assumes "pro_reachable s"
  shows "distinct (ps_members s)
    \<and> (\<forall>a\<in>set (ps_members s). \<exists>sub. ps_subscriptions s a = Some sub \<and> sub_is_active sub)
    \<and> (\<forall>a sub. ps_subscriptions s a = Some sub \<longrightarrow> sub_organizer sub = a
           \<and> (sub_is_active sub \<and> sub_tier sub = Pro \<longrightarrow> a \<in> set (ps_members s)))"
  using pro_reachable_inv [OF assms] by (auto simp: pro_inv_defs)

theorem pro_members_list_exact_witness:
  "pro_reachable pro_demo_state \<and> ps_members pro_demo_state = [''alice'']
   \<and> distinct (ps_members pro_demo_state)"
proof -
  have "ps_members pro_demo_state = [''alice'']"
    by (simp add: pro_demo_eval)
  then show ?thesis
    using pro_members_list_exact [OF pro_demo_reachable] pro_demo_reachable by blast
qed

text \<open>C34: on an initialized contract, a subscription that is authorised, positive, not already running,
  accepted by the token and within the integer ranges always succeeds; it moves exactly the monthly
  price times the months from the organizer to the platform wallet, makes the organizer a Pro member
  until exactly 30 days per month later, and changes nobody else's membership.\<close>

theorem subscribe_pro_grants_membership:
  assumes "pro_reachable s" "ps_initialized s" "authorised env organizer" "0 < months"
    and "\<not> is_pro_member env organizer s"
    and "in_i128 amount" "expiry < 2 ^ 64" "ps_total s + 1 < 2 ^ 32"
    and "\<And>t. tr_amount t = amount \<Longrightarrow> token_accepts env (ps_transfers s) t"
    and "amount = ps_pro_monthly_price s * int months"
    and "expiry = timestamp env + SECONDS_PER_MONTH * months"
  shows "\<exists>s'. subscribe_pro env organizer months s = Ok s'
    \<and> (\<forall>env'. is_pro_member env' organizer s' \<longleftrightarrow> timestamp env' < expiry)
    \<and> (\<forall>env' a. a \<noteq> organizer \<longrightarrow> is_pro_member env' a s' = is_pro_member env' a s)
    \<and> (\<exists>tok wallet. ps_payment_token s = Some tok \<and> ps_platform_wallet s = Some wallet
         \<and> ps_transfers s' = ps_transfers s
             @ [\<lparr>tr_token = tok, tr_from = organizer, tr_to = wallet, tr_amount = amount\<rparr>])"
proof -
  obtain tok wallet where cfg: "ps_payment_token s = Some tok" "ps_platform_wallet s = Some wallet"
    using pro_reachable_inv [OF assms(1)] assms(2) by (auto simp: pro_inv_defs)
  let ?t = "\<lparr>tr_token = tok, tr_from = organizer, tr_to = wallet, tr_amount = amount\<rparr>"
  have "subscribe_pro env organizer months s
      = Ok (pro_publish (SubscriptionCreated organizer Pro amount expiry (timestamp env))
           (pro_publish (ProMemberAdded organizer (timestamp env))
             ((add_to_pro_members_list organizer
                (set_subscription
                  \<lparr>sub_organizer = organizer, sub_tier = Pro, sub_started_at = timestamp env,
                    sub_expires_at = expiry, sub_is_active = True,
                    sub_amount_paid = amount, sub_payment_token = tok\<rparr>
                  (s\<lparr>ps_transfers := ps_transfers s @ [?t]\<rparr>)))\<lparr>ps_total := ps_total s + 1\<rparr>)))"
    (is "_ = Ok ?s'")
    using assms(2-11) cfg
    by (simp add: subscribe_pro_def is_pro_member_def Let_def add_to_pro_members_list_def
        set_subscription_def increment_total_pro_subscriptions_def)
  moreover have "ps_subscriptions ?s' = (ps_subscriptions s)(organizer \<mapsto>
      \<lparr>sub_organizer = organizer, sub_tier = Pro, sub_started_at = timestamp env,
        sub_expires_at = expiry, sub_is_active = True,
        sub_amount_paid = amount, sub_payment_token = tok\<rparr>)"
    "ps_transfers ?s' = ps_transfers s @ [?t]"
    by (simp_all add: contract_defs)
  ultimately show ?thesis
    using cfg by (auto simp: is_pro_member_def)
qed

theorem subscribe_pro_grants_membership_witness:
  "\<exists>s'. subscribe_pro (at_time 10000000) ''alice'' 1 pro_demo_state = Ok s'
     \<and> is_pro_member (at_time 12591999) ''alice'' s'
     \<and> \<not> is_pro_member (at_time 12592000) ''alice'' s'"
proof -
  have pre: "ps_initialized pro_demo_state" "authorised (at_time 10000000) ''alice''" "0 < (1::nat)"
    "\<not> is_pro_member (at_time 10000000) ''alice'' pro_demo_state"
    "in_i128 50" "12592000 < (2::nat) ^ 64" "ps_total pro_demo_state + 1 < 2 ^ 32"
    "\<And>t. tr_amount t = 50 \<Longrightarrow> token_accepts (at_time 10000000) (ps_transfers pro_demo_state) t"
    "50 = ps_pro_monthly_price pro_demo_state * int 1"
    "12592000 = timestamp (at_time 10000000) + SECONDS_PER_MONTH * 1"
    by (simp_all add: pro_demo_eval is_pro_member_def)
  show ?thesis
    using subscribe_pro_grants_membership [OF pro_demo_reachable pre]
    by (auto simp: at_time_def)
qed

text \<open>C35: a renewal never shortens a membership: from the later of the old expiry and now it adds
  exactly 30 days per month, adds the price paid to the subscription, and makes the organizer a Pro
  member until then even if the subscription was cancelled or expired before.\<close>

theorem renew_extends_membership:
  assumes "pro_reachable s" "renew_subscription env organizer months s = Ok s'"
    and "ps_subscriptions s organizer = Some sub"
  shows "get_subscription_expiry organizer s'
      = Some (max (sub_expires_at sub) (timestamp env) + SECONDS_PER_MONTH * months)
    \<and> (\<forall>env'. is_pro_member env' organizer s \<longrightarrow> is_pro_member env' organizer s')
    \<and> is_pro_member env organizer s'
    \<and> map_option sub_amount_paid (ps_subscriptions s' organizer)
        = Some (sub_amount_paid sub + ps_pro_monthly_price s * int months)"
  using assms(2)
proof (rule renew_subscription_OkE)
  fix sub' :: subscription and tok wallet total new_expiry
  assume *: "0 < months" "ps_subscriptions s organizer = Some sub'"
    "total = ps_pro_monthly_price s * int months"
    "new_expiry = max (sub_expires_at sub') (timestamp env) + SECONDS_PER_MONTH * months"
    "s' = pro_publish (SubscriptionRenewed organizer total new_expiry (timestamp env))
           (pro_publish (ProMemberAdded organizer (timestamp env))
             (add_to_pro_members_list organizer
               (set_subscription
                 (sub'\<lparr>sub_expires_at := new_expiry, sub_is_active := True,
                    sub_amount_paid := sub_amount_paid sub' + total\<rparr>)
                 (s\<lparr>ps_transfers := ps_transfers s @
                      [\<lparr>tr_token = tok, tr_from = organizer, tr_to = wallet,
                         tr_amount = total\<rparr>]\<rparr>))))"
  have "ps_subscriptions s' organizer = Some (sub\<lparr>sub_expires_at := new_expiry,
      sub_is_active := True, sub_amount_paid := sub_amount_paid sub + total\<rparr>)"
    using * assms(3) pro_inv_keyed [OF pro_reachable_inv [OF assms(1)] assms(3)]
    by (simp add: contract_defs)
  then show ?thesis
    using * assms(3)
    by (auto simp: is_pro_member_def get_subscription_expiry_def SECONDS_PER_MONTH_def)
qed

theorem renew_extends_membership_witness:
  "\<exists>s' sub. renew_subscription (at_time 200) ''alice'' 1 pro_demo_state = Ok s'
     \<and> ps_subscriptions pro_demo_state ''alice'' = Some sub
     \<and> get_subscription_expiry ''alice'' s' = Some (100 + 3 * 2592000)"
proof -
  obtain s' where s': "renew_subscription (at_time 200) ''alice'' 1 pro_demo_state = Ok s'"
    by (simp add: pro_demo_eval)
  obtain sub where sub: "ps_subscriptions pro_demo_state ''alice'' = Some sub"
    and "sub_expires_at sub = 100 + 2 * 2592000"
    by (simp add: pro_demo_eval)
  then show ?thesis
    using renew_extends_membership [OF pro_demo_reachable s' sub] s' sub
    by (auto simp: at_time_def SECONDS_PER_MONTH_def)
qed

text \<open>The counter of active Pro subscriptions is not the number of Pro members: an organizer who
  subscribes again after a subscription lapsed is counted twice while being the only member.\<close>

theorem total_pro_subscriptions_drifts:
  "pro_reachable pro_drift_state \<and> get_pro_members_count pro_drift_state = 1
   \<and> ps_total pro_drift_state = 2"
  using pro_drift_reachable by (simp add: get_pro_members_count_def pro_drift_eval)

end
