(* ===== verification/Registry_Types.thy ===== *)
theory Registry_Types
  imports Prelude
begin

text \<open>
  The data of the event registry (\<open>src/contract/contracts/event_registry/src/types.rs\<close>,
  \<open>error.rs\<close>, \<open>events.rs\<close>): one record per struct, with the struct's initials as a prefix of the
  field names, and one datatype per enum.  Strings are byte lists, as they are on the ledger.
\<close>

section \<open>Roles and categories\<close>

datatype role = Role_Admin | Role_Manager | Role_Scanner

text \<open>The discriminants of the enum: a smaller one is a stronger role.\<close>

fun role_id :: "role \<Rightarrow> nat" where
  "role_id Role_Admin = 1"
| "role_id Role_Manager = 2"
| "role_id Role_Scanner = 3"

lemma role_id_inj [simp]: "role_id r = role_id r' \<longleftrightarrow> r = r'"
  by (cases r; cases r') auto

instantiation role :: linorder
begin

definition less_eq_role :: "role \<Rightarrow> role \<Rightarrow> bool" where
  "less_eq_role r r' \<longleftrightarrow> role_id r' \<le> role_id r"

definition less_role :: "role \<Rightarrow> role \<Rightarrow> bool" where
  "less_role r r' \<longleftrightarrow> role_id r' < role_id r"

instance
  by standard (auto simp: less_eq_role_def less_role_def)

end

datatype event_category =
  Music | Sports | Tech | Arts | Food | Business | Health | Education | Community | Other

definition category_from_id :: "nat \<Rightarrow> event_category option" where
  "category_from_id i =
     (if i = 1 then Some Music else if i = 2 then Some Sports else if i = 3 then Some Tech
      else if i = 4 then Some Arts else if i = 5 then Some Food else if i = 6 then Some Business
      else if i = 7 then Some Health else if i = 8 then Some Education
      else if i = 9 then Some Community else if i = 10 then Some Other else None)"


section \<open>Series\<close>

record series_registry =
  series_id :: string
  series_name :: string
  series_event_ids :: "string list"
  series_organizer :: address
  series_metadata_cid :: "string option"

record series_pass =
  pass_id :: string
  pass_series_id :: string
  pass_holder :: address
  pass_usage_limit :: nat
  pass_usage_count :: nat
  pass_issued_at :: nat
  pass_expires_at :: nat


section \<open>Events\<close>

record auction_config =
  auc_start_price :: int
  auc_end_time :: nat
  auc_min_increment :: int

record ticket_tier =
  tier_name :: string
  tier_price :: int
  tier_limit :: int
  tier_current_sold :: int
  tier_is_refundable :: bool
  tier_auction_config :: "auction_config list"
  tier_loyalty_multiplier :: nat
  tier_max_per_user :: nat

record milestone =
  ms_sales_threshold :: int
  ms_release_percent :: nat

datatype event_status = Active | Inactive | Cancelled

type_synonym tier_map = "(string \<times> ticket_tier) list"

record event_info =
  ev_event_id :: string
  ev_name :: string
  ev_organizer :: address
  ev_payment_address :: address
  ev_platform_fee_percent :: nat
  ev_is_active :: bool
  ev_status :: event_status
  ev_created_at :: nat
  ev_metadata_cid :: string
  ev_max_supply :: int
  ev_current_supply :: int
  ev_milestone_plan :: "milestone list option"
  ev_tiers :: tier_map
  ev_refund_deadline :: nat
  ev_restocking_fee :: int
  ev_resale_cap_bps :: "nat option"
  ev_is_postponed :: bool
  ev_grace_period_end :: nat
  ev_min_sales_target :: int
  ev_target_deadline :: nat
  ev_goal_met :: bool
  ev_custom_fee_bps :: "nat option"
  ev_banner_cid :: "string option"
  ev_tags :: "string list option"
  ev_category_ids :: "nat list option"
  ev_start_time :: nat
  ev_is_private :: bool
  ev_end_time :: nat
  ev_transfer_lock_duration :: nat
  ev_accepted_tokens :: "address list"
  ev_use_global_whitelist :: bool
  ev_feedback_cid :: "string option"
  ev_cancellation_reason :: "string option"
  ev_referral_rate_bps :: nat

record payment_info =
  pi_payment_address :: address
  pi_platform_fee_percent :: nat
  pi_custom_fee_bps :: "nat option"
  pi_tiers :: tier_map
  pi_referral_rate_bps :: nat

record registration_args =
  args_event_id :: string
  args_name :: string
  args_organizer :: address
  args_payment_address :: address
  args_metadata_cid :: string
  args_max_supply :: int
  args_milestone_plan :: "milestone list option"
  args_tiers :: tier_map
  args_refund_deadline :: nat
  args_restocking_fee :: int
  args_resale_cap_bps :: "nat option"
  args_min_sales_target :: "int option"
  args_target_deadline :: "nat option"
  args_banner_cid :: "string option"
  args_tags :: "string list option"
  args_category_ids :: "nat list option"
  args_start_time :: nat
  args_is_private :: bool
  args_end_time :: nat
  args_transfer_lock_duration :: nat
  args_accepted_tokens :: "address list"
  args_use_global_whitelist :: bool
  args_referral_rate_bps :: "nat option"

record blacklist_audit_entry =
  bl_organizer :: address
  bl_added_to_blacklist :: bool
  bl_admin :: address
  bl_reason :: string
  bl_timestamp :: nat

record event_receipt =
  rcpt_event_id :: string
  rcpt_organizer :: address
  rcpt_total_sold :: int
  rcpt_archived_at :: nat


section \<open>Governance, loyalty, staking, disputes\<close>

record multisig_config =
  ms_admins :: "address list"
  ms_threshold :: nat

datatype parameter_change =
    AddAdmin address
  | RemoveAdmin address
  | SetThreshold nat
  | UpdatePlatformWallet address
  | SetPlatformFee nat
  | SetMinStakeAmount int

record proposal =
  prop_id :: nat
  prop_proposer :: address
  prop_change :: parameter_change
  prop_approvals :: "address list"
  prop_executed :: bool
  prop_cancelled :: bool
  prop_created_at :: nat
  prop_expires_at :: nat

record guest_profile =
  guest_address :: address
  guest_loyalty_score :: nat
  guest_tickets_purchased :: nat
  guest_total_spent :: int
  guest_last_updated :: nat

record organizer_stake =
  stake_organizer :: address
  stake_token :: address
  stake_amount :: int
  stake_staked_at :: nat
  stake_is_verified :: bool
  stake_reward_balance :: int
  stake_total_rewards_claimed :: int

datatype dispute_status = DisputeOpen | DisputeVoting | ResolvedBuyer | ResolvedOrganizer | DisputeExpired

datatype dispute_vote = BuyerFavor | OrganizerFavor

record dispute =
  dsp_event_id :: string
  dsp_opened_by :: address
  dsp_opened_at :: nat
  dsp_closes_at :: nat
  dsp_status :: dispute_status
  dsp_total_votes :: nat
  dsp_buyer_votes :: nat
  dsp_organizer_votes :: nat
  dsp_quorum_threshold_bps :: nat
  dsp_total_eligible_tickets :: int

record bridge_config =
  bridge_relayer_pubkeys :: "address list"
  bridge_threshold :: nat
  bridge_nonce :: nat


section \<open>Errors and published events\<close>

datatype (plugins only: code) registry_error =
    EventAlreadyExists | EventNotFound | Unauthorized | InvalidAddress | InvalidFeePercent
  | EventInactive | NotInitialized | AlreadyInitialized | InvalidMetadataCid | MaxSupplyExceeded
  | SupplyOverflow | TierLimitExceeds | TierNotFound | TierSoldOut | SupplyUnderflow
  | InvalidQuantity | OrganizerBlacklisted | OrgNotBlacklisted | InvalidResaleCapBps
  | InvalidPromoBps | EventCancelled | EventAlreadyCanceled | InvalidGracePeriod | EventIsActive
  | AlreadyStaked | NotStaked | InvalidStakeAmount | StakingNotConfigured | NoRewardsAvailable
  | InvalidRewardAmount | InvalidThreshold | PropAlreadyExecuted | EventNotEnded
  | InvalidMilestonePlan | InvalidTags | ProposalExpired | MultisigError | PropAlreadyCanceled
  | PerUserLimitExceeded | InvalidDeadline | AlreadyOnWaitlist | NotOnWaitlist | TooManyTiers
  | TokenNotAccepted | DisputeNotFound | DisputeNotOpen | AlreadyVoted | NotTicketHolder
  | ReplayAttackDetected | InsufficientSignatures

text \<open>One constructor per topic the registry publishes, with the payload struct's fields in order.\<close>

datatype (plugins only: code) agora_event =
    ContractInitialized_event address address nat nat
  | EventRegistered_event string address address nat
  | EventStatusUpdated_event string bool address nat
  | EventCancelled_event string address nat "string option"
  | EventArchived_event string address nat
  | MetadataUpdated_event string string address nat
  | FeedbackCidSet_event string string address nat
  | FeeUpdated_event nat
  | CustomFeeSet_event string "nat option" address nat
  | AdminProposed_event address address nat
  | AdminTransferred_event address address nat
  | AdminProposalCancelled_event address address nat
  | GoalMet_event string int int nat
  | InventoryIncremented_event string int nat
  | InventoryDecremented_event string int nat
  | ContractUpgraded_event address nat
  | OrganizerBlacklisted_event address address string nat
  | OrganizerRemovedFromBlacklist_event address address string nat
  | EventsSuspended_event address nat address nat
  | GlobalPromoUpdated_event nat nat address nat
  | EventPostponed_event string address nat nat nat
  | ScannerAuthorized_event string address address nat
  | ScannerRevoked_event string address address nat
  | StakingTokenUpdated_event "address option" address address
  | MinStakeAmountUpdated_event int int address
  | CollateralStaked_event address address int bool nat
  | CollateralUnstaked_event address address int nat
  | StakerRewardsDistributed_event int nat nat
  | StakerRewardsClaimed_event address int nat
  | LoyaltyScoreUpdated_event address nat nat nat
  | WaitlistJoined_event string address nat
  | WaitlistLeft_event string address nat
  | ProposalCancelled_event nat address nat
  | DisputeOpened_event string address nat
  | DisputeVoted_event string address dispute_vote nat
  | DisputeResolved_event string dispute_status nat nat nat nat

end
