(* ===== verification/Registry_Config.thy ===== *)
theory Registry_Config
  imports Registry_Types
begin

text \<open>
  Configuration of the event registry: initialization, the administrator and its two-step transfer,
  platform fee and wallet, payment token whitelist, global promotion (the configuration entry points
  of \<open>event_registry/src/lib.rs\<close>, \<open>auth.rs\<close>, and their accessors in \<open>storage.rs\<close>).  The state is the
  first part of the registry's storage; later theories extend the record with their own keys.  A key
  read with a default is a field holding that default when unset.
\<close>

section \<open>State\<close>

record reg_config =
  rc_admin :: "address option"
  rc_pending_admin :: "address option"
  rc_multisig :: "multisig_config option"
  rc_platform_wallet :: "address option"
  rc_platform_fee :: nat
  rc_initialized :: bool
  rc_token_whitelist :: "address set"
  rc_ticket_payment :: "address option"
  rc_promo_bps :: nat
  rc_promo_expiry :: nat
  rc_proposal_counter :: nat
  rc_proposals :: "nat \<rightharpoonup> proposal"
  rc_active_proposals :: "nat list"
  rc_min_stake_amount :: int
  rc_contract_admin :: "address option"
  rc_approved_organizers :: "address set"
  rc_transfers :: "transfer list"
  rc_published :: "agora_event list"

definition publish :: "agora_event \<Rightarrow> 'a reg_config_scheme \<Rightarrow> 'a reg_config_scheme" where
  [contract_defs]: "publish e s = s\<lparr>rc_published := rc_published s @ [e]\<rparr>"

definition is_admin :: "address \<Rightarrow> 'a reg_config_scheme \<Rightarrow> bool" where
  "is_admin a s = (case rc_multisig s of Some config \<Rightarrow> a \<in> set (ms_admins config) | None \<Rightarrow> False)"

definition get_multisig_config :: "'a reg_config_scheme \<Rightarrow> multisig_config" where
  "get_multisig_config s = unwrap_or (rc_multisig s) \<lparr>ms_admins = [], ms_threshold = 1\<rparr>"

definition set_approved_organizer ::
    "address \<Rightarrow> bool \<Rightarrow> 'a reg_config_scheme \<Rightarrow> 'a reg_config_scheme" where
  "set_approved_organizer organizer approved s =
     s\<lparr>rc_approved_organizers :=
         (if approved then insert organizer (rc_approved_organizers s)
          else rc_approved_organizers s - {organizer})\<rparr>"

definition is_approved_organizer :: "address \<Rightarrow> 'a reg_config_scheme \<Rightarrow> bool" where
  "is_approved_organizer a s = (a \<in> rc_approved_organizers s)"


section \<open>Validation\<close>

definition validate_address :: "env \<Rightarrow> address \<Rightarrow> (registry_error, unit) result" where
  "validate_address env a = (if a = current_contract env then Err InvalidAddress else Ok ())"

text \<open>\<open>bytes.get(i) == Some(b)\<close>: an index past the end is never equal.\<close>

definition byte_at :: "string \<Rightarrow> nat \<Rightarrow> char \<Rightarrow> bool" where
  "byte_at cid i b \<longleftrightarrow> i < length cid \<and> cid ! i = b"

definition validate_metadata_cid :: "string \<Rightarrow> (registry_error, unit) result" where
  "validate_metadata_cid cid =
     (if length cid \<ge> 46 \<and> length cid \<ge> 2 \<and> byte_at cid 0 CHR ''Q'' \<and> byte_at cid 1 CHR ''m''
      then Ok ()
      else if length cid \<ge> 59 \<and> length cid \<ge> 4
        \<and> byte_at cid 0 CHR ''b'' \<and> byte_at cid 1 CHR ''a''
        \<and> byte_at cid 2 CHR ''f'' \<and> byte_at cid 3 CHR ''y''
      then Ok ()
      else Err InvalidMetadataCid)"

fun validate_tag_bytes :: "string \<Rightarrow> (registry_error, unit) result" where
  "validate_tag_bytes [] = Ok ()"
| "validate_tag_bytes (c # cs) =
     (if of_char c < (32::nat) \<or> (127 \<le> (of_char c :: nat) \<and> of_char c < (192::nat))
      then Err InvalidTags else validate_tag_bytes cs)"

fun validate_tags :: "string list \<Rightarrow> (registry_error, unit) result" where
  "validate_tags [] = Ok ()"
| "validate_tags (tag # tags) =
     (if length tag > 32 then Err InvalidTags
      else rbind (validate_tag_bytes tag) (\<lambda>_. validate_tags tags))"

lemma validate_address_eq_Ok [simp, result_simps]:
  "validate_address env a = Ok u \<longleftrightarrow> a \<noteq> current_contract env"
  by (simp add: validate_address_def)


section \<open>Administration\<close>

definition require_admin :: "env \<Rightarrow> 'a reg_config_scheme \<Rightarrow> (registry_error, address) result" where
  "require_admin env s =
     rbind (ok_or (rc_admin s) NotInitialized) (\<lambda>admin.
     rbind (require_auth env admin) (\<lambda>_. Ok admin))"

lemma require_admin_eq_Ok [simp, result_simps]:
  "require_admin env s = Ok a \<longleftrightarrow> rc_admin s = Some a \<and> authorised env a"
  by (auto simp: require_admin_def)

definition initialize ::
    "env \<Rightarrow> address \<Rightarrow> address \<Rightarrow> nat \<Rightarrow> address \<Rightarrow> 'a reg_config_scheme
     \<Rightarrow> (registry_error, 'a reg_config_scheme) result" where
  "initialize env admin platform_wallet platform_fee_percent usdc_token s =
     (if rc_initialized s then Err AlreadyInitialized
      else
        rbind (validate_address env admin) (\<lambda>_.
        rbind (validate_address env platform_wallet) (\<lambda>_.
        rbind (validate_address env usdc_token) (\<lambda>_.
        if platform_fee_percent > 10000 then Err InvalidFeePercent
        else Ok (publish
               (ContractInitialized_event admin platform_wallet platform_fee_percent (timestamp env))
               (s\<lparr>rc_admin := Some admin,
                  rc_multisig := Some \<lparr>ms_admins = [admin], ms_threshold = 1\<rparr>,
                  rc_platform_wallet := Some platform_wallet,
                  rc_platform_fee := platform_fee_percent,
                  rc_token_whitelist := insert usdc_token (rc_token_whitelist s),
                  rc_initialized := True\<rparr>))))))"

definition add_to_token_whitelist ::
    "env \<Rightarrow> address \<Rightarrow> 'a reg_config_scheme \<Rightarrow> (registry_error, 'a reg_config_scheme) result" where
  "add_to_token_whitelist env tok s =
     rbind (require_admin env s) (\<lambda>_.
     rbind (validate_address env tok) (\<lambda>_.
     Ok (s\<lparr>rc_token_whitelist := insert tok (rc_token_whitelist s)\<rparr>)))"

definition remove_from_token_whitelist ::
    "env \<Rightarrow> address \<Rightarrow> 'a reg_config_scheme \<Rightarrow> (registry_error, 'a reg_config_scheme) result" where
  "remove_from_token_whitelist env tok s =
     rbind (require_admin env s) (\<lambda>_.
     Ok (s\<lparr>rc_token_whitelist := rc_token_whitelist s - {tok}\<rparr>))"

definition is_token_whitelisted :: "address \<Rightarrow> 'a reg_config_scheme \<Rightarrow> bool" where
  "is_token_whitelisted tok s = (tok \<in> rc_token_whitelist s)"

definition is_token_accepted_for_event ::
    "address \<Rightarrow> bool \<Rightarrow> address list \<Rightarrow> 'a reg_config_scheme \<Rightarrow> bool" where
  "is_token_accepted_for_event tok use_global_whitelist accepted_tokens s =
     (if use_global_whitelist then is_token_whitelisted tok s
      else if accepted_tokens = [] then is_token_whitelisted tok s
      else tok \<in> set accepted_tokens)"

definition get_admin :: "'a reg_config_scheme \<Rightarrow> (registry_error, address) result" where
  "get_admin s = ok_or (rc_admin s) NotInitialized"

definition propose_admin ::
    "env \<Rightarrow> address \<Rightarrow> 'a reg_config_scheme \<Rightarrow> (registry_error, 'a reg_config_scheme) result" where
  "propose_admin env new_admin s =
     rbind (require_admin env s) (\<lambda>current_admin.
     rbind (validate_address env new_admin) (\<lambda>_.
     Ok (publish (AdminProposed_event current_admin new_admin (timestamp env))
          (s\<lparr>rc_pending_admin := Some new_admin\<rparr>))))"

definition accept_admin ::
    "env \<Rightarrow> 'a reg_config_scheme \<Rightarrow> (registry_error, 'a reg_config_scheme) result" where
  "accept_admin env s =
     rbind (ok_or (rc_pending_admin s) Unauthorized) (\<lambda>proposed_admin.
     rbind (require_auth env proposed_admin) (\<lambda>_.
     rbind (ok_or (rc_admin s) NotInitialized) (\<lambda>previous_admin.
     Ok (publish (AdminTransferred_event previous_admin proposed_admin (timestamp env))
          (s\<lparr>rc_admin := Some proposed_admin, rc_pending_admin := None\<rparr>)))))"

definition cancel_admin_proposal ::
    "env \<Rightarrow> 'a reg_config_scheme \<Rightarrow> (registry_error, 'a reg_config_scheme) result" where
  "cancel_admin_proposal env s =
     rbind (require_admin env s) (\<lambda>current_admin.
     rbind (ok_or (rc_pending_admin s) Unauthorized) (\<lambda>proposed_admin.
     Ok (publish (AdminProposalCancelled_event current_admin proposed_admin (timestamp env))
          (s\<lparr>rc_pending_admin := None\<rparr>))))"

definition set_ticket_payment_contract ::
    "env \<Rightarrow> address \<Rightarrow> 'a reg_config_scheme \<Rightarrow> (registry_error, 'a reg_config_scheme) result" where
  "set_ticket_payment_contract env a s =
     rbind (require_admin env s) (\<lambda>_.
     rbind (validate_address env a) (\<lambda>_.
     Ok (s\<lparr>rc_ticket_payment := Some a\<rparr>)))"

text \<open>The new code of an upgrade runs from the next invocation on; this one only verifies and
  publishes.\<close>

definition upgrade ::
    "env \<Rightarrow> 'a reg_config_scheme \<Rightarrow> (registry_error, 'a reg_config_scheme) result" where
  "upgrade env s =
     rbind (require_admin env s) (\<lambda>_.
     rbind (ok_or (rc_admin s) NotInitialized) (\<lambda>verified_admin.
     rbind (ok_or (rc_platform_wallet s) NotInitialized) (\<lambda>_.
     Ok (publish (ContractUpgraded_event verified_admin (timestamp env)) s))))"

definition set_global_promo ::
    "env \<Rightarrow> nat \<Rightarrow> nat \<Rightarrow> 'a reg_config_scheme \<Rightarrow> (registry_error, 'a reg_config_scheme) result" where
  "set_global_promo env global_promo_bps promo_expiry s =
     rbind (require_admin env s) (\<lambda>admin.
     if global_promo_bps > 10000 then Err InvalidPromoBps
     else Ok (publish (GlobalPromoUpdated_event global_promo_bps promo_expiry admin (timestamp env))
            (s\<lparr>rc_promo_bps := global_promo_bps, rc_promo_expiry := promo_expiry\<rparr>)))"

definition get_global_promo_bps :: "env \<Rightarrow> 'a reg_config_scheme \<Rightarrow> nat" where
  "get_global_promo_bps env s = (if rc_promo_expiry s \<le> timestamp env then 0 else rc_promo_bps s)"

definition get_global_promo :: "env \<Rightarrow> 'a reg_config_scheme \<Rightarrow> (nat \<times> nat) option" where
  "get_global_promo env s =
     (if rc_promo_expiry s \<le> timestamp env then None else Some (rc_promo_bps s, rc_promo_expiry s))"

lemmas config_op_defs =
  initialize_def add_to_token_whitelist_def remove_from_token_whitelist_def propose_admin_def
  accept_admin_def cancel_admin_proposal_def set_ticket_payment_contract_def upgrade_def
  set_global_promo_def


section \<open>Validation accepts what it should\<close>

text \<open>A tag is accepted exactly when it has at most 32 bytes, all of them printable ASCII or at least
  0xC0.  Continuation bytes of UTF-8 (0x80 to 0xBF) are refused.\<close>

definition tag_byte_ok :: "char \<Rightarrow> bool" where
  "tag_byte_ok c \<longleftrightarrow> 32 \<le> (of_char c :: nat) \<and> (of_char c < (127::nat) \<or> 192 \<le> (of_char c :: nat))"

lemma validate_tag_bytes_iff: "validate_tag_bytes t = Ok () \<longleftrightarrow> (\<forall>c\<in>set t. tag_byte_ok c)"
  by (induction t) (auto simp: tag_byte_ok_def)

lemma validate_tags_iff:
  "validate_tags tags = Ok () \<longleftrightarrow> (\<forall>t\<in>set tags. length t \<le> 32 \<and> (\<forall>c\<in>set t. tag_byte_ok c))"
  by (induction tags) (auto simp: validate_tag_bytes_iff)

end
