(* ===== verification/Registry_Governance.thy ===== *)
theory Registry_Governance
  imports Registry_Config
begin

text \<open>
  Multi-signature governance of the event registry: proposals of parameter changes, their approval,
  execution, cancellation and clean-up, and the platform fee, whose direct change needs an approved
  proposal once the threshold exceeds one (the governance part of \<open>event_registry/src/lib.rs\<close> and
  its accessors in \<open>storage.rs\<close>).  The invariant says that proposals are numbered by the counter,
  approved by distinct administrators, and that the active list holds only open proposals.
\<close>

section \<open>Storage\<close>

definition set_proposal :: "proposal \<Rightarrow> 'a reg_config_scheme \<Rightarrow> 'a reg_config_scheme" where
  [contract_defs]: "set_proposal p s = s\<lparr>rc_proposals := (rc_proposals s)(prop_id p \<mapsto> p)\<rparr>"

definition add_active_proposal :: "nat \<Rightarrow> 'a reg_config_scheme \<Rightarrow> 'a reg_config_scheme" where
  [contract_defs]:
  "add_active_proposal i s =
     (if i \<in> set (rc_active_proposals s) then s
      else s\<lparr>rc_active_proposals := rc_active_proposals s @ [i]\<rparr>)"

definition remove_active_proposal :: "nat \<Rightarrow> 'a reg_config_scheme \<Rightarrow> 'a reg_config_scheme" where
  [contract_defs]:
  "remove_active_proposal i s =
     s\<lparr>rc_active_proposals := filter (\<lambda>j. j \<noteq> i) (rc_active_proposals s)\<rparr>"

definition store_proposal :: "proposal \<Rightarrow> 'a reg_config_scheme \<Rightarrow> 'a reg_config_scheme" where
  "store_proposal p s =
     (if \<not> prop_executed p then add_active_proposal (prop_id p) (set_proposal p s)
      else set_proposal p s)"


section \<open>Operations\<close>

definition validate_change ::
    "env \<Rightarrow> multisig_config \<Rightarrow> parameter_change \<Rightarrow> (registry_error, unit) result" where
  "validate_change env config change =
     (case change of
        AddAdmin a \<Rightarrow>
          rbind (validate_address env a) (\<lambda>_.
          if a \<in> set (ms_admins config) then Err Unauthorized else Ok ())
      | RemoveAdmin a \<Rightarrow>
          (if a \<notin> set (ms_admins config) then Err Unauthorized
           else if length (ms_admins config) \<le> 1 then Err Unauthorized
           else Ok ())
      | SetThreshold threshold \<Rightarrow>
          (if threshold = 0 then Err InvalidThreshold
           else if threshold > length (ms_admins config) then Err InvalidThreshold
           else Ok ())
      | UpdatePlatformWallet a \<Rightarrow> validate_address env a
      | SetPlatformFee fee \<Rightarrow> (if fee > 10000 then Err InvalidFeePercent else Ok ())
      | SetMinStakeAmount amount \<Rightarrow> (if amount \<le> 0 then Err InvalidStakeAmount else Ok ()))"

definition propose_parameter_change ::
    "env \<Rightarrow> address \<Rightarrow> parameter_change \<Rightarrow> nat \<Rightarrow> 'a reg_config_scheme
     \<Rightarrow> (registry_error, 'a reg_config_scheme \<times> nat) result" where
  "propose_parameter_change env proposer change expiry_ledgers s =
     rbind (require_auth env proposer) (\<lambda>_.
     rbind (ok_or (rc_multisig s) NotInitialized) (\<lambda>config.
     if proposer \<notin> set (ms_admins config) then Err Unauthorized
     else
       rbind (validate_change env config change) (\<lambda>_.
       let proposal_id = rc_proposal_counter s in
       rbind (add_u 64 proposal_id 1) (\<lambda>counter.
       let expiry = (if expiry_ledgers = 0 then 100800 else expiry_ledgers) in
       rbind (add_u 64 (timestamp env) expiry) (\<lambda>expires_at.
       let proposal =
             \<lparr>prop_id = proposal_id, prop_proposer = proposer, prop_change = change,
               prop_approvals = [proposer], prop_executed = False, prop_cancelled = False,
               prop_created_at = timestamp env, prop_expires_at = expires_at\<rparr>
       in
       Ok (add_active_proposal proposal_id
             (set_proposal proposal (s\<lparr>rc_proposal_counter := counter\<rparr>)), proposal_id))))))"

definition propose_add_admin ::
    "env \<Rightarrow> address \<Rightarrow> address \<Rightarrow> nat \<Rightarrow> 'a reg_config_scheme
     \<Rightarrow> (registry_error, 'a reg_config_scheme \<times> nat) result" where
  "propose_add_admin env proposer new_admin expiry =
     propose_parameter_change env proposer (AddAdmin new_admin) expiry"

definition propose_remove_admin ::
    "env \<Rightarrow> address \<Rightarrow> address \<Rightarrow> nat \<Rightarrow> 'a reg_config_scheme
     \<Rightarrow> (registry_error, 'a reg_config_scheme \<times> nat) result" where
  "propose_remove_admin env proposer admin_to_remove expiry =
     propose_parameter_change env proposer (RemoveAdmin admin_to_remove) expiry"

definition propose_set_threshold ::
    "env \<Rightarrow> address \<Rightarrow> nat \<Rightarrow> nat \<Rightarrow> 'a reg_config_scheme
     \<Rightarrow> (registry_error, 'a reg_config_scheme \<times> nat) result" where
  "propose_set_threshold env proposer new_threshold expiry =
     propose_parameter_change env proposer (SetThreshold new_threshold) expiry"

definition propose_set_platform_wallet ::
    "env \<Rightarrow> address \<Rightarrow> address \<Rightarrow> nat \<Rightarrow> 'a reg_config_scheme
     \<Rightarrow> (registry_error, 'a reg_config_scheme \<times> nat) result" where
  "propose_set_platform_wallet env proposer new_wallet expiry =
     propose_parameter_change env proposer (UpdatePlatformWallet new_wallet) expiry"

definition propose_set_platform_fee ::
    "env \<Rightarrow> address \<Rightarrow> nat \<Rightarrow> nat \<Rightarrow> 'a reg_config_scheme
     \<Rightarrow> (registry_error, 'a reg_config_scheme \<times> nat) result" where
  "propose_set_platform_fee env proposer new_fee_percent expiry =
     propose_parameter_change env proposer (SetPlatformFee new_fee_percent) expiry"

definition approve_proposal ::
    "env \<Rightarrow> address \<Rightarrow> nat \<Rightarrow> 'a reg_config_scheme
     \<Rightarrow> (registry_error, 'a reg_config_scheme) result" where
  "approve_proposal env approver proposal_id s =
     rbind (require_auth env approver) (\<lambda>_.
     rbind (ok_or (rc_multisig s) NotInitialized) (\<lambda>config.
     if approver \<notin> set (ms_admins config) then Err Unauthorized
     else
       rbind (ok_or (rc_proposals s proposal_id) MultisigError) (\<lambda>proposal.
       if timestamp env > prop_expires_at proposal then Err ProposalExpired
       else if prop_executed proposal then Err PropAlreadyExecuted
       else if prop_cancelled proposal then Err PropAlreadyCanceled
       else if approver \<in> set (prop_approvals proposal) then Ok s
       else Ok (set_proposal
              (proposal\<lparr>prop_approvals := prop_approvals proposal @ [approver]\<rparr>) s))))"

definition apply_change ::
    "multisig_config \<Rightarrow> parameter_change \<Rightarrow> 'a reg_config_scheme \<Rightarrow> 'a reg_config_scheme" where
  "apply_change config change s =
     (case change of
        AddAdmin new_admin \<Rightarrow>
          s\<lparr>rc_multisig := Some (config\<lparr>ms_admins := ms_admins config @ [new_admin]\<rparr>),
            rc_admin := Some new_admin\<rparr>
      | RemoveAdmin admin_to_remove \<Rightarrow>
          (let new_admins = filter (\<lambda>a. a \<noteq> admin_to_remove) (ms_admins config) in
           s\<lparr>rc_multisig := Some (config\<lparr>ms_admins := new_admins,
               ms_threshold := (if ms_threshold config > length new_admins then length new_admins
                                else ms_threshold config)\<rparr>)\<rparr>)
      | SetThreshold new_threshold \<Rightarrow> s\<lparr>rc_multisig := Some (config\<lparr>ms_threshold := new_threshold\<rparr>)\<rparr>
      | UpdatePlatformWallet new_wallet \<Rightarrow> s\<lparr>rc_platform_wallet := Some new_wallet\<rparr>
      | SetPlatformFee fee \<Rightarrow> s\<lparr>rc_platform_fee := fee\<rparr>
      | SetMinStakeAmount new_amount \<Rightarrow> s\<lparr>rc_min_stake_amount := new_amount\<rparr>)"

definition execute_proposal ::
    "env \<Rightarrow> address \<Rightarrow> nat \<Rightarrow> 'a reg_config_scheme
     \<Rightarrow> (registry_error, 'a reg_config_scheme) result" where
  "execute_proposal env executor proposal_id s =
     rbind (require_auth env executor) (\<lambda>_.
     rbind (ok_or (rc_multisig s) NotInitialized) (\<lambda>config.
     if executor \<notin> set (ms_admins config) then Err Unauthorized
     else
       rbind (ok_or (rc_proposals s proposal_id) MultisigError) (\<lambda>proposal.
       if prop_executed proposal then Err PropAlreadyExecuted
       else if prop_cancelled proposal then Err PropAlreadyCanceled
       else if timestamp env > prop_expires_at proposal then Err ProposalExpired
       else if length (prop_approvals proposal) < ms_threshold config then Err MultisigError
       else Ok (remove_active_proposal proposal_id
              (set_proposal (proposal\<lparr>prop_executed := True\<rparr>)
                (apply_change config (prop_change proposal) s))))))"

definition cancel_proposal ::
    "env \<Rightarrow> address \<Rightarrow> nat \<Rightarrow> 'a reg_config_scheme
     \<Rightarrow> (registry_error, 'a reg_config_scheme) result" where
  "cancel_proposal env proposer proposal_id s =
     rbind (require_auth env proposer) (\<lambda>_.
     rbind (ok_or (rc_proposals s proposal_id) MultisigError) (\<lambda>proposal.
     if prop_proposer proposal \<noteq> proposer then Err Unauthorized
     else if prop_executed proposal then Err PropAlreadyExecuted
     else if prop_cancelled proposal then Err PropAlreadyCanceled
     else Ok (publish (ProposalCancelled_event proposal_id proposer (timestamp env))
            (remove_active_proposal proposal_id
              (set_proposal (proposal\<lparr>prop_cancelled := True\<rparr>) s)))))"

text \<open>The clean-up loop runs over the active list as it was when the call began.\<close>

fun cleanup_loop ::
    "nat \<Rightarrow> nat list \<Rightarrow> 'a reg_config_scheme \<Rightarrow> nat
     \<Rightarrow> (registry_error, 'a reg_config_scheme \<times> nat) result" where
  "cleanup_loop now [] s removed = Ok (s, removed)"
| "cleanup_loop now (i # is) s removed =
     (case rc_proposals s i of
        Some p \<Rightarrow>
          (if now > prop_expires_at p \<and> \<not> prop_executed p \<and> \<not> prop_cancelled p
           then rbind (add_u 32 removed 1) (cleanup_loop now is (remove_active_proposal i s))
           else cleanup_loop now is s removed)
      | None \<Rightarrow> cleanup_loop now is s removed)"

definition cleanup_expired_proposals ::
    "env \<Rightarrow> 'a reg_config_scheme \<Rightarrow> (registry_error, 'a reg_config_scheme \<times> nat) result" where
  "cleanup_expired_proposals env s =
     rbind (require_admin env s) (\<lambda>_.
     cleanup_loop (timestamp env) (rc_active_proposals s) s 0)"

text \<open>An active proposal that lets the administrator set the fee directly.\<close>

definition fee_proposal_approved ::
    "nat \<Rightarrow> nat \<Rightarrow> nat \<Rightarrow> 'a reg_config_scheme \<Rightarrow> nat \<Rightarrow> bool" where
  "fee_proposal_approved now threshold fee s i =
     (case rc_proposals s i of
        Some p \<Rightarrow>
          \<not> (prop_executed p \<or> prop_cancelled p \<or> now > prop_expires_at p)
          \<and> prop_change p = SetPlatformFee fee \<and> length (prop_approvals p) \<ge> threshold
      | None \<Rightarrow> False)"

definition set_platform_fee ::
    "env \<Rightarrow> nat \<Rightarrow> 'a reg_config_scheme \<Rightarrow> (registry_error, 'a reg_config_scheme) result" where
  "set_platform_fee env new_fee_percent s =
     rbind (require_admin env s) (\<lambda>_.
     if new_fee_percent > 10000 then Err InvalidFeePercent
     else
       rbind (ok_or (rc_multisig s) NotInitialized) (\<lambda>config.
       rbind
         (if ms_threshold config > 1
          then
            rbind (ok_or (find (fee_proposal_approved (timestamp env) (ms_threshold config)
                                  new_fee_percent s) (rc_active_proposals s)) MultisigError)
              (\<lambda>proposal_id.
            case rc_proposals s proposal_id of
              Some proposal \<Rightarrow>
                Ok (remove_active_proposal proposal_id
                     (set_proposal (proposal\<lparr>prop_executed := True\<rparr>) s))
            | None \<Rightarrow> Trap PanicTrap)
          else Ok s) (\<lambda>s1.
       Ok (publish (FeeUpdated_event new_fee_percent)
            (s1\<lparr>rc_platform_fee := new_fee_percent\<rparr>)))))"


section \<open>Invariant\<close>

definition proposal_wf :: "nat \<Rightarrow> nat \<Rightarrow> proposal \<Rightarrow> bool" where
  "proposal_wf counter i p \<longleftrightarrow>
     prop_id p = i \<and> i < counter \<and> distinct (prop_approvals p)
     \<and> prop_proposer p \<in> set (prop_approvals p) \<and> \<not> (prop_executed p \<and> prop_cancelled p)
     \<and> (\<forall>fee. prop_change p = SetPlatformFee fee \<longrightarrow> fee \<le> 10000)
     \<and> (\<forall>amount. prop_change p = SetMinStakeAmount amount \<longrightarrow> 0 < amount)"

definition proposals_inv :: "'a reg_config_scheme \<Rightarrow> bool" where
  "proposals_inv s \<longleftrightarrow>
     (\<forall>i p. rc_proposals s i = Some p \<longrightarrow> proposal_wf (rc_proposal_counter s) i p)
     \<and> distinct (rc_active_proposals s)
     \<and> (\<forall>i\<in>set (rc_active_proposals s).
          \<exists>p. rc_proposals s i = Some p \<and> \<not> prop_executed p \<and> \<not> prop_cancelled p)"

definition config_inv :: "'a reg_config_scheme \<Rightarrow> bool" where
  "config_inv s \<longleftrightarrow>
     rc_platform_fee s \<le> 10000 \<and> rc_promo_bps s \<le> 10000 \<and> 0 \<le> rc_min_stake_amount s
     \<and> (rc_initialized s \<longleftrightarrow> rc_admin s \<noteq> None)
     \<and> (rc_initialized s \<longleftrightarrow> rc_multisig s \<noteq> None)
     \<and> (rc_initialized s \<longrightarrow> rc_platform_wallet s \<noteq> None)"

definition gov_inv :: "'a reg_config_scheme \<Rightarrow> bool" where
  "gov_inv s \<longleftrightarrow> proposals_inv s \<and> config_inv s"

lemmas gov_inv_defs = gov_inv_def proposals_inv_def proposal_wf_def config_inv_def

text \<open>The life of a proposal: it keeps its identity, gains approvals at the end, and once executed or
  cancelled stays so.\<close>

definition proposal_le :: "proposal \<Rightarrow> proposal \<Rightarrow> bool" where
  "proposal_le p p' \<longleftrightarrow>
     prop_id p' = prop_id p \<and> prop_proposer p' = prop_proposer p \<and> prop_change p' = prop_change p
     \<and> prop_created_at p' = prop_created_at p \<and> prop_expires_at p' = prop_expires_at p
     \<and> (\<exists>more. prop_approvals p' = prop_approvals p @ more)
     \<and> (prop_executed p \<longrightarrow> p' = p) \<and> (prop_cancelled p \<longrightarrow> p' = p)"

definition proposals_le :: "'a reg_config_scheme \<Rightarrow> 'a reg_config_scheme \<Rightarrow> bool" where
  "proposals_le s s' \<longleftrightarrow>
     (\<forall>i p. rc_proposals s i = Some p \<longrightarrow> (\<exists>p'. rc_proposals s' i = Some p' \<and> proposal_le p p'))"

lemma proposal_le_refl [simp]: "proposal_le p p"
  by (simp add: proposal_le_def)

lemma proposal_le_trans: "proposal_le p q \<Longrightarrow> proposal_le q r \<Longrightarrow> proposal_le p r"
  by (auto simp: proposal_le_def)

lemma proposals_le_same: "rc_proposals s' = rc_proposals s \<Longrightarrow> proposals_le s s'"
  by (simp add: proposals_le_def)

lemma proposals_le_trans: "proposals_le s t \<Longrightarrow> proposals_le t u \<Longrightarrow> proposals_le s u"
  unfolding proposals_le_def by (meson proposal_le_trans)

text \<open>What each operation does when it succeeds.\<close>

lemma execute_proposal_eq_Ok:
  "execute_proposal env executor i s = Ok s' \<longleftrightarrow>
     (\<exists>config p. authorised env executor \<and> rc_multisig s = Some config
        \<and> executor \<in> set (ms_admins config) \<and> rc_proposals s i = Some p
        \<and> \<not> prop_executed p \<and> \<not> prop_cancelled p \<and> timestamp env \<le> prop_expires_at p
        \<and> ms_threshold config \<le> length (prop_approvals p)
        \<and> s' = remove_active_proposal i (set_proposal (p\<lparr>prop_executed := True\<rparr>)
                 (apply_change config (prop_change p) s)))"
  by (cases "rc_multisig s"; cases "rc_proposals s i")
    (auto simp: execute_proposal_def require_auth_def not_less not_le)

lemma approve_proposal_eq_Ok:
  "approve_proposal env approver i s = Ok s' \<longleftrightarrow>
     (\<exists>config p. authorised env approver \<and> rc_multisig s = Some config
        \<and> approver \<in> set (ms_admins config) \<and> rc_proposals s i = Some p
        \<and> \<not> prop_executed p \<and> \<not> prop_cancelled p \<and> timestamp env \<le> prop_expires_at p
        \<and> s' = (if approver \<in> set (prop_approvals p) then s
                else set_proposal (p\<lparr>prop_approvals := prop_approvals p @ [approver]\<rparr>) s))"
  by (cases "rc_multisig s"; cases "rc_proposals s i")
    (auto simp: approve_proposal_def require_auth_def not_less not_le)

lemma find_SomeD: "find P xs = Some x \<Longrightarrow> x \<in> set xs \<and> P x"
  by (induction xs) (auto split: if_splits)

lemma cleanup_loop_frame:
  "cleanup_loop now is s n = Ok (s', m) \<Longrightarrow>
     \<exists>act. s' = s\<lparr>rc_active_proposals := filter (\<lambda>i. i \<notin> act) (rc_active_proposals s)\<rparr>"
proof (induction "now" "is" s n rule: cleanup_loop.induct)
  case (1 "now" s n)
  then have "s' = s\<lparr>rc_active_proposals := filter (\<lambda>i. i \<notin> {}) (rc_active_proposals s)\<rparr>"
    by simp
  then show ?case by (rule exI)
next
  case (2 "now" i "is" s n)
  show ?case
  proof (cases "\<exists>p. rc_proposals s i = Some p \<and> now > prop_expires_at p
      \<and> \<not> prop_executed p \<and> \<not> prop_cancelled p")
    case True
    then obtain act where "s' = (remove_active_proposal i s)\<lparr>rc_active_proposals :=
        filter (\<lambda>j. j \<notin> act) (rc_active_proposals (remove_active_proposal i s))\<rparr>"
      using 2 by fastforce
    then have "s' = s\<lparr>rc_active_proposals :=
        filter (\<lambda>j. j \<notin> insert i act) (rc_active_proposals s)\<rparr>"
      by (auto simp: contract_defs conj_commute cong: conj_cong)
    then show ?thesis by (rule exI)
  next
    case False
    then show ?thesis
      using 2 by (fastforce split: option.splits if_splits)
  qed
qed

text \<open>Building blocks: closing a proposal and taking it off the active list, and appending one.\<close>

lemma proposals_inv_close:
  assumes "proposals_inv s" "rc_proposals s i = Some p" "proposal_wf (rc_proposal_counter s) i p'"
  shows "proposals_inv (remove_active_proposal i (set_proposal p' s))"
  using assms by (auto simp: proposals_inv_def contract_defs proposal_wf_def)

lemma proposals_inv_approve:
  assumes "proposals_inv s" "rc_proposals s i = Some p" "proposal_wf (rc_proposal_counter s) i p'"
    "prop_executed p' = prop_executed p" "prop_cancelled p' = prop_cancelled p"
  shows "proposals_inv (set_proposal p' s)"
  using assms by (auto simp: proposals_inv_def contract_defs proposal_wf_def)

lemma proposals_inv_open:
  assumes "proposals_inv s" "prop_id p = rc_proposal_counter s" "\<not> prop_executed p"
    "\<not> prop_cancelled p" "proposal_wf (rc_proposal_counter s + 1) (rc_proposal_counter s) p"
  shows "proposals_inv (add_active_proposal (rc_proposal_counter s)
           (set_proposal p (s\<lparr>rc_proposal_counter := rc_proposal_counter s + 1\<rparr>)))"
  using assms
  by (auto simp: proposals_inv_def contract_defs proposal_wf_def less_Suc_eq)

lemma proposal_wf_lookup:
  "proposals_inv s \<Longrightarrow> rc_proposals s i = Some p \<Longrightarrow> proposal_wf (rc_proposal_counter s) i p"
  by (simp add: proposals_inv_def)

lemma proposals_inv_same:
  "rc_proposals s' = rc_proposals s \<Longrightarrow> rc_proposal_counter s' = rc_proposal_counter s
   \<Longrightarrow> rc_active_proposals s' = rc_active_proposals s \<Longrightarrow> proposals_inv s' = proposals_inv s"
  by (simp add: proposals_inv_def)

lemma config_inv_same:
  "rc_platform_fee s' = rc_platform_fee s \<Longrightarrow> rc_promo_bps s' = rc_promo_bps s
   \<Longrightarrow> rc_min_stake_amount s' = rc_min_stake_amount s \<Longrightarrow> rc_initialized s' = rc_initialized s
   \<Longrightarrow> rc_admin s' = rc_admin s \<Longrightarrow> rc_multisig s' = rc_multisig s
   \<Longrightarrow> rc_platform_wallet s' = rc_platform_wallet s \<Longrightarrow> config_inv s' = config_inv s"
  by (simp add: config_inv_def)

lemma apply_change_proposals [simp]:
  "rc_proposals (apply_change c ch s) = rc_proposals s"
  "rc_proposal_counter (apply_change c ch s) = rc_proposal_counter s"
  "rc_active_proposals (apply_change c ch s) = rc_active_proposals s"
  by (simp_all add: apply_change_def Let_def split: parameter_change.splits)

lemma apply_change_config_inv:
  assumes "config_inv s" "rc_multisig s = Some c" "proposal_wf n i p" "prop_change p = ch"
  shows "config_inv (apply_change c ch s)"
  using assms
  by (auto simp: apply_change_def config_inv_def proposal_wf_def Let_def split: parameter_change.splits)

lemma config_inv_storage [simp]:
  "config_inv (set_proposal p s) = config_inv s"
  "config_inv (remove_active_proposal i s) = config_inv s"
  "config_inv (add_active_proposal i s) = config_inv s"
  "config_inv (publish e s) = config_inv s"
  "config_inv (s\<lparr>rc_proposal_counter := n\<rparr>) = config_inv s"
  "config_inv (s\<lparr>rc_active_proposals := is\<rparr>) = config_inv s"
  by (simp_all add: contract_defs config_inv_def)

lemma proposals_inv_publish [simp]:
  "proposals_inv (publish e s) = proposals_inv s"
  "proposals_inv (s\<lparr>rc_platform_fee := fee\<rparr>) = proposals_inv s"
  by (simp_all add: contract_defs proposals_inv_def)

lemma proposals_inv_update [simp]:
  "proposals_inv (s\<lparr>rc_admin := a\<rparr>) = proposals_inv s"
  "proposals_inv (s\<lparr>rc_pending_admin := a\<rparr>) = proposals_inv s"
  "proposals_inv (s\<lparr>rc_multisig := m\<rparr>) = proposals_inv s"
  "proposals_inv (s\<lparr>rc_platform_wallet := a\<rparr>) = proposals_inv s"
  "proposals_inv (s\<lparr>rc_initialized := b\<rparr>) = proposals_inv s"
  "proposals_inv (s\<lparr>rc_token_whitelist := t\<rparr>) = proposals_inv s"
  "proposals_inv (s\<lparr>rc_ticket_payment := a\<rparr>) = proposals_inv s"
  "proposals_inv (s\<lparr>rc_promo_bps := n\<rparr>) = proposals_inv s"
  "proposals_inv (s\<lparr>rc_promo_expiry := n\<rparr>) = proposals_inv s"
  "proposals_inv (s\<lparr>rc_published := l\<rparr>) = proposals_inv s"
  by (simp_all add: proposals_inv_def)

lemma config_inv_update [simp]:
  "config_inv (s\<lparr>rc_pending_admin := a\<rparr>) = config_inv s"
  "config_inv (s\<lparr>rc_token_whitelist := t\<rparr>) = config_inv s"
  "config_inv (s\<lparr>rc_ticket_payment := a\<rparr>) = config_inv s"
  by (simp_all add: config_inv_def)

lemma gov_inv_config_ops:
  assumes "gov_inv s"
  shows "initialize env a w f t s = Ok s' \<Longrightarrow> gov_inv s'"
    and "add_to_token_whitelist env t s = Ok s' \<Longrightarrow> gov_inv s'"
    and "remove_from_token_whitelist env t s = Ok s' \<Longrightarrow> gov_inv s'"
    and "propose_admin env a s = Ok s' \<Longrightarrow> gov_inv s'"
    and "accept_admin env s = Ok s' \<Longrightarrow> gov_inv s'"
    and "cancel_admin_proposal env s = Ok s' \<Longrightarrow> gov_inv s'"
    and "set_ticket_payment_contract env a s = Ok s' \<Longrightarrow> gov_inv s'"
    and "upgrade env s = Ok s' \<Longrightarrow> gov_inv s'"
    and "set_global_promo env b e s = Ok s' \<Longrightarrow> gov_inv s'"
proof -
  have inv: "proposals_inv s" "config_inv s"
    using assms by (simp_all add: gov_inv_def)
  show "initialize env a w f t s = Ok s' \<Longrightarrow> gov_inv s'"
    using inv by (auto simp: initialize_def gov_inv_def config_inv_def publish_def split: if_splits)
  show "accept_admin env s = Ok s' \<Longrightarrow> gov_inv s'"
    using inv by (auto simp: accept_admin_def gov_inv_def config_inv_def publish_def)
  show "set_global_promo env b e s = Ok s' \<Longrightarrow> gov_inv s'"
    using inv by (auto simp: set_global_promo_def gov_inv_def config_inv_def publish_def split: if_splits)
qed (use assms in \<open>auto simp: config_op_defs gov_inv_def\<close>)

lemma gov_inv_propose:
  assumes "gov_inv s" "propose_parameter_change env proposer change expiry s = Ok (s', i)"
  shows "gov_inv s' \<and> i = rc_proposal_counter s"
proof -
  let ?p = "\<lparr>prop_id = rc_proposal_counter s, prop_proposer = proposer, prop_change = change,
    prop_approvals = [proposer], prop_executed = False, prop_cancelled = False,
    prop_created_at = timestamp env,
    prop_expires_at = timestamp env + (if expiry = 0 then 100800 else expiry)\<rparr>"
  have s': "s' = add_active_proposal (rc_proposal_counter s)
      (set_proposal ?p (s\<lparr>rc_proposal_counter := rc_proposal_counter s + 1\<rparr>))"
    and i: "i = rc_proposal_counter s"
    using assms(2) by (auto simp: propose_parameter_change_def Let_def split: if_splits)
  have "proposal_wf (rc_proposal_counter s + 1) (rc_proposal_counter s) ?p"
    using assms(2)
    by (auto simp: propose_parameter_change_def validate_change_def proposal_wf_def not_less
        split: if_splits)
  then have "proposals_inv s'"
    unfolding s' using assms(1) by (intro proposals_inv_open) (auto simp: gov_inv_def)
  then show ?thesis
    using assms(1) s' i by (simp add: gov_inv_def)
qed

lemma gov_inv_approve:
  assumes "gov_inv s" "approve_proposal env approver i s = Ok s'"
  shows "gov_inv s'"
proof -
  obtain p where p: "rc_proposals s i = Some p"
    and s': "s' = (if approver \<in> set (prop_approvals p) then s
      else set_proposal (p\<lparr>prop_approvals := prop_approvals p @ [approver]\<rparr>) s)"
    using assms(2) unfolding approve_proposal_eq_Ok by blast
  have "proposal_wf (rc_proposal_counter s) i p"
    using assms(1) p by (simp add: gov_inv_def proposal_wf_lookup)
  then have "approver \<notin> set (prop_approvals p) \<Longrightarrow>
      proposals_inv (set_proposal (p\<lparr>prop_approvals := prop_approvals p @ [approver]\<rparr>) s)"
    using assms(1) p
    by (intro proposals_inv_approve) (auto simp: gov_inv_def proposal_wf_def)
  then show ?thesis
    using assms(1) s' by (simp add: gov_inv_def)
qed

lemma gov_inv_execute:
  assumes "gov_inv s" "execute_proposal env executor i s = Ok s'"
  shows "gov_inv s'"
proof -
  obtain config p where config: "rc_multisig s = Some config" and p: "rc_proposals s i = Some p"
    and "\<not> prop_cancelled p"
    and s': "s' = remove_active_proposal i (set_proposal (p\<lparr>prop_executed := True\<rparr>)
      (apply_change config (prop_change p) s))"
    using assms(2) unfolding execute_proposal_eq_Ok by blast
  have wf: "proposal_wf (rc_proposal_counter s) i p"
    using assms(1) p by (simp add: gov_inv_def proposal_wf_lookup)
  then have "proposals_inv s'"
    unfolding s' using assms(1) p \<open>\<not> prop_cancelled p\<close>
    by (intro proposals_inv_close [where p = p])
      (auto simp: gov_inv_def proposal_wf_def proposals_inv_same [of "apply_change _ _ s" s])
  moreover have "config_inv s'"
    using assms(1) apply_change_config_inv [OF _ config wf refl] s' by (simp add: gov_inv_def)
  ultimately show ?thesis by (simp add: gov_inv_def)
qed

lemma gov_inv_cancel:
  assumes "gov_inv s" "cancel_proposal env proposer i s = Ok s'"
  shows "gov_inv s'"
proof -
  obtain p e where p: "rc_proposals s i = Some p" and "\<not> prop_executed p"
    and s': "s' = publish e (remove_active_proposal i (set_proposal (p\<lparr>prop_cancelled := True\<rparr>) s))"
    using assms(2) by (auto simp: cancel_proposal_def split: if_splits)
  then have "proposals_inv s'"
    unfolding s' using assms(1) p proposal_wf_lookup [of s i p]
    by (auto simp: gov_inv_def proposal_wf_def intro!: proposals_inv_close [where p = p])
  then show ?thesis
    using assms(1) s' by (simp add: gov_inv_def)
qed

lemma gov_inv_cleanup:
  assumes "gov_inv s" "cleanup_expired_proposals env s = Ok (s', n)"
  shows "gov_inv s'"
  using assms cleanup_loop_frame [of "timestamp env" "rc_active_proposals s" s 0 s' n]
  by (auto simp: cleanup_expired_proposals_def gov_inv_def proposals_inv_def)

lemma set_platform_fee_OkE:
  assumes "set_platform_fee env fee s = Ok s'"
  obtains (direct) admin config where "rc_admin s = Some admin" "authorised env admin" "fee \<le> 10000"
      "rc_multisig s = Some config" "ms_threshold config \<le> 1"
      "s' = publish (FeeUpdated_event fee) (s\<lparr>rc_platform_fee := fee\<rparr>)"
  | (proposal) admin config i p where "rc_admin s = Some admin" "authorised env admin" "fee \<le> 10000"
      "rc_multisig s = Some config" "1 < ms_threshold config"
      "i \<in> set (rc_active_proposals s)" "rc_proposals s i = Some p"
      "\<not> prop_executed p" "\<not> prop_cancelled p" "timestamp env \<le> prop_expires_at p"
      "prop_change p = SetPlatformFee fee" "ms_threshold config \<le> length (prop_approvals p)"
      "s' = publish (FeeUpdated_event fee) ((remove_active_proposal i
         (set_proposal (p\<lparr>prop_executed := True\<rparr>) s))\<lparr>rc_platform_fee := fee\<rparr>)"
proof -
  obtain admin config where *: "rc_admin s = Some admin" "authorised env admin" "fee \<le> 10000"
    "rc_multisig s = Some config"
    using assms by (auto simp: set_platform_fee_def not_less split: if_splits)
  let ?find = "find (fee_proposal_approved (timestamp env) (ms_threshold config) fee s)
    (rc_active_proposals s)"
  show thesis
  proof (cases "ms_threshold config > 1")
    case True
    then obtain i p where i: "?find = Some i" and p: "rc_proposals s i = Some p"
      and s': "s' = publish (FeeUpdated_event fee) ((remove_active_proposal i
        (set_proposal (p\<lparr>prop_executed := True\<rparr>) s))\<lparr>rc_platform_fee := fee\<rparr>)"
      using assms * by (cases ?find) (auto simp: set_platform_fee_def split: option.splits)
    show thesis
      using find_SomeD [OF i] p
      by (intro proposal [OF * True _ p _ _ _ _ _ s']) (auto simp: fee_proposal_approved_def)
  next
    case False
    then show thesis
      using direct [OF *] assms * by (auto simp: set_platform_fee_def)
  qed
qed

lemma gov_inv_set_platform_fee:
  assumes "gov_inv s" "set_platform_fee env fee s = Ok s'"
  shows "gov_inv s'"
proof -
  have cfg: "config_inv s" and inv: "proposals_inv s"
    using assms(1) by (simp_all add: gov_inv_def)
  have *: "config_inv (t\<lparr>rc_platform_fee := fee\<rparr>)" if "config_inv t" "fee \<le> 10000"
    for t :: "'a reg_config_scheme"
    using that by (auto simp: config_inv_def)
  show ?thesis
    using assms(2)
  proof (cases rule: set_platform_fee_OkE)
    case direct
    then show ?thesis using inv cfg * by (simp add: gov_inv_def)
  next
    case (proposal admin config i p)
    have "proposals_inv (remove_active_proposal i (set_proposal (p\<lparr>prop_executed := True\<rparr>) s))"
      using inv proposal proposal_wf_lookup [OF inv proposal(7)]
      by (intro proposals_inv_close) (auto simp: proposal_wf_def)
    then show ?thesis using proposal(3,13) cfg * by (simp add: gov_inv_def)
  qed
qed

text \<open>Every governance operation moves proposals forward in their life only.\<close>

lemma proposals_le_config_ops:
  shows "initialize env a w f t s = Ok s' \<Longrightarrow> proposals_le s s'"
    and "add_to_token_whitelist env t s = Ok s' \<Longrightarrow> proposals_le s s'"
    and "remove_from_token_whitelist env t s = Ok s' \<Longrightarrow> proposals_le s s'"
    and "propose_admin env a s = Ok s' \<Longrightarrow> proposals_le s s'"
    and "accept_admin env s = Ok s' \<Longrightarrow> proposals_le s s'"
    and "cancel_admin_proposal env s = Ok s' \<Longrightarrow> proposals_le s s'"
    and "set_ticket_payment_contract env a s = Ok s' \<Longrightarrow> proposals_le s s'"
    and "upgrade env s = Ok s' \<Longrightarrow> proposals_le s s'"
    and "set_global_promo env b e s = Ok s' \<Longrightarrow> proposals_le s s'"
  by (auto simp: config_op_defs publish_def intro!: proposals_le_same split: if_splits)

lemma proposals_le_gov_ops:
  assumes "gov_inv s"
  shows "propose_parameter_change env a ch e s = Ok (s', n) \<Longrightarrow> proposals_le s s'"
    and "approve_proposal env a i s = Ok s' \<Longrightarrow> proposals_le s s'"
    and "execute_proposal env a i s = Ok s' \<Longrightarrow> proposals_le s s'"
    and "cancel_proposal env a i s = Ok s' \<Longrightarrow> proposals_le s s'"
    and "cleanup_expired_proposals env s = Ok (s', n) \<Longrightarrow> proposals_le s s'"
    and "set_platform_fee env fee s = Ok s' \<Longrightarrow> proposals_le s s'"
proof -
  have wf: "prop_id p = j \<and> j < rc_proposal_counter s" if "rc_proposals s j = Some p" for j p
    using assms that by (simp add: gov_inv_def proposals_inv_def proposal_wf_def)
  show "propose_parameter_change env a ch e s = Ok (s', n) \<Longrightarrow> proposals_le s s'"
    using wf
    by (fastforce simp: propose_parameter_change_def contract_defs proposals_le_def Let_def
        split: if_splits)
  show "approve_proposal env a i s = Ok s' \<Longrightarrow> proposals_le s s'"
    using wf by (fastforce simp: approve_proposal_eq_Ok proposals_le_def contract_defs proposal_le_def)
  show "execute_proposal env a i s = Ok s' \<Longrightarrow> proposals_le s s'"
    using wf by (fastforce simp: execute_proposal_eq_Ok proposals_le_def contract_defs proposal_le_def)
  show "cancel_proposal env a i s = Ok s' \<Longrightarrow> proposals_le s s'"
    using wf by (auto simp: cancel_proposal_def proposal_le_def proposals_le_def contract_defs
        split: if_splits)
  show "cleanup_expired_proposals env s = Ok (s', n) \<Longrightarrow> proposals_le s s'"
    using cleanup_loop_frame [of "timestamp env" "rc_active_proposals s" s 0 s' n]
    by (auto simp: cleanup_expired_proposals_def intro!: proposals_le_same)
  show "set_platform_fee env fee s = Ok s' \<Longrightarrow> proposals_le s s'"
    by (erule set_platform_fee_OkE) (auto simp: proposal_le_def proposals_le_def contract_defs wf)
qed


section \<open>Frames\<close>

text \<open>The configuration as one value, without the two append-only logs: an operation that leaves it
  alone keeps the governance invariant.\<close>

definition config_part ::
    "'a reg_config_scheme \<Rightarrow>
     (address option \<times> address option \<times> multisig_config option \<times> address option \<times> nat
        \<times> bool \<times> address set \<times> address option \<times> nat)
     \<times> (nat \<times> nat \<times> (nat \<rightharpoonup> proposal) \<times> nat list \<times> int \<times> address option \<times> address set)" where
  "config_part s =
     ((rc_admin s, rc_pending_admin s, rc_multisig s, rc_platform_wallet s, rc_platform_fee s,
       rc_initialized s, rc_token_whitelist s, rc_ticket_payment s, rc_promo_bps s),
      (rc_promo_expiry s, rc_proposal_counter s, rc_proposals s, rc_active_proposals s,
       rc_min_stake_amount s, rc_contract_admin s, rc_approved_organizers s))"

lemma config_part_logs [simp]:
  "config_part (publish e s) = config_part s"
  "config_part (s\<lparr>rc_published := l\<rparr>) = config_part s"
  "config_part (s\<lparr>rc_transfers := ts\<rparr>) = config_part s"
  by (simp_all add: config_part_def publish_def)

lemma gov_inv_config_part: "config_part s' = config_part s \<Longrightarrow> gov_inv s' = gov_inv s"
  by (simp add: config_part_def gov_inv_def config_inv_def proposals_inv_def)

lemma proposals_le_config_part: "config_part s' = config_part s \<Longrightarrow> proposals_le s s'"
  by (simp add: config_part_def proposals_le_def)

text \<open>Governance and configuration leave the token transfers and all later parts of the state alone.\<close>

definition gov_frame :: "'a reg_config_scheme \<Rightarrow> 'a reg_config_scheme \<Rightarrow> bool" where
  "gov_frame s s' \<longleftrightarrow> rc_transfers s' = rc_transfers s \<and> reg_config.more s' = reg_config.more s"

lemma gov_frame_config_ops:
  shows "initialize env a w f t s = Ok s' \<Longrightarrow> gov_frame s s'"
    and "add_to_token_whitelist env t s = Ok s' \<Longrightarrow> gov_frame s s'"
    and "remove_from_token_whitelist env t s = Ok s' \<Longrightarrow> gov_frame s s'"
    and "propose_admin env a s = Ok s' \<Longrightarrow> gov_frame s s'"
    and "accept_admin env s = Ok s' \<Longrightarrow> gov_frame s s'"
    and "cancel_admin_proposal env s = Ok s' \<Longrightarrow> gov_frame s s'"
    and "set_ticket_payment_contract env a s = Ok s' \<Longrightarrow> gov_frame s s'"
    and "upgrade env s = Ok s' \<Longrightarrow> gov_frame s s'"
    and "set_global_promo env b e s = Ok s' \<Longrightarrow> gov_frame s s'"
  by (auto simp: config_op_defs publish_def gov_frame_def split: if_splits)

lemma gov_frame_apply_change: "gov_frame s (apply_change c ch s)"
  by (simp add: gov_frame_def apply_change_def Let_def split: parameter_change.splits)

lemma gov_frame_gov_ops:
  shows "propose_parameter_change env a ch e s = Ok (s', n) \<Longrightarrow> gov_frame s s'"
    and "approve_proposal env a i s = Ok s' \<Longrightarrow> gov_frame s s'"
    and "execute_proposal env a i s = Ok s' \<Longrightarrow> gov_frame s s'"
    and "cancel_proposal env a i s = Ok s' \<Longrightarrow> gov_frame s s'"
    and "cleanup_expired_proposals env s = Ok (s', n) \<Longrightarrow> gov_frame s s'"
    and "set_platform_fee env fee s = Ok s' \<Longrightarrow> gov_frame s s'"
proof -
  show "propose_parameter_change env a ch e s = Ok (s', n) \<Longrightarrow> gov_frame s s'"
    by (auto simp: propose_parameter_change_def contract_defs gov_frame_def Let_def split: if_splits)
  show "approve_proposal env a i s = Ok s' \<Longrightarrow> gov_frame s s'"
    by (auto simp: approve_proposal_eq_Ok contract_defs gov_frame_def)
  show "execute_proposal env a i s = Ok s' \<Longrightarrow> gov_frame s s'"
    by (auto simp: execute_proposal_eq_Ok contract_defs gov_frame_def
        gov_frame_apply_change [unfolded gov_frame_def])
  show "cancel_proposal env a i s = Ok s' \<Longrightarrow> gov_frame s s'"
    by (auto simp: cancel_proposal_def contract_defs gov_frame_def split: if_splits)
  show "cleanup_expired_proposals env s = Ok (s', n) \<Longrightarrow> gov_frame s s'"
    using cleanup_loop_frame [of "timestamp env" "rc_active_proposals s" s 0 s' n]
    by (auto simp: cleanup_expired_proposals_def gov_frame_def)
  show "set_platform_fee env fee s = Ok s' \<Longrightarrow> gov_frame s s'"
    by (erule set_platform_fee_OkE) (auto simp: contract_defs gov_frame_def)
qed

end
