(* ===== verification/Registry_Events.thy ===== *)
theory Registry_Events
  imports Registry_Governance Sharded_Index
begin

text \<open>
  The events of the registry: registration, status, cancellation, metadata, archival, and the
  indexes the storage keeps beside them, namely the organizer's bucketed event list, the archived
  receipts and the global counters (\<open>event_registry/src/lib.rs\<close> lines 242 to 669, 1324 to 1364 and the
  event part of \<open>storage.rs\<close>).
\<close>

section \<open>State\<close>

definition SHARD_SIZE :: nat where
  "SHARD_SIZE = 50"

definition MAX_TIERS_PER_EVENT :: nat where
  "MAX_TIERS_PER_EVENT = 20"

record reg_events = reg_config +
  re_events :: "string \<rightharpoonup> event_info"
  re_organizer_event :: "(address \<times> string) set"
  re_organizer_shard :: "address \<Rightarrow> nat \<Rightarrow> string list"
  re_organizer_count :: "address \<Rightarrow> nat"
  re_receipts :: "string \<rightharpoonup> event_receipt"
  re_organizer_receipt :: "(address \<times> string) set"
  re_receipt_shard :: "address \<Rightarrow> nat \<Rightarrow> string list"
  re_receipt_count :: "address \<Rightarrow> nat"
  re_event_count :: nat
  re_active_count :: nat
  re_blacklisted :: "address set"
  re_blacklist_log :: "blacklist_audit_entry list"


section \<open>Storage\<close>

definition increment_active_count ::
    "'a reg_events_scheme \<Rightarrow> (registry_error, 'a reg_events_scheme) result" where
  "increment_active_count s =
     rbind (add_u 32 (re_active_count s) 1) (\<lambda>n. Ok (s\<lparr>re_active_count := n\<rparr>))"

definition decrement_active_count :: "'a reg_events_scheme \<Rightarrow> 'a reg_events_scheme" where
  [contract_defs]: "decrement_active_count s = s\<lparr>re_active_count := re_active_count s - 1\<rparr>"

definition increment_event_count ::
    "'a reg_events_scheme \<Rightarrow> (registry_error, 'a reg_events_scheme) result" where
  "increment_event_count s =
     rbind (add_u 32 (re_event_count s) 1) (\<lambda>n. Ok (s\<lparr>re_event_count := n\<rparr>))"

definition sync_active_event_count ::
    "event_info option \<Rightarrow> event_info \<Rightarrow> 'a reg_events_scheme
     \<Rightarrow> (registry_error, 'a reg_events_scheme) result" where
  "sync_active_event_count existing updated s =
     (if ev_is_private updated
      then
        (case existing of
           Some prev \<Rightarrow>
             (if \<not> ev_is_private prev \<and> ev_is_active prev then Ok (decrement_active_count s) else Ok s)
         | None \<Rightarrow> Ok s)
      else
        (case existing of
           Some previous \<Rightarrow>
             (if ev_is_active previous \<and> \<not> ev_is_active updated then Ok (decrement_active_count s)
              else if \<not> ev_is_active previous \<and> ev_is_active updated then increment_active_count s
              else if ev_is_private previous \<and> ev_is_active updated then increment_active_count s
              else Ok s)
         | None \<Rightarrow> (if ev_is_active updated then increment_active_count s else Ok s)))"

text \<open>The organizer's bucketed event list.\<close>

definition append_organizer_event ::
    "address \<Rightarrow> string \<Rightarrow> 'a reg_events_scheme \<Rightarrow> (registry_error, 'a reg_events_scheme) result" where
  "append_organizer_event organizer event_id s =
     (let count = re_organizer_count s organizer;
          shard_id = count div SHARD_SIZE;
          shard = re_organizer_shard s organizer shard_id @ [event_id]
      in
      rbind (add_u 32 count 1) (\<lambda>count'.
      Ok (s\<lparr>re_organizer_shard := (re_organizer_shard s)(organizer :=
                (re_organizer_shard s organizer)(shard_id := shard)),
             re_organizer_count := (re_organizer_count s)(organizer := count')\<rparr>)))"

definition storage_store_event ::
    "event_info \<Rightarrow> 'a reg_events_scheme \<Rightarrow> (registry_error, 'a reg_events_scheme) result" where
  "storage_store_event event_info s =
     (let event_id = ev_event_id event_info; organizer = ev_organizer event_info in
      rbind (sync_active_event_count (re_events s event_id) event_info s) (\<lambda>s1.
      let s2 = s1\<lparr>re_events := (re_events s1)(event_id \<mapsto> event_info)\<rparr> in
      if (organizer, event_id) \<in> re_organizer_event s2 then Ok s2
      else
        rbind (append_organizer_event organizer event_id s2) (\<lambda>s3.
        let s4 = s3\<lparr>re_organizer_event := insert (organizer, event_id) (re_organizer_event s3)\<rparr> in
        if \<not> ev_is_private event_info then increment_event_count s4 else Ok s4)))"

definition update_event ::
    "event_info \<Rightarrow> 'a reg_events_scheme \<Rightarrow> (registry_error, 'a reg_events_scheme) result" where
  "update_event event_info s =
     rbind (sync_active_event_count (re_events s (ev_event_id event_info)) event_info s) (\<lambda>s1.
     Ok (s1\<lparr>re_events := (re_events s1)(ev_event_id event_info \<mapsto> event_info)\<rparr>))"

text \<open>The loop over the shards that hold \<open>count\<close> elements; it stops at the first shard with the id.\<close>

fun remove_id_loop ::
    "address \<Rightarrow> string \<Rightarrow> nat list \<Rightarrow> 'a reg_events_scheme \<Rightarrow> 'a reg_events_scheme \<times> bool" where
  "remove_id_loop organizer event_id [] s = (s, False)"
| "remove_id_loop organizer event_id (i # is) s =
     (let shard = re_organizer_shard s organizer i in
      if event_id \<in> set shard
      then (s\<lparr>re_organizer_shard := (re_organizer_shard s)(organizer :=
              (re_organizer_shard s organizer)(i := filter (\<lambda>j. j \<noteq> event_id) shard))\<rparr>, True)
      else remove_id_loop organizer event_id is s)"

definition remove_from_organizer_index ::
    "address \<Rightarrow> string \<Rightarrow> 'a reg_events_scheme \<Rightarrow> 'a reg_events_scheme" where
  "remove_from_organizer_index organizer event_id s =
     (let count = re_organizer_count s organizer in
      if count = 0 then s
      else
        (let num_shards = div_ceil count SHARD_SIZE;
             (s1, found) = remove_id_loop organizer event_id [0..<num_shards] s
         in
         if found then s1\<lparr>re_organizer_count := (re_organizer_count s1)(organizer := count - 1)\<rparr>
         else s1))"

definition remove_event :: "string \<Rightarrow> 'a reg_events_scheme \<Rightarrow> 'a reg_events_scheme" where
  "remove_event event_id s =
     (case re_events s event_id of
        Some event_info \<Rightarrow>
          (let organizer = ev_organizer event_info;
               s1 = (if ev_is_active event_info \<and> \<not> ev_is_private event_info
                     then decrement_active_count s else s);
               s2 = s1\<lparr>re_events := (re_events s1)(event_id := None),
                       re_organizer_event := re_organizer_event s1 - {(organizer, event_id)}\<rparr>
           in remove_from_organizer_index organizer event_id s2)
      | None \<Rightarrow> s)"

definition append_organizer_receipt ::
    "address \<Rightarrow> string \<Rightarrow> 'a reg_events_scheme \<Rightarrow> (registry_error, 'a reg_events_scheme) result" where
  "append_organizer_receipt organizer event_id s =
     (let count = re_receipt_count s organizer;
          shard_id = count div SHARD_SIZE;
          shard = re_receipt_shard s organizer shard_id @ [event_id]
      in
      rbind (add_u 32 count 1) (\<lambda>count'.
      Ok (s\<lparr>re_receipt_shard := (re_receipt_shard s)(organizer :=
                (re_receipt_shard s organizer)(shard_id := shard)),
             re_receipt_count := (re_receipt_count s)(organizer := count')\<rparr>)))"

definition store_event_receipt ::
    "event_receipt \<Rightarrow> 'a reg_events_scheme \<Rightarrow> (registry_error, 'a reg_events_scheme) result" where
  "store_event_receipt receipt s =
     (let organizer = rcpt_organizer receipt; event_id = rcpt_event_id receipt;
          s1 = s\<lparr>re_receipts := (re_receipts s)(event_id \<mapsto> receipt)\<rparr>
      in
      if (organizer, event_id) \<in> re_organizer_receipt s1 then Ok s1
      else
        rbind (append_organizer_receipt organizer event_id s1) (\<lambda>s2.
        Ok (s2\<lparr>re_organizer_receipt := insert (organizer, event_id) (re_organizer_receipt s2)\<rparr>)))"

definition get_organizer_receipts :: "address \<Rightarrow> 'a reg_events_scheme \<Rightarrow> event_receipt list" where
  "get_organizer_receipts organizer s =
     (let count = re_receipt_count s organizer in
      if count = 0 then []
      else List.map_filter (re_receipts s)
             (concat (map (re_receipt_shard s organizer) [0..<div_ceil count SHARD_SIZE])))"

definition get_organizer_events :: "address \<Rightarrow> address \<Rightarrow> 'a reg_events_scheme \<Rightarrow> string list" where
  "get_organizer_events organizer caller s =
     (let count = re_organizer_count s organizer in
      if count = 0 then []
      else
        filter (\<lambda>event_id. organizer = caller
                 \<or> (case re_events s event_id of
                      Some event_info \<Rightarrow> \<not> ev_is_private event_info | None \<Rightarrow> False))
          (concat (map (re_organizer_shard s organizer) [0..<div_ceil count SHARD_SIZE])))"


section \<open>Operations\<close>

definition require_organizer ::
    "env \<Rightarrow> string \<Rightarrow> address \<Rightarrow> 'a reg_events_scheme \<Rightarrow> (registry_error, unit) result" where
  "require_organizer env event_id caller s =
     rbind (ok_or (re_events s event_id) EventNotFound) (\<lambda>event_info.
     if ev_organizer event_info \<noteq> caller then Err Unauthorized
     else require_auth env caller)"

lemma require_organizer_eq_Ok [simp, result_simps]:
  "require_organizer env i caller s = Ok u \<longleftrightarrow>
     (\<exists>e. re_events s i = Some e \<and> ev_organizer e = caller \<and> authorised env caller)"
  by (auto simp: require_organizer_def split: if_splits)

definition require_event_ended :: "env \<Rightarrow> event_info \<Rightarrow> (registry_error, unit) result" where
  "require_event_ended env e =
     (if ev_end_time e = 0 \<or> timestamp env \<le> ev_end_time e then Err EventNotEnded else Ok ())"

fun sum_tier_limits :: "ticket_tier list \<Rightarrow> int \<Rightarrow> (registry_error, int) result" where
  "sum_tier_limits [] acc = Ok acc"
| "sum_tier_limits (t # ts) acc =
     rbind (ok_or (checked_add_i128 acc (tier_limit t)) SupplyOverflow) (sum_tier_limits ts)"

fun sum_release_bps :: "milestone list \<Rightarrow> nat \<Rightarrow> (registry_error, nat) result" where
  "sum_release_bps [] acc = Ok acc"
| "sum_release_bps (m # ms) acc =
     rbind (ok_or (checked_add_u 32 acc (ms_release_percent m)) InvalidMilestonePlan)
       (sum_release_bps ms)"

text \<open>The checks of a registration, in the order of the code.\<close>

definition validate_registration ::
    "registration_args \<Rightarrow> 'a reg_events_scheme \<Rightarrow> (registry_error, unit) result" where
  "validate_registration args s =
     rbind (validate_metadata_cid (args_metadata_cid args)) (\<lambda>_.
     rbind (case args_tags args of Some tags \<Rightarrow> validate_tags tags | None \<Rightarrow> Ok ()) (\<lambda>_.
     if re_events s (args_event_id args) \<noteq> None then Err EventAlreadyExists
     else if length (args_tiers args) > MAX_TIERS_PER_EVENT then Err TooManyTiers
     else
       rbind (if args_max_supply args > 0
              then rbind (sum_tier_limits (map snd (args_tiers args)) 0) (\<lambda>total_tier_limit.
                   if total_tier_limit > args_max_supply args then Err TierLimitExceeds else Ok ())
              else Ok ()) (\<lambda>_.
       if (case args_resale_cap_bps args of Some cap \<Rightarrow> cap > 10000 | None \<Rightarrow> False)
       then Err InvalidResaleCapBps
       else
         rbind (case args_milestone_plan args of
                  Some milestones \<Rightarrow>
                    rbind (sum_release_bps milestones 0) (\<lambda>total_release_bps.
                    if total_release_bps > 10000 then Err InvalidMilestonePlan else Ok ())
                | None \<Rightarrow> Ok ()) (\<lambda>_.
         if args_start_time args \<noteq> 0 \<and> args_end_time args \<noteq> 0
            \<and> args_end_time args \<le> args_start_time args
         then Err InvalidDeadline else Ok ()))))"

definition event_of_args :: "env \<Rightarrow> nat \<Rightarrow> registration_args \<Rightarrow> event_info" where
  "event_of_args env platform_fee_percent args =
     \<lparr>ev_event_id = args_event_id args, ev_name = args_name args,
      ev_organizer = args_organizer args, ev_payment_address = args_payment_address args,
      ev_platform_fee_percent = platform_fee_percent, ev_is_active = True, ev_status = Active,
      ev_created_at = timestamp env, ev_metadata_cid = args_metadata_cid args,
      ev_max_supply = args_max_supply args, ev_current_supply = 0,
      ev_milestone_plan = args_milestone_plan args, ev_tiers = args_tiers args,
      ev_refund_deadline = args_refund_deadline args, ev_restocking_fee = args_restocking_fee args,
      ev_resale_cap_bps = args_resale_cap_bps args, ev_is_postponed = False,
      ev_grace_period_end = 0, ev_min_sales_target = unwrap_or (args_min_sales_target args) 0,
      ev_target_deadline = unwrap_or (args_target_deadline args) 0, ev_goal_met = False,
      ev_custom_fee_bps = None, ev_banner_cid = args_banner_cid args, ev_tags = args_tags args,
      ev_category_ids = args_category_ids args, ev_start_time = args_start_time args,
      ev_is_private = args_is_private args, ev_end_time = args_end_time args,
      ev_transfer_lock_duration = args_transfer_lock_duration args,
      ev_accepted_tokens = args_accepted_tokens args,
      ev_use_global_whitelist = args_use_global_whitelist args, ev_feedback_cid = None,
      ev_cancellation_reason = None,
      ev_referral_rate_bps = unwrap_or (args_referral_rate_bps args) 0\<rparr>"

definition register_event ::
    "env \<Rightarrow> registration_args \<Rightarrow> 'a reg_events_scheme
     \<Rightarrow> (registry_error, 'a reg_events_scheme) result" where
  "register_event env args s =
     (if \<not> rc_initialized s then Err NotInitialized
      else
        rbind (require_auth env (args_organizer args)) (\<lambda>_.
        if args_organizer args \<in> re_blacklisted s then Err OrganizerBlacklisted
        else
          rbind (validate_registration args s) (\<lambda>_.
          rbind (storage_store_event (event_of_args env (rc_platform_fee s) args) s) (\<lambda>s1.
          Ok (publish (EventRegistered_event (args_event_id args) (args_organizer args)
                (args_payment_address args) (timestamp env)) s1)))))"

definition get_event_payment_info ::
    "string \<Rightarrow> 'a reg_events_scheme \<Rightarrow> (registry_error, payment_info) result" where
  "get_event_payment_info event_id s =
     (case re_events s event_id of
        Some e \<Rightarrow>
          (if \<not> ev_is_active e then Err EventInactive
           else Ok \<lparr>pi_payment_address = ev_payment_address e,
                     pi_platform_fee_percent = ev_platform_fee_percent e,
                     pi_custom_fee_bps = ev_custom_fee_bps e, pi_tiers = ev_tiers e,
                     pi_referral_rate_bps = ev_referral_rate_bps e\<rparr>)
      | None \<Rightarrow> Err EventNotFound)"

definition update_event_status ::
    "env \<Rightarrow> string \<Rightarrow> bool \<Rightarrow> 'a reg_events_scheme \<Rightarrow> (registry_error, 'a reg_events_scheme) result" where
  "update_event_status env event_id is_active s =
     (case re_events s event_id of
        Some e \<Rightarrow>
          rbind (require_organizer env event_id (ev_organizer e) s) (\<lambda>_.
          if ev_status e = Cancelled then Err EventCancelled
          else if ev_is_active e = is_active then Ok s
          else
            rbind (update_event (e\<lparr>ev_is_active := is_active\<rparr>) s) (\<lambda>s1.
            Ok (publish (EventStatusUpdated_event event_id is_active (ev_organizer e)
                  (timestamp env)) s1)))
      | None \<Rightarrow> Err EventNotFound)"

definition cancel_event ::
    "env \<Rightarrow> string \<Rightarrow> string option \<Rightarrow> 'a reg_events_scheme
     \<Rightarrow> (registry_error, 'a reg_events_scheme) result" where
  "cancel_event env event_id reason s =
     (case re_events s event_id of
        Some e \<Rightarrow>
          rbind (require_organizer env event_id (ev_organizer e) s) (\<lambda>_.
          if ev_status e = Cancelled then Err EventAlreadyCanceled
          else
            rbind (update_event (e\<lparr>ev_status := Cancelled, ev_is_active := False,
                     ev_cancellation_reason := reason\<rparr>) s) (\<lambda>s1.
            Ok (publish (EventCancelled_event event_id (ev_organizer e) (timestamp env) reason) s1)))
      | None \<Rightarrow> Err EventNotFound)"

definition archive_event ::
    "env \<Rightarrow> string \<Rightarrow> 'a reg_events_scheme \<Rightarrow> (registry_error, 'a reg_events_scheme) result" where
  "archive_event env event_id s =
     (case re_events s event_id of
        Some e \<Rightarrow>
          rbind (require_organizer env event_id (ev_organizer e) s) (\<lambda>_.
          if ev_is_active e then Err EventIsActive
          else
            rbind (store_event_receipt
                     \<lparr>rcpt_event_id = event_id, rcpt_organizer = ev_organizer e,
                       rcpt_total_sold = ev_current_supply e, rcpt_archived_at = timestamp env\<rparr>
                     (remove_event event_id s)) (\<lambda>s1.
            Ok (publish (EventArchived_event event_id (ev_organizer e) (timestamp env)) s1)))
      | None \<Rightarrow> Err EventNotFound)"

definition update_metadata ::
    "env \<Rightarrow> string \<Rightarrow> string \<Rightarrow> 'a reg_events_scheme \<Rightarrow> (registry_error, 'a reg_events_scheme) result" where
  "update_metadata env event_id new_metadata_cid s =
     (case re_events s event_id of
        Some e \<Rightarrow>
          rbind (require_organizer env event_id (ev_organizer e) s) (\<lambda>_.
          rbind (validate_metadata_cid new_metadata_cid) (\<lambda>_.
          if ev_metadata_cid e = new_metadata_cid then Ok s
          else
            rbind (update_event (e\<lparr>ev_metadata_cid := new_metadata_cid\<rparr>) s) (\<lambda>s1.
            Ok (publish (MetadataUpdated_event event_id new_metadata_cid (ev_organizer e)
                  (timestamp env)) s1))))
      | None \<Rightarrow> Err EventNotFound)"

definition set_feedback_cid ::
    "env \<Rightarrow> string \<Rightarrow> string \<Rightarrow> 'a reg_events_scheme \<Rightarrow> (registry_error, 'a reg_events_scheme) result" where
  "set_feedback_cid env event_id feedback_cid s =
     (case re_events s event_id of
        Some e \<Rightarrow>
          rbind (require_organizer env event_id (ev_organizer e) s) (\<lambda>_.
          rbind (require_event_ended env e) (\<lambda>_.
          rbind (validate_metadata_cid feedback_cid) (\<lambda>_.
          if ev_feedback_cid e = Some feedback_cid then Ok s
          else
            rbind (update_event (e\<lparr>ev_feedback_cid := Some feedback_cid\<rparr>) s) (\<lambda>s1.
            Ok (publish (FeedbackCidSet_event event_id feedback_cid (ev_organizer e)
                  (timestamp env)) s1)))))
      | None \<Rightarrow> Err EventNotFound)"

text \<open>The legacy entry point panics instead of returning an error.\<close>

definition legacy_store_event ::
    "env \<Rightarrow> event_info \<Rightarrow> 'a reg_events_scheme \<Rightarrow> (registry_error, 'a reg_events_scheme) result" where
  "legacy_store_event env e s =
     rbind (unwrap_result (require_organizer env (ev_event_id e) (ev_organizer e) s)) (\<lambda>_.
     rbind (if ev_feedback_cid e \<noteq> None then unwrap_result (require_event_ended env e) else Ok ())
       (\<lambda>_.
     if (case ev_resale_cap_bps e of Some cap \<Rightarrow> cap > 10000 | None \<Rightarrow> False) then Trap PanicTrap
     else storage_store_event e s))"

definition set_resale_cap_bps ::
    "env \<Rightarrow> string \<Rightarrow> nat option \<Rightarrow> 'a reg_events_scheme
     \<Rightarrow> (registry_error, 'a reg_events_scheme) result" where
  "set_resale_cap_bps env event_id resale_cap_bps s =
     rbind (ok_or (re_events s event_id) EventNotFound) (\<lambda>e.
     rbind (require_organizer env event_id (ev_organizer e) s) (\<lambda>_.
     if (case resale_cap_bps of Some cap \<Rightarrow> cap > 10000 | None \<Rightarrow> False)
     then Err InvalidResaleCapBps
     else update_event (e\<lparr>ev_resale_cap_bps := resale_cap_bps\<rparr>) s))"

definition get_events_batch ::
    "string list \<Rightarrow> 'a reg_events_scheme \<Rightarrow> (registry_error, event_info option list) result" where
  "get_events_batch event_ids s =
     (if length event_ids > 50 then Err TooManyTiers else Ok (map (re_events s) event_ids))"

definition set_custom_event_fee ::
    "env \<Rightarrow> string \<Rightarrow> nat option \<Rightarrow> 'a reg_events_scheme
     \<Rightarrow> (registry_error, 'a reg_events_scheme) result" where
  "set_custom_event_fee env event_id custom_fee_bps s =
     rbind (require_admin env s) (\<lambda>admin.
     if (case custom_fee_bps of Some fee \<Rightarrow> fee > 10000 | None \<Rightarrow> False) then Err InvalidFeePercent
     else
       rbind (ok_or (re_events s event_id) EventNotFound) (\<lambda>e.
       rbind (update_event (e\<lparr>ev_custom_fee_bps := custom_fee_bps\<rparr>) s) (\<lambda>s1.
       Ok (publish (CustomFeeSet_event event_id custom_fee_bps admin (timestamp env)) s1))))"

definition postpone_event ::
    "env \<Rightarrow> string \<Rightarrow> nat \<Rightarrow> nat \<Rightarrow> 'a reg_events_scheme
     \<Rightarrow> (registry_error, 'a reg_events_scheme) result" where
  "postpone_event env event_id new_start_time grace_period_end s =
     rbind (ok_or (re_events s event_id) EventNotFound) (\<lambda>e.
     rbind (require_organizer env event_id (ev_organizer e) s) (\<lambda>_.
     if new_start_time \<le> timestamp env then Err InvalidDeadline
     else if grace_period_end \<le> timestamp env then Err InvalidGracePeriod
     else
       rbind (update_event (e\<lparr>ev_start_time := new_start_time, ev_is_postponed := True,
                ev_grace_period_end := grace_period_end\<rparr>) s) (\<lambda>s1.
       Ok (publish (EventPostponed_event event_id (ev_organizer e) new_start_time grace_period_end
             (timestamp env)) s1))))"


section \<open>Blacklisting\<close>

text \<open>Suspension runs over the organizer's list as it was read at the start.\<close>

fun suspend_loop ::
    "string list \<Rightarrow> 'a reg_events_scheme \<Rightarrow> nat
     \<Rightarrow> (registry_error, 'a reg_events_scheme \<times> nat) result" where
  "suspend_loop [] s suspended_count = Ok (s, suspended_count)"
| "suspend_loop (event_id # ids) s suspended_count =
     (case re_events s event_id of
        Some e \<Rightarrow>
          (if ev_is_active e
           then
             rbind (storage_store_event (e\<lparr>ev_is_active := False\<rparr>) s) (\<lambda>s1.
             rbind (add_u 32 suspended_count 1) (suspend_loop ids s1))
           else suspend_loop ids s suspended_count)
      | None \<Rightarrow> suspend_loop ids s suspended_count)"

definition suspend_organizer_events ::
    "env \<Rightarrow> address \<Rightarrow> 'a reg_events_scheme \<Rightarrow> (registry_error, 'a reg_events_scheme) result" where
  "suspend_organizer_events env organizer s =
     rbind (suspend_loop (get_organizer_events organizer organizer s) s 0) (\<lambda>(s1, suspended_count).
     if suspended_count > 0
     then
       rbind (ok_or (rc_admin s1) NotInitialized) (\<lambda>admin.
       Ok (publish (EventsSuspended_event organizer suspended_count admin (timestamp env)) s1))
     else Ok s1)"

definition blacklist_organizer ::
    "env \<Rightarrow> address \<Rightarrow> string \<Rightarrow> 'a reg_events_scheme
     \<Rightarrow> (registry_error, 'a reg_events_scheme) result" where
  "blacklist_organizer env organizer reason s =
     rbind (require_admin env s) (\<lambda>admin.
     rbind (validate_address env organizer) (\<lambda>_.
     if organizer \<in> re_blacklisted s then Ok s
     else
       let s1 = s\<lparr>re_blacklisted := insert organizer (re_blacklisted s),
                  re_blacklist_log := re_blacklist_log s @
                    [\<lparr>bl_organizer = organizer, bl_added_to_blacklist = True, bl_admin = admin,
                       bl_reason = reason, bl_timestamp = timestamp env\<rparr>]\<rparr>
       in
       suspend_organizer_events env organizer
         (publish (OrganizerBlacklisted_event organizer admin reason (timestamp env)) s1)))"

definition remove_from_blacklist ::
    "env \<Rightarrow> address \<Rightarrow> string \<Rightarrow> 'a reg_events_scheme
     \<Rightarrow> (registry_error, 'a reg_events_scheme) result" where
  "remove_from_blacklist env organizer reason s =
     rbind (require_admin env s) (\<lambda>admin.
     rbind (validate_address env organizer) (\<lambda>_.
     if organizer \<notin> re_blacklisted s then Err OrgNotBlacklisted
     else Ok (publish (OrganizerRemovedFromBlacklist_event organizer admin reason (timestamp env))
            (s\<lparr>re_blacklisted := re_blacklisted s - {organizer},
               re_blacklist_log := re_blacklist_log s @
                 [\<lparr>bl_organizer = organizer, bl_added_to_blacklist = False, bl_admin = admin,
                    bl_reason = reason, bl_timestamp = timestamp env\<rparr>]\<rparr>))))"

definition is_organizer_blacklisted :: "address \<Rightarrow> 'a reg_events_scheme \<Rightarrow> bool" where
  "is_organizer_blacklisted organizer s = (organizer \<in> re_blacklisted s)"

end
