(* ===== verification/Registry_Events_Inv.thy ===== *)
theory Registry_Events_Inv
  imports Registry_Events
begin

text \<open>
  Correctness of the event storage: events are stored under their own id, the organizer flags are
  exactly the stored events, the global active counter never exceeds the number of active public
  events, and the organizer's bucketed list, an instance of the sharded index, reads back what was
  registered in order.  Every operation of \<open>Registry_Events\<close> keeps this invariant.  Its strict form
  says that the counter is exact; every operation keeps it too, except \<open>legacy_store_event\<close> when it
  makes a private active event public and inactive.
\<close>

section \<open>The active counter\<close>

definition counted :: "event_info \<Rightarrow> bool" where
  "counted e \<longleftrightarrow> ev_is_active e \<and> \<not> ev_is_private e"

definition active_set :: "(string \<rightharpoonup> event_info) \<Rightarrow> string set" where
  "active_set m = {i. \<exists>e. m i = Some e \<and> counted e}"

lemma finite_active_set [simp]: "finite (dom m) \<Longrightarrow> finite (active_set m)"
  by (rule finite_subset [of _ "dom m"]) (auto simp: active_set_def)

lemma active_set_update:
  "active_set (m(i \<mapsto> e)) = (if counted e then insert i (active_set m) else active_set m - {i})"
  by (auto simp: active_set_def)

lemma active_set_remove: "active_set (m(i := None)) = active_set m - {i}"
  by (auto simp: active_set_def)

text \<open>The transition that the counter gets wrong.\<close>

definition miscounted :: "event_info option \<Rightarrow> event_info \<Rightarrow> bool" where
  "miscounted prev e \<longleftrightarrow>
     (\<exists>p. prev = Some p \<and> ev_is_private p \<and> ev_is_active p \<and> \<not> ev_is_private e \<and> \<not> ev_is_active e)"

text \<open>The counter is at most the number of active public events, and exactly it in the strict form.\<close>

definition counter_ok :: "bool \<Rightarrow> nat \<Rightarrow> nat \<Rightarrow> bool" where
  "counter_ok strict n k \<longleftrightarrow> (if strict then n = k else n \<le> k)"

lemma sync_active_event_count_ok:
  assumes "sync_active_event_count (re_events s i) e s = Ok s'"
    and "finite (dom (re_events s))" "counter_ok strict (re_active_count s) (card (active_set (re_events s)))"
    and "strict \<Longrightarrow> \<not> miscounted (re_events s i) e"
  shows "\<exists>n. s' = s\<lparr>re_active_count := n\<rparr> \<and> counter_ok strict n (card (active_set ((re_events s)(i \<mapsto> e))))"
proof -
  let ?A = "active_set (re_events s)"
  have fin: "finite ?A" using assms(2) by simp
  have mem: "i \<in> ?A \<longleftrightarrow> (\<exists>p. re_events s i = Some p \<and> counted p)"
    by (simp add: active_set_def)
  let ?new = "if counted e \<and> i \<notin> ?A then 1 else 0 :: nat"
  let ?gone = "if \<not> counted e \<and> i \<in> ?A then 1 else 0 :: nat"
  let ?less = "if \<not> counted e \<and> i \<in> ?A \<or> miscounted (re_events s i) e then 1 else 0 :: nat"
  have "s' = s\<lparr>re_active_count := re_active_count s + ?new - ?less\<rparr>"
    using assms(1) unfolding mem
    by (cases "re_events s i"; cases "ev_is_active e"; cases "ev_is_private e")
      (auto simp: sync_active_event_count_def increment_active_count_def decrement_active_count_def
        counted_def miscounted_def split: if_splits)
  moreover have "card (active_set ((re_events s)(i \<mapsto> e))) = card ?A + ?new - ?gone"
    using fin by (simp add: active_set_update card_insert_if card_Diff_singleton_if)
  moreover have "?gone \<le> ?less" "strict \<Longrightarrow> ?gone = ?less" using assms(4) by auto
  then have "counter_ok strict (re_active_count s + ?new - ?less) (card ?A + ?new - ?gone)"
    using assms(3) by (cases strict) (simp_all add: counter_ok_def diff_le_mono2 le_trans [OF diff_le_mono])
  ultimately show ?thesis by (intro exI [of _ "re_active_count s + ?new - ?less"]) simp
qed

lemma sync_active_event_count_frame:
  "sync_active_event_count prev e s = Ok s' \<Longrightarrow> \<exists>n. s' = s\<lparr>re_active_count := n\<rparr>"
proof -
  have "\<exists>n. s = s\<lparr>re_active_count := n\<rparr>"
    by (rule exI [of _ "re_active_count s"]) simp
  then show "sync_active_event_count prev e s = Ok s' \<Longrightarrow> \<exists>n. s' = s\<lparr>re_active_count := n\<rparr>"
    by (auto simp: sync_active_event_count_def increment_active_count_def decrement_active_count_def
        split: if_splits option.splits)
qed


section \<open>The storage invariant\<close>

definition organizer_flags :: "(string \<rightharpoonup> event_info) \<Rightarrow> (address \<times> string) set" where
  "organizer_flags m = {(ev_organizer e, i) | i e. m i = Some e}"

definition events_inv :: "bool \<Rightarrow> 'a reg_events_scheme \<Rightarrow> bool" where
  "events_inv strict s \<longleftrightarrow>
     finite (dom (re_events s))
     \<and> (\<forall>i e. re_events s i = Some e \<longrightarrow> ev_event_id e = i)
     \<and> counter_ok strict (re_active_count s) (card (active_set (re_events s)))
     \<and> re_organizer_event s = organizer_flags (re_events s)"

lemma events_inv_id: "events_inv strict s \<Longrightarrow> re_events s i = Some e \<Longrightarrow> ev_event_id e = i"
  by (simp add: events_inv_def)

lemma organizer_flags_mem:
  "(a, i) \<in> organizer_flags m \<longleftrightarrow> (\<exists>e. m i = Some e \<and> ev_organizer e = a)"
  by (auto simp: organizer_flags_def)

lemma organizer_flags_update:
  assumes "m i = None \<or> (\<exists>p. m i = Some p \<and> ev_organizer p = ev_organizer e)"
  shows "organizer_flags (m(i \<mapsto> e)) = insert (ev_organizer e, i) (organizer_flags m)"
  using assms by (auto simp: set_eq_iff organizer_flags_mem)

lemma organizer_flags_remove:
  assumes "m i = Some e"
  shows "organizer_flags (m(i := None)) = organizer_flags m - {(ev_organizer e, i)}"
  using assms by (auto simp: set_eq_iff organizer_flags_mem)

lemma events_inv_storage_irrelevant:
  "re_events s' = re_events s \<Longrightarrow> re_active_count s' = re_active_count s
   \<Longrightarrow> re_organizer_event s' = re_organizer_event s \<Longrightarrow> events_inv strict s' = events_inv strict s"
  by (simp add: events_inv_def)

text \<open>What the three storage operations do to a state that satisfies the invariant.\<close>

lemma update_event_eq:
  assumes "update_event e s = Ok s'" "events_inv strict s" "strict \<Longrightarrow> \<not> miscounted (re_events s (ev_event_id e)) e"
  shows "\<exists>n. s' = s\<lparr>re_active_count := n, re_events := (re_events s)(ev_event_id e \<mapsto> e)\<rparr>
           \<and> counter_ok strict n (card (active_set ((re_events s)(ev_event_id e \<mapsto> e))))"
proof -
  obtain s1 where s1: "sync_active_event_count (re_events s (ev_event_id e)) e s = Ok s1"
    and s': "s' = s1\<lparr>re_events := (re_events s1)(ev_event_id e \<mapsto> e)\<rparr>"
    using assms(1) by (auto simp: update_event_def)
  show ?thesis
    using sync_active_event_count_ok [where strict = strict, OF s1 _ _ assms(3)] assms(2) s'
    by (auto simp: events_inv_def)
qed

lemma update_event_frame:
  "update_event e s = Ok s' \<Longrightarrow>
     \<exists>n. s' = s\<lparr>re_active_count := n, re_events := (re_events s)(ev_event_id e \<mapsto> e)\<rparr>"
  by (auto simp: update_event_def dest!: sync_active_event_count_frame)

lemma events_inv_update_event:
  assumes "events_inv strict s" "re_events s i = Some p" "update_event e s = Ok s'"
    and "ev_event_id e = i" "ev_organizer e = ev_organizer p" "strict \<Longrightarrow> \<not> miscounted (Some p) e"
  shows "events_inv strict s'"
proof -
  have flag: "(ev_organizer e, i) \<in> organizer_flags (re_events s)"
    using assms(2,5) by (auto simp: organizer_flags_def)
  obtain n where "s' = s\<lparr>re_active_count := n, re_events := (re_events s)(i \<mapsto> e)\<rparr>"
      "counter_ok strict n (card (active_set ((re_events s)(i \<mapsto> e))))"
    using update_event_eq [OF assms(3,1)] assms(2,4,6) by auto
  moreover have "organizer_flags ((re_events s)(i \<mapsto> e)) = organizer_flags (re_events s)"
    using organizer_flags_update [of "re_events s" i e] assms(2,5) flag by (auto simp: insert_absorb)
  ultimately show ?thesis
    using assms(1,4) by (auto simp: events_inv_def)
qed

text \<open>Storing an event that is already there under the same organizer does not touch the index.\<close>

lemma store_existing_event:
  assumes "events_inv strict s" "re_events s (ev_event_id e) = Some p" "ev_organizer e = ev_organizer p"
  shows "storage_store_event e s = update_event e s"
proof -
  have "(ev_organizer e, ev_event_id e) \<in> re_organizer_event s"
    using assms by (auto simp: events_inv_def organizer_flags_def)
  then show ?thesis
    by (auto simp: storage_store_event_def update_event_def Let_def intro!: rbind_cong
        dest!: sync_active_event_count_frame)
qed

lemma append_organizer_event_frame:
  "append_organizer_event a i s = Ok s' \<Longrightarrow>
     \<exists>sh n. s' = s\<lparr>re_organizer_shard := sh, re_organizer_count := n\<rparr>"
  by (auto simp: append_organizer_event_def Let_def)

lemma store_new_event:
  assumes "storage_store_event e s = Ok s'" "events_inv strict s" "re_events s (ev_event_id e) = None"
  shows "\<exists>sh n k. s' = s\<lparr>re_active_count := k,
               re_events := (re_events s)(ev_event_id e \<mapsto> e),
               re_organizer_event := insert (ev_organizer e, ev_event_id e) (re_organizer_event s),
               re_organizer_shard := sh, re_organizer_count := n,
               re_event_count := re_event_count s + (if ev_is_private e then 0 else 1)\<rparr>
         \<and> append_organizer_event (ev_organizer e) (ev_event_id e) s
             = Ok (s\<lparr>re_organizer_shard := sh, re_organizer_count := n\<rparr>)
         \<and> counter_ok strict k (card (active_set ((re_events s)(ev_event_id e \<mapsto> e))))"
proof -
  let ?i = "ev_event_id e" and ?a = "ev_organizer e"
  have new: "(?a, ?i) \<notin> re_organizer_event s"
    using assms(2,3) by (auto simp: events_inv_def organizer_flags_def)
  obtain s1 where s1: "sync_active_event_count (re_events s ?i) e s = Ok s1"
    using assms(1) by (auto simp: storage_store_event_def Let_def)
  obtain k where eq: "s1 = s\<lparr>re_active_count := k\<rparr>"
    and k: "counter_ok strict k (card (active_set ((re_events s)(?i \<mapsto> e))))"
    using sync_active_event_count_ok [where strict = strict, OF s1] assms(2,3)
    by (auto simp: events_inv_def miscounted_def)
  let ?sh = "(re_organizer_shard s)(?a := (re_organizer_shard s ?a)
    (re_organizer_count s ?a div SHARD_SIZE :=
       re_organizer_shard s ?a (re_organizer_count s ?a div SHARD_SIZE) @ [?i]))"
  let ?n = "(re_organizer_count s)(?a := re_organizer_count s ?a + 1)"
  let ?s2 = "s\<lparr>re_active_count := k, re_events := (re_events s)(?i \<mapsto> e)\<rparr>"
  obtain s3 where s3: "append_organizer_event ?a ?i ?s2 = Ok s3"
    and s': "(if \<not> ev_is_private e
       then increment_event_count (s3\<lparr>re_organizer_event := insert (?a, ?i) (re_organizer_event s3)\<rparr>)
       else Ok (s3\<lparr>re_organizer_event := insert (?a, ?i) (re_organizer_event s3)\<rparr>)) = Ok s'"
    using assms(1) new s1 eq by (auto simp: storage_store_event_def Let_def)
  have bound: "re_organizer_count s ?a + 1 < 2 ^ 32"
    and s3_eq: "s3 = ?s2\<lparr>re_organizer_shard := ?sh, re_organizer_count := ?n\<rparr>"
    using s3 by (simp_all add: append_organizer_event_def Let_def)
  show ?thesis
  proof (intro exI conjI)
    show "append_organizer_event ?a ?i s = Ok (s\<lparr>re_organizer_shard := ?sh, re_organizer_count := ?n\<rparr>)"
      using bound by (simp add: append_organizer_event_def Let_def)
    show "counter_ok strict k (card (active_set ((re_events s)(?i \<mapsto> e))))" by (rule k)
    show "s' = s\<lparr>re_active_count := k, re_events := (re_events s)(?i \<mapsto> e),
               re_organizer_event := insert (?a, ?i) (re_organizer_event s),
               re_organizer_shard := ?sh, re_organizer_count := ?n,
               re_event_count := re_event_count s + (if ev_is_private e then 0 else 1)\<rparr>"
      using s' unfolding s3_eq
      by (cases "ev_is_private e") (auto simp: increment_event_count_def)
  qed
qed

lemma events_inv_store_new_event:
  assumes "storage_store_event e s = Ok s'" "events_inv strict s" "re_events s (ev_event_id e) = None"
  shows "events_inv strict s'"
proof -
  obtain sh n k where s': "s' = s\<lparr>re_active_count := k,
      re_events := (re_events s)(ev_event_id e \<mapsto> e),
      re_organizer_event := insert (ev_organizer e, ev_event_id e) (re_organizer_event s),
      re_organizer_shard := sh, re_organizer_count := n,
      re_event_count := re_event_count s + (if ev_is_private e then 0 else 1)\<rparr>"
    and k: "counter_ok strict k (card (active_set ((re_events s)(ev_event_id e \<mapsto> e))))"
    using store_new_event [OF assms] by blast
  show ?thesis
    using assms(2,3) k organizer_flags_update [of "re_events s" "ev_event_id e" e]
    by (auto simp: s' events_inv_def)
qed

lemma events_inv_updates [simp]:
  "events_inv strict (publish ev s) = events_inv strict s"
  "events_inv strict (s\<lparr>re_organizer_shard := sh\<rparr>) = events_inv strict s"
  "events_inv strict (s\<lparr>re_organizer_count := n\<rparr>) = events_inv strict s"
  "events_inv strict (s\<lparr>re_receipts := r\<rparr>) = events_inv strict s"
  "events_inv strict (s\<lparr>re_organizer_receipt := f\<rparr>) = events_inv strict s"
  "events_inv strict (s\<lparr>re_receipt_shard := sh\<rparr>) = events_inv strict s"
  "events_inv strict (s\<lparr>re_receipt_count := n\<rparr>) = events_inv strict s"
  "events_inv strict (s\<lparr>re_blacklisted := b\<rparr>) = events_inv strict s"
  "events_inv strict (s\<lparr>re_blacklist_log := l\<rparr>) = events_inv strict s"
  by (simp_all add: publish_def events_inv_def)

lemma publish_frame [simp]:
  "re_events (publish ev s) = re_events s"
  "re_organizer_event (publish ev s) = re_organizer_event s"
  "re_organizer_shard (publish ev s) = re_organizer_shard s"
  "re_organizer_count (publish ev s) = re_organizer_count s"
  "re_receipts (publish ev s) = re_receipts s"
  "re_organizer_receipt (publish ev s) = re_organizer_receipt s"
  "re_receipt_shard (publish ev s) = re_receipt_shard s"
  "re_receipt_count (publish ev s) = re_receipt_count s"
  "re_active_count (publish ev s) = re_active_count s"
  "re_blacklisted (publish ev s) = re_blacklisted s"
  "rc_admin (publish ev s) = rc_admin s"
  by (simp_all add: publish_def)


section \<open>Removal and receipts\<close>

lemma remove_id_loop_frame:
  "\<exists>sh. fst (remove_id_loop a i is s) = s\<lparr>re_organizer_shard := sh\<rparr>"
proof (induction "is")
  case Nil
  show ?case by (rule exI [of _ "re_organizer_shard s"]) simp
next
  case (Cons j "is")
  then show ?case by (auto simp: Let_def)
qed

lemma remove_from_organizer_index_frame:
  "\<exists>sh n. remove_from_organizer_index a i s = s\<lparr>re_organizer_shard := sh, re_organizer_count := n\<rparr>"
proof -
  obtain sh where sh: "fst (remove_id_loop a i [0..<div_ceil (re_organizer_count s a) SHARD_SIZE] s)
      = s\<lparr>re_organizer_shard := sh\<rparr>"
    using remove_id_loop_frame by blast
  let ?n = "re_organizer_count s"
  have "remove_from_organizer_index a i s = s\<lparr>re_organizer_shard := re_organizer_shard s,
          re_organizer_count := ?n\<rparr>
      \<or> remove_from_organizer_index a i s = s\<lparr>re_organizer_shard := sh, re_organizer_count := ?n\<rparr>
      \<or> remove_from_organizer_index a i s = s\<lparr>re_organizer_shard := sh,
          re_organizer_count := ?n(a := ?n a - 1)\<rparr>"
    using sh by (auto simp: remove_from_organizer_index_def Let_def split: prod.splits)
  then show ?thesis by blast
qed

lemma events_inv_remove_event:
  assumes "events_inv strict s"
  shows "events_inv strict (remove_event i s)"
proof (cases "re_events s i")
  case (Some e)
  let ?s1 = "if counted e then decrement_active_count s else s"
  let ?s2 = "?s1\<lparr>re_events := (re_events s)(i := None),
    re_organizer_event := re_organizer_event s - {(ev_organizer e, i)}\<rparr>"
  have fin: "finite (active_set (re_events s))"
    using assms by (simp add: events_inv_def)
  have mem: "i \<in> active_set (re_events s) \<longleftrightarrow> counted e" using Some by (simp add: active_set_def)
  have "counter_ok strict (re_active_count s) (card (active_set (re_events s)))"
    using assms by (simp add: events_inv_def)
  then have "counter_ok strict (re_active_count ?s1) (card (active_set ((re_events s)(i := None))))"
    using fin mem
    by (auto simp: active_set_remove card_Diff_singleton_if decrement_active_count_def counter_ok_def)
  then have "events_inv strict ?s2"
    using assms organizer_flags_remove [of "re_events s" i e] Some
    by (auto simp: events_inv_def)
  moreover have "remove_event i s = remove_from_organizer_index (ev_organizer e) i ?s2"
    using Some by (simp add: remove_event_def counted_def decrement_active_count_def Let_def)
  ultimately show ?thesis
    using remove_from_organizer_index_frame [of "ev_organizer e" i ?s2] by auto
qed (use assms in \<open>simp add: remove_event_def\<close>)

lemma store_event_receipt_frame:
  "store_event_receipt r s = Ok s' \<Longrightarrow>
     \<exists>sh n f. s' = s\<lparr>re_receipts := (re_receipts s)(rcpt_event_id r \<mapsto> r),
                     re_receipt_shard := sh, re_receipt_count := n, re_organizer_receipt := f\<rparr>"
proof -
  assume asm: "store_event_receipt r s = Ok s'"
  let ?o = "rcpt_organizer r" and ?i = "rcpt_event_id r"
  show ?thesis
  proof (cases "(?o, ?i) \<in> re_organizer_receipt s")
    case True
    then have "s' = s\<lparr>re_receipts := (re_receipts s)(?i \<mapsto> r),
        re_receipt_shard := re_receipt_shard s, re_receipt_count := re_receipt_count s,
        re_organizer_receipt := re_organizer_receipt s\<rparr>"
      using asm by (auto simp: store_event_receipt_def)
    then show ?thesis by blast
  next
    case False
    then show ?thesis
      using asm by (auto simp: store_event_receipt_def append_organizer_receipt_def Let_def)
  qed
qed

lemma remove_from_organizer_index_events [simp]:
  "re_events (remove_from_organizer_index a i s) = re_events s"
  using remove_from_organizer_index_frame [of a i s] by auto

lemma remove_event_events:
  "re_events (remove_event i s) = (re_events s)(i := None)"
  by (auto simp: remove_event_def decrement_active_count_def Let_def split: option.splits)


section \<open>Operations keep the invariant\<close>

lemma update_op:
  assumes "events_inv strict s" "re_events s i = Some p" "update_event e s = Ok s'"
    and "ev_event_id e = ev_event_id p" "ev_organizer e = ev_organizer p"
    and "ev_is_private e = ev_is_private p"
  shows "events_inv strict s'"
proof (rule events_inv_update_event [OF assms(1,2,3) _ assms(5)])
  show "ev_event_id e = i"
    using assms(4) events_inv_id [OF assms(1,2)] by simp
  show "\<not> miscounted (Some p) e"
    using assms(6) by (simp add: miscounted_def)
qed

text \<open>The organizer's and administrator's edits: at most one stored event changes, and neither its
  identity nor its inventory does.\<close>

definition bps_ok :: "event_info \<Rightarrow> bool" where
  "bps_ok e \<longleftrightarrow>
     (case ev_resale_cap_bps e of Some cap \<Rightarrow> cap \<le> 10000 | None \<Rightarrow> True)
     \<and> (case ev_custom_fee_bps e of Some fee \<Rightarrow> fee \<le> 10000 | None \<Rightarrow> True)"

definition benign_edit :: "event_info \<Rightarrow> event_info \<Rightarrow> bool" where
  "benign_edit p e \<longleftrightarrow>
     ev_event_id e = ev_event_id p \<and> ev_organizer e = ev_organizer p
     \<and> ev_is_private e = ev_is_private p \<and> ev_max_supply e = ev_max_supply p
     \<and> ev_current_supply e = ev_current_supply p \<and> ev_tiers e = ev_tiers p
     \<and> ev_milestone_plan e = ev_milestone_plan p \<and> ev_platform_fee_percent e = ev_platform_fee_percent p
     \<and> (ev_status p = Cancelled \<longrightarrow> ev_status e = Cancelled \<and> ev_is_active e = ev_is_active p)
     \<and> (ev_status e = Cancelled \<longrightarrow> ev_status p = Cancelled \<or> \<not> ev_is_active e)
     \<and> (bps_ok p \<longrightarrow> bps_ok e)"

definition event_edited :: "string \<Rightarrow> 'a reg_events_scheme \<Rightarrow> 'a reg_events_scheme \<Rightarrow> bool" where
  "event_edited i s s' \<longleftrightarrow>
     s' = s \<or> (\<exists>p e s1. re_events s i = Some p \<and> update_event e s = Ok s1 \<and> benign_edit p e
                 \<and> (s' = s1 \<or> (\<exists>ev. s' = publish ev s1)))"

lemma event_edited_refl: "event_edited i s s"
  by (simp add: event_edited_def)

lemma event_editedI:
  "re_events s i = Some p \<Longrightarrow> update_event e s = Ok s1 \<Longrightarrow> benign_edit p e
   \<Longrightarrow> event_edited i s s1"
  unfolding event_edited_def by blast

lemma event_edited_publish:
  "event_edited i s s1 \<Longrightarrow> re_events s i = Some p \<Longrightarrow> update_event e s = Ok s1 \<Longrightarrow> benign_edit p e
   \<Longrightarrow> event_edited i s (publish ev s1)"
  unfolding event_edited_def by blast

lemma update_event_edited:
  "re_events s i = Some p \<Longrightarrow> benign_edit p e \<Longrightarrow> update_event e s = Ok s1
   \<Longrightarrow> event_edited i s s1 \<and> event_edited i s (publish ev s1)"
  unfolding event_edited_def by blast

lemma update_event_status_edited:
  assumes "update_event_status env i b s = Ok s'"
  shows "event_edited i s s'"
proof -
  obtain p where p: "re_events s i = Some p" "ev_status p \<noteq> Cancelled"
    and "s' = s \<or> (\<exists>s1 ev. update_event (p\<lparr>ev_is_active := b\<rparr>) s = Ok s1 \<and> s' = publish ev s1)"
    using assms by (auto simp: update_event_status_def split: option.splits if_splits)
  then show ?thesis
    using update_event_edited [OF p(1), of "p\<lparr>ev_is_active := b\<rparr>"]
    by (auto simp: benign_edit_def bps_ok_def event_edited_refl)
qed

lemma cancel_event_edited:
  assumes "cancel_event env i r s = Ok s'"
  shows "event_edited i s s'"
proof -
  let ?e = "\<lambda>p :: event_info. p\<lparr>ev_status := Cancelled, ev_is_active := False, ev_cancellation_reason := r\<rparr>"
  obtain p s1 ev where p: "re_events s i = Some p" "ev_status p \<noteq> Cancelled"
    and "update_event (?e p) s = Ok s1" "s' = publish ev s1"
    using assms by (auto simp: cancel_event_def split: option.splits if_splits)
  then show ?thesis
    using update_event_edited [OF p(1), of "?e p"] by (auto simp: benign_edit_def bps_ok_def)
qed

lemma update_metadata_edited:
  assumes "update_metadata env i c s = Ok s'"
  shows "event_edited i s s'"
proof -
  obtain p where p: "re_events s i = Some p"
    and "s' = s \<or> (\<exists>s1 ev. update_event (p\<lparr>ev_metadata_cid := c\<rparr>) s = Ok s1 \<and> s' = publish ev s1)"
    using assms by (auto simp: update_metadata_def split: option.splits if_splits)
  then show ?thesis
    using update_event_edited [OF p(1), of "p\<lparr>ev_metadata_cid := c\<rparr>"]
    by (auto simp: benign_edit_def bps_ok_def event_edited_refl)
qed

lemma set_feedback_cid_edited:
  assumes "set_feedback_cid env i c s = Ok s'"
  shows "event_edited i s s'"
proof -
  obtain p where p: "re_events s i = Some p"
    and "s' = s \<or> (\<exists>s1 ev. update_event (p\<lparr>ev_feedback_cid := Some c\<rparr>) s = Ok s1 \<and> s' = publish ev s1)"
    using assms by (auto simp: set_feedback_cid_def split: option.splits if_splits)
  then show ?thesis
    using update_event_edited [OF p(1), of "p\<lparr>ev_feedback_cid := Some c\<rparr>"]
    by (auto simp: benign_edit_def bps_ok_def event_edited_refl)
qed

lemma set_resale_cap_bps_edited:
  assumes "set_resale_cap_bps env i cap s = Ok s'"
  shows "event_edited i s s'"
proof -
  obtain p where p: "re_events s i = Some p"
    using assms by (auto simp: set_resale_cap_bps_def)
  then have "update_event (p\<lparr>ev_resale_cap_bps := cap\<rparr>) s = Ok s'"
    and "case cap of Some c \<Rightarrow> c \<le> 10000 | None \<Rightarrow> True"
    using assms by (simp_all add: set_resale_cap_bps_def split: if_splits option.splits)
  then show ?thesis
    using update_event_edited [OF p, of "p\<lparr>ev_resale_cap_bps := cap\<rparr>" s']
    by (simp add: benign_edit_def bps_ok_def)
qed

lemma set_custom_event_fee_edited:
  assumes "set_custom_event_fee env i fee s = Ok s'"
  shows "event_edited i s s'"
proof -
  obtain p s1 ev where p: "re_events s i = Some p"
    and s1: "update_event (p\<lparr>ev_custom_fee_bps := fee\<rparr>) s = Ok s1" "s' = publish ev s1"
    and "case fee of Some c \<Rightarrow> c \<le> 10000 | None \<Rightarrow> True"
    using assms by (auto simp: set_custom_event_fee_def split: if_splits option.splits)
  then show ?thesis
    using update_event_edited [OF p, of "p\<lparr>ev_custom_fee_bps := fee\<rparr>" s1 ev]
    by (simp add: benign_edit_def bps_ok_def)
qed

lemma postpone_event_edited:
  assumes "postpone_event env i t g s = Ok s'"
  shows "event_edited i s s'"
proof -
  let ?e = "\<lambda>p :: event_info. p\<lparr>ev_start_time := t, ev_is_postponed := True, ev_grace_period_end := g\<rparr>"
  obtain p where p: "re_events s i = Some p"
    using assms by (auto simp: postpone_event_def)
  then obtain s1 ev where "update_event (?e p) s = Ok s1" "s' = publish ev s1"
    using assms by (simp add: postpone_event_def split: if_splits) blast
  then show ?thesis
    using update_event_edited [OF p, of "?e p" s1 ev]
    by (simp add: benign_edit_def bps_ok_def)
qed

lemmas edit_ops =
  update_event_status_edited cancel_event_edited update_metadata_edited set_feedback_cid_edited
  set_resale_cap_bps_edited set_custom_event_fee_edited postpone_event_edited

lemma events_inv_edited:
  assumes "events_inv strict s" "event_edited i s s'"
  shows "events_inv strict s'"
  using assms(2) unfolding event_edited_def
proof (elim disjE exE conjE)
  fix p e s1
  assume "re_events s i = Some p" "update_event e s = Ok s1" "benign_edit p e" "s' = s1"
  then show ?thesis using update_op [OF assms(1)] by (auto simp: benign_edit_def)
next
  fix p e s1 ev
  assume "re_events s i = Some p" "update_event e s = Ok s1" "benign_edit p e" "s' = publish ev s1"
  then show ?thesis using update_op [OF assms(1)] by (auto simp: benign_edit_def)
qed (use assms in simp)

lemma events_inv_register:
  assumes "events_inv strict s" "register_event env args s = Ok s'"
  shows "events_inv strict s'"
proof -
  obtain s1 ev where s1: "storage_store_event (event_of_args env (rc_platform_fee s) args) s = Ok s1"
    and "re_events s (args_event_id args) = None" and s': "s' = publish ev s1"
    using assms(2) by (auto simp: register_event_def validate_registration_def split: if_splits)
  then show ?thesis
    using events_inv_store_new_event [OF s1 assms(1)] by (simp add: event_of_args_def)
qed

lemma events_inv_archive:
  assumes "events_inv strict s" "archive_event env i s = Ok s'"
  shows "events_inv strict s'"
  using assms events_inv_remove_event [OF assms(1), of i]
  by (auto simp: archive_event_def split: if_splits option.splits dest!: store_event_receipt_frame)

definition deactivate_all :: "string set \<Rightarrow> (string \<rightharpoonup> event_info) \<Rightarrow> (string \<rightharpoonup> event_info)" where
  "deactivate_all ids m =
     (\<lambda>j. if j \<in> ids then map_option (\<lambda>e. e\<lparr>ev_is_active := False\<rparr>) (m j) else m j)"

lemma deactivate_all_insert:
  "deactivate_all ids (m(i \<mapsto> e\<lparr>ev_is_active := False\<rparr>)) = deactivate_all (insert i ids) m"
  if "m i = Some e"
  using that by (auto simp: deactivate_all_def)

lemma deactivate_all_skip:
  "deactivate_all (insert i ids) m = deactivate_all ids m"
  if "\<And>e. m i = Some e \<Longrightarrow> \<not> ev_is_active e"
proof
  fix j
  have "e\<lparr>ev_is_active := False\<rparr> = e" if "\<not> ev_is_active e" for e :: event_info
    using that by simp
  then show "deactivate_all (insert i ids) m j = deactivate_all ids m j"
    using that by (cases "m j") (auto simp: deactivate_all_def)
qed

lemma suspend_loop_inv:
  assumes "suspend_loop ids s n = Ok (s', m)" "events_inv strict s"
  shows "events_inv strict s' \<and> re_events s' = deactivate_all (set ids) (re_events s)
    \<and> (\<exists>c evs. s' = s\<lparr>re_active_count := c, re_events := evs\<rparr>)"
  using assms
proof (induction ids arbitrary: s n)
  case Nil
  have "s' = s\<lparr>re_active_count := re_active_count s, re_events := re_events s\<rparr>"
    using Nil by simp
  then have "\<exists>c evs. s' = s\<lparr>re_active_count := c, re_events := evs\<rparr>" by blast
  then show ?case using Nil by (simp add: deactivate_all_def)
next
  case (Cons i ids)
  show ?case
  proof (cases "\<exists>e. re_events s i = Some e \<and> ev_is_active e")
    case True
    then obtain e where e: "re_events s i = Some e" "ev_is_active e" by blast
    let ?e = "e\<lparr>ev_is_active := False\<rparr>"
    have i: "ev_event_id e = i" by (rule events_inv_id [OF Cons.prems(2) e(1)])
    obtain s1 where s1: "storage_store_event ?e s = Ok s1"
      and rest: "suspend_loop ids s1 (n + 1) = Ok (s', m)"
      using Cons.prems(1) e by auto
    have upd: "update_event ?e s = Ok s1"
      using s1 store_existing_event [of strict s ?e e] Cons.prems(2) e i by simp
    have inv1: "events_inv strict s1"
      using update_op [OF Cons.prems(2) e(1) upd] by simp
    obtain c where c: "s1 = s\<lparr>re_active_count := c, re_events := (re_events s)(i \<mapsto> ?e)\<rparr>"
      using update_event_frame [OF upd] i by auto
    obtain c' evs where s': "s' = s1\<lparr>re_active_count := c', re_events := evs\<rparr>"
      and IH: "events_inv strict s'" "re_events s' = deactivate_all (set ids) (re_events s1)"
      using Cons.IH [OF rest inv1] by blast
    have "s' = s\<lparr>re_active_count := c', re_events := evs\<rparr>"
      unfolding s' c by simp
    moreover have "re_events s' = deactivate_all (set (i # ids)) (re_events s)"
      using IH(2) deactivate_all_insert [of "re_events s" i e "set ids"] e(1) by (simp add: c)
    ultimately show ?thesis
      using IH(1) by blast
  next
    case False
    then have "suspend_loop ids s n = Ok (s', m)"
      using Cons.prems(1) by (auto split: option.splits)
    then show ?thesis
      using Cons.IH [OF _ Cons.prems(2)] deactivate_all_skip [of "re_events s" i "set ids"] False
      by simp
  qed
qed

lemma suspend_organizer_events_inv:
  assumes "suspend_organizer_events env a s = Ok s'" "events_inv strict s"
  shows "events_inv strict s'
    \<and> re_events s' = deactivate_all (set (get_organizer_events a a s)) (re_events s)"
proof -
  obtain s1 n where s1: "suspend_loop (get_organizer_events a a s) s 0 = Ok (s1, n)"
    and s': "s' = s1 \<or> (\<exists>ev. s' = publish ev s1)"
    using assms(1) by (auto simp: suspend_organizer_events_def split: if_splits)
  show ?thesis
    using suspend_loop_inv [OF s1 assms(2)] s' by auto
qed

lemma events_inv_blacklist:
  assumes "events_inv strict s"
  shows "blacklist_organizer env a r s = Ok s' \<Longrightarrow> events_inv strict s'"
    and "remove_from_blacklist env a r s = Ok s' \<Longrightarrow> events_inv strict s'"
  using assms
  by (auto simp: blacklist_organizer_def remove_from_blacklist_def Let_def split: if_splits
      dest!: suspend_organizer_events_inv)

lemma events_inv_config_ops:
  assumes "events_inv strict s"
  shows "initialize env a w f t s = Ok s' \<Longrightarrow> events_inv strict s'"
    and "add_to_token_whitelist env t s = Ok s' \<Longrightarrow> events_inv strict s'"
    and "remove_from_token_whitelist env t s = Ok s' \<Longrightarrow> events_inv strict s'"
    and "propose_admin env a s = Ok s' \<Longrightarrow> events_inv strict s'"
    and "accept_admin env s = Ok s' \<Longrightarrow> events_inv strict s'"
    and "cancel_admin_proposal env s = Ok s' \<Longrightarrow> events_inv strict s'"
    and "set_ticket_payment_contract env a s = Ok s' \<Longrightarrow> events_inv strict s'"
    and "upgrade env s = Ok s' \<Longrightarrow> events_inv strict s'"
    and "set_global_promo env b e s = Ok s' \<Longrightarrow> events_inv strict s'"
  using assms
  by (auto simp: config_op_defs publish_def events_inv_def split: if_splits)


section \<open>Frames\<close>

text \<open>Event operations leave configuration, transfers and all later parts of the state alone.\<close>

definition event_frame :: "'a reg_events_scheme \<Rightarrow> 'a reg_events_scheme \<Rightarrow> bool" where
  "event_frame s s' \<longleftrightarrow>
     config_part s' = config_part s \<and> rc_transfers s' = rc_transfers s
     \<and> reg_events.more s' = reg_events.more s"

lemma event_frame_refl [simp]: "event_frame s s"
  by (simp add: event_frame_def)

lemma event_frame_trans: "event_frame s t \<Longrightarrow> event_frame t u \<Longrightarrow> event_frame s u"
  by (simp add: event_frame_def)

lemma event_frame_publish [simp]: "event_frame s (publish ev s') = event_frame s s'"
  by (simp add: event_frame_def) (simp add: publish_def)

lemma event_frame_update [simp]:
  "event_frame s (s'\<lparr>re_events := x0\<rparr>) = event_frame s s'"
  "event_frame s (s'\<lparr>re_organizer_event := x1\<rparr>) = event_frame s s'"
  "event_frame s (s'\<lparr>re_organizer_shard := x2\<rparr>) = event_frame s s'"
  "event_frame s (s'\<lparr>re_organizer_count := x3\<rparr>) = event_frame s s'"
  "event_frame s (s'\<lparr>re_receipts := x4\<rparr>) = event_frame s s'"
  "event_frame s (s'\<lparr>re_organizer_receipt := x5\<rparr>) = event_frame s s'"
  "event_frame s (s'\<lparr>re_receipt_shard := x6\<rparr>) = event_frame s s'"
  "event_frame s (s'\<lparr>re_receipt_count := x7\<rparr>) = event_frame s s'"
  "event_frame s (s'\<lparr>re_event_count := x8\<rparr>) = event_frame s s'"
  "event_frame s (s'\<lparr>re_active_count := x9\<rparr>) = event_frame s s'"
  "event_frame s (s'\<lparr>re_blacklisted := x10\<rparr>) = event_frame s s'"
  "event_frame s (s'\<lparr>re_blacklist_log := x11\<rparr>) = event_frame s s'"
  by (simp_all add: event_frame_def config_part_def)

lemma update_event_event_frame: "update_event e s = Ok s' \<Longrightarrow> event_frame s s'"
  by (auto dest!: update_event_frame)

lemma store_event_frame: "storage_store_event e s = Ok s' \<Longrightarrow> event_frame s s'"
  by (auto simp: storage_store_event_def append_organizer_event_def increment_event_count_def
      Let_def split: if_splits dest!: sync_active_event_count_frame)

lemma remove_event_frame: "event_frame s (remove_event i s)"
proof -
  have "event_frame s (remove_from_organizer_index a i s)" for a and s :: "'a reg_events_scheme"
    using remove_from_organizer_index_frame [of a i s] by auto
  then have "event_frame s t \<Longrightarrow> event_frame s (remove_from_organizer_index a i t)" for a t
    by (blast intro: event_frame_trans)
  then show ?thesis
    by (auto simp: remove_event_def Let_def decrement_active_count_def split: option.splits)
qed

lemma event_edited_frame: "event_edited i s s' \<Longrightarrow> event_frame s s'"
  by (auto simp: event_edited_def dest: update_event_event_frame)

lemma suspend_loop_frame: "suspend_loop ids s n = Ok (s', m) \<Longrightarrow> event_frame s s'"
proof (induction ids arbitrary: s n)
  case (Cons i ids)
  then show ?case
    by (auto split: option.splits if_splits dest!: store_event_frame intro: event_frame_trans)
qed simp

lemma event_frame_ops:
  shows "register_event env args s = Ok s' \<Longrightarrow> event_frame s s'"
    and "archive_event env i s = Ok s' \<Longrightarrow> event_frame s s'"
    and "legacy_store_event env e s = Ok s' \<Longrightarrow> event_frame s s'"
    and "blacklist_organizer env a r s = Ok s' \<Longrightarrow> event_frame s s'"
    and "remove_from_blacklist env a r s = Ok s' \<Longrightarrow> event_frame s s'"
proof -
  show "register_event env args s = Ok s' \<Longrightarrow> event_frame s s'"
    by (auto simp: register_event_def split: if_splits dest: store_event_frame)
  show "archive_event env i s = Ok s' \<Longrightarrow> event_frame s s'"
    using remove_event_frame [of s i]
    by (auto simp: archive_event_def split: if_splits option.splits dest!: store_event_receipt_frame)
  show "legacy_store_event env e s = Ok s' \<Longrightarrow> event_frame s s'"
    by (auto simp: legacy_store_event_def split: if_splits dest: store_event_frame)
  have suspend: "suspend_organizer_events env a t = Ok t' \<Longrightarrow> event_frame t t'"
    for t t' :: "'a reg_events_scheme"
    by (auto simp: suspend_organizer_events_def split: if_splits dest: suspend_loop_frame)
  then have "suspend_organizer_events env a t = Ok t' \<Longrightarrow> event_frame s t \<Longrightarrow> event_frame s t'" for t t'
    by (blast intro: event_frame_trans)
  then show "blacklist_organizer env a r s = Ok s' \<Longrightarrow> event_frame s s'"
    "remove_from_blacklist env a r s = Ok s' \<Longrightarrow> event_frame s s'"
    by (auto simp: blacklist_organizer_def remove_from_blacklist_def Let_def split: if_splits)
qed

text \<open>Conversely, governance does not touch the events.\<close>

lemma gov_frame_events:
  assumes "gov_frame s s'"
  shows "re_events s' = re_events s" "re_organizer_event s' = re_organizer_event s"
    "re_organizer_shard s' = re_organizer_shard s" "re_organizer_count s' = re_organizer_count s"
    "re_receipts s' = re_receipts s" "re_organizer_receipt s' = re_organizer_receipt s"
    "re_receipt_shard s' = re_receipt_shard s" "re_receipt_count s' = re_receipt_count s"
    "re_event_count s' = re_event_count s" "re_active_count s' = re_active_count s"
    "re_blacklisted s' = re_blacklisted s" "re_blacklist_log s' = re_blacklist_log s"
    "reg_events.more s' = reg_events.more s"
  using assms by (cases s; cases s'; simp add: gov_frame_def)+

lemma events_inv_gov_frame: "gov_frame s s' \<Longrightarrow> events_inv strict s' = events_inv strict s"
  by (simp add: events_inv_def gov_frame_events)


section \<open>The organizer's event list is a sharded index\<close>

interpretation organizer_index: sharded_index SHARD_SIZE re_organizer_shard re_organizer_count
  append_organizer_event
  by unfold_locales
    (auto simp: SHARD_SIZE_def append_organizer_event_def Let_def)

interpretation receipt_index: sharded_index SHARD_SIZE re_receipt_shard re_receipt_count
  append_organizer_receipt
  by unfold_locales
    (auto simp: SHARD_SIZE_def append_organizer_receipt_def Let_def)

lemma get_organizer_events_contents:
  "get_organizer_events a a s = organizer_index.contents s a"
  by (simp add: get_organizer_events_def organizer_index.contents_def read_shards_def Let_def
      div_ceil_def)

text \<open>Registration appends to the organizer's list; other lists are untouched.\<close>

lemma register_event_index:
  assumes "events_inv strict s" "register_event env args s = Ok s'"
    and "organizer_index.dense s (args_organizer args)"
  shows "get_organizer_events (args_organizer args) (args_organizer args) s'
           = get_organizer_events (args_organizer args) (args_organizer args) s @ [args_event_id args]"
    and "organizer_index.dense s a \<Longrightarrow> organizer_index.dense s' a"
    and "a \<noteq> args_organizer args \<Longrightarrow> get_organizer_events a a s' = get_organizer_events a a s"
proof -
  let ?e = "event_of_args env (rc_platform_fee s) args"
  obtain s1 ev where s1: "storage_store_event ?e s = Ok s1"
    and new: "re_events s (ev_event_id ?e) = None" and s': "s' = publish ev s1"
    using assms(2)
    by (auto simp: register_event_def validate_registration_def event_of_args_def split: if_splits)
  obtain sh n where s1_eq: "re_organizer_shard s1 = sh" "re_organizer_count s1 = n"
    and app: "append_organizer_event (ev_organizer ?e) (ev_event_id ?e) s
      = Ok (s\<lparr>re_organizer_shard := sh, re_organizer_count := n\<rparr>)"
    using store_new_event [OF s1 assms(1) new] by auto
  have same: "organizer_index.contents s' b
        = organizer_index.contents (s\<lparr>re_organizer_shard := sh, re_organizer_count := n\<rparr>) b"
    "organizer_index.dense s' b
        = organizer_index.dense (s\<lparr>re_organizer_shard := sh, re_organizer_count := n\<rparr>) b" for b
    using s1_eq s' by (simp_all add: organizer_index.contents_def organizer_index.dense_def)
  show "get_organizer_events (args_organizer args) (args_organizer args) s'
      = get_organizer_events (args_organizer args) (args_organizer args) s @ [args_event_id args]"
    using organizer_index.append_contents [OF app] assms(3)
    by (simp add: get_organizer_events_contents same event_of_args_def)
  show "organizer_index.dense s a \<Longrightarrow> organizer_index.dense s' a"
    using organizer_index.append_dense [OF app] by (simp add: same)
  show "a \<noteq> args_organizer args \<Longrightarrow> get_organizer_events a a s' = get_organizer_events a a s"
    using organizer_index.append_contents_other [OF app, of a]
    by (simp add: get_organizer_events_contents same event_of_args_def)
qed


section \<open>Well-formed events\<close>

definition release_total :: "event_info \<Rightarrow> nat" where
  "release_total e = (case ev_milestone_plan e of
     Some ms \<Rightarrow> sum_list (map ms_release_percent ms) | None \<Rightarrow> 0)"

text \<open>Supply within its bounds, fees and releases at most 100%, and a cancelled event is not active.\<close>

definition event_ok :: "event_info \<Rightarrow> bool" where
  "event_ok e \<longleftrightarrow>
     0 \<le> ev_current_supply e \<and> (0 < ev_max_supply e \<longrightarrow> ev_current_supply e \<le> ev_max_supply e)
     \<and> bps_ok e \<and> ev_platform_fee_percent e \<le> 10000 \<and> release_total e \<le> 10000
     \<and> (ev_status e = Cancelled \<longrightarrow> \<not> ev_is_active e)"

text \<open>A property of the event stored under one id, if there is one.\<close>

definition event_at :: "string \<Rightarrow> (event_info \<Rightarrow> bool) \<Rightarrow> 'a reg_events_scheme \<Rightarrow> bool" where
  "event_at k P s \<longleftrightarrow> (\<forall>e. re_events s k = Some e \<longrightarrow> P e)"

lemma event_at_publish [simp]: "event_at k P (publish ev s) = event_at k P s"
  by (simp add: event_at_def)

lemma event_at_cong: "re_events s' k = re_events s k \<Longrightarrow> event_at k P s' = event_at k P s"
  by (simp add: event_at_def)

lemma event_at_update:
  "event_at k P s \<Longrightarrow> re_events s' = (re_events s)(i \<mapsto> e) \<Longrightarrow> (i = k \<Longrightarrow> P e) \<Longrightarrow> event_at k P s'"
  by (simp add: event_at_def)

lemma event_at_update_event:
  "event_at k P s \<Longrightarrow> update_event e s = Ok s' \<Longrightarrow> (ev_event_id e = k \<Longrightarrow> P e) \<Longrightarrow> event_at k P s'"
  by (auto simp: event_at_def dest!: update_event_frame split: if_splits)

lemma event_at_edited:
  assumes "events_inv strict s" "event_at k P s" "event_edited i s s'" "\<And>p e. P p \<Longrightarrow> benign_edit p e \<Longrightarrow> P e"
  shows "event_at k P s'"
proof -
  have "event_at k P s1" if "re_events s i = Some p" "update_event e s = Ok s1" "benign_edit p e"
    for p e s1
  proof (rule event_at_update_event [OF assms(2) that(2)])
    assume "ev_event_id e = k"
    then have "i = k" using that(3) events_inv_id [OF assms(1) that(1)] by (simp add: benign_edit_def)
    then show "P e" using assms(2,4) that(1,3) by (auto simp: event_at_def)
  qed
  then show ?thesis
    using assms(2,3) by (auto simp: event_edited_def)
qed

lemma event_ok_benign_edit: "event_ok p \<Longrightarrow> benign_edit p e \<Longrightarrow> event_ok e"
  by (auto simp: event_ok_def benign_edit_def release_total_def)

lemma sum_tier_limits_Ok:
  "sum_tier_limits ts acc = Ok r \<Longrightarrow> r = acc + sum_list (map tier_limit ts)"
  by (induction ts arbitrary: acc) fastforce+

lemma sum_release_bps_Ok:
  "sum_release_bps ms acc = Ok r \<Longrightarrow> r = acc + sum_list (map ms_release_percent ms)"
  by (induction ms arbitrary: acc) fastforce+

lemma validate_registration_Ok:
  assumes "validate_registration args s = Ok ()"
  shows "re_events s (args_event_id args) = None"
    and "length (args_tiers args) \<le> MAX_TIERS_PER_EVENT"
    and "0 < args_max_supply args \<Longrightarrow>
           sum_list (map (tier_limit \<circ> snd) (args_tiers args)) \<le> args_max_supply args"
    and "case args_resale_cap_bps args of Some cap \<Rightarrow> cap \<le> 10000 | None \<Rightarrow> True"
    and "case args_milestone_plan args of
           Some ms \<Rightarrow> sum_list (map ms_release_percent ms) \<le> 10000 | None \<Rightarrow> True"
    and "args_start_time args \<noteq> 0 \<Longrightarrow> args_end_time args \<noteq> 0 \<Longrightarrow>
           args_start_time args < args_end_time args"
  using assms
  by (auto simp: validate_registration_def not_less not_le split: if_splits option.splits
      dest!: sum_tier_limits_Ok sum_release_bps_Ok)

lemma event_ok_event_of_args:
  assumes "validate_registration args s = Ok ()" "fee \<le> 10000"
  shows "event_ok (event_of_args env fee args)"
  using validate_registration_Ok [OF assms(1)] assms(2)
  by (auto simp: event_ok_def event_of_args_def bps_ok_def release_total_def split: option.splits)

lemma register_event_events:
  assumes "events_inv strict s" "register_event env args s = Ok s'"
  shows "re_events s' = (re_events s)(args_event_id args \<mapsto> event_of_args env (rc_platform_fee s) args)"
    and "validate_registration args s = Ok ()" and "args_organizer args \<notin> re_blacklisted s"
    and "authorised env (args_organizer args)"
proof -
  let ?e = "event_of_args env (rc_platform_fee s) args"
  obtain s1 ev where s1: "storage_store_event ?e s = Ok s1"
    and v: "validate_registration args s = Ok ()" and s': "s' = publish ev s1"
    and "args_organizer args \<notin> re_blacklisted s" "authorised env (args_organizer args)"
    using assms(2) by (auto simp: register_event_def split: if_splits)
  moreover have "re_events s (ev_event_id ?e) = None"
    using validate_registration_Ok(1) [OF v] by (simp add: event_of_args_def)
  ultimately show "re_events s' = (re_events s)(args_event_id args \<mapsto> ?e)"
    "validate_registration args s = Ok ()" "args_organizer args \<notin> re_blacklisted s"
    "authorised env (args_organizer args)"
    using store_new_event [OF s1 assms(1)] by (auto simp: event_of_args_def)
qed

lemma archive_event_events:
  assumes "archive_event env i s = Ok s'"
  shows "re_events s' = (re_events s)(i := None)"
  using assms
  by (auto simp: archive_event_def remove_event_events split: option.splits if_splits
      dest!: store_event_receipt_frame)

lemma blacklist_events:
  assumes "events_inv strict s" "blacklist_organizer env a r s = Ok s'"
  shows "re_events s' = (if a \<in> re_blacklisted s then re_events s
           else deactivate_all (set (get_organizer_events a a s)) (re_events s))"
proof -
  have "get_organizer_events a a (publish ev (s\<lparr>re_blacklisted := b, re_blacklist_log := l\<rparr>))
      = get_organizer_events a a s" for ev b l
    by (simp add: get_organizer_events_def Let_def)
  then show ?thesis
    using assms by (auto simp: blacklist_organizer_def Let_def split: if_splits
        dest!: suspend_organizer_events_inv)
qed

lemma remove_from_blacklist_events:
  "remove_from_blacklist env a r s = Ok s' \<Longrightarrow> re_events s' = re_events s"
  by (auto simp: remove_from_blacklist_def split: if_splits)

lemma event_at_ops:
  assumes "events_inv strict s" "event_at k P s"
  shows "archive_event env i s = Ok s' \<Longrightarrow> event_at k P s'"
    and "remove_from_blacklist env a r s = Ok s' \<Longrightarrow> event_at k P s'"
    and "blacklist_organizer env a r s = Ok s' \<Longrightarrow> (\<And>e. P e \<Longrightarrow> P (e\<lparr>ev_is_active := False\<rparr>))
           \<Longrightarrow> event_at k P s'"
  using assms(2)
  by (auto simp: event_at_def archive_event_events blacklist_events [OF assms(1)]
      remove_from_blacklist_events deactivate_all_def split: if_splits)

lemma event_ok_deactivate: "event_ok e \<Longrightarrow> event_ok (e\<lparr>ev_is_active := False\<rparr>)"
  by (simp add: event_ok_def bps_ok_def release_total_def)

lemma event_ok_register:
  assumes "events_inv strict s" "gov_inv s" "event_at k event_ok s" "register_event env args s = Ok s'"
  shows "event_at k event_ok s'"
proof (rule event_at_update [OF assms(3) register_event_events(1) [OF assms(1,4)]])
  show "event_ok (event_of_args env (rc_platform_fee s) args)"
    using event_ok_event_of_args register_event_events(2) [OF assms(1,4)] assms(2)
    by (auto simp: gov_inv_def config_inv_def)
qed

end
