(* ===== verification/Registry_State.thy ===== *)
theory Registry_State
  imports Registry_Events_Inv
begin

text \<open>
  The full storage of the event registry: the configuration and events of the previous theories and
  the keys of the remaining components (\<open>event_registry/src/types.rs\<close>, enum \<open>DataKey\<close>, and the
  instance keys of \<open>bridge.rs\<close> and \<open>teleport.rs\<close>).  A flag stored as \<open>true\<close> or removed is membership
  in a set.
\<close>

record registry = reg_events +
  rs_user_ticket_count :: "string \<times> string \<times> address \<Rightarrow> nat"
  rs_tickets_sold :: "int"
  rs_scanners :: "(string \<times> address) set"
  rs_waitlist :: "(string \<times> address) set"
  rs_team_roles :: "string \<times> address \<rightharpoonup> role"
  rs_paused :: "string set"
  rs_category_events :: "nat \<Rightarrow> string list"
  rs_event_tokens :: "(string \<times> address) set"
  rs_series :: "string \<rightharpoonup> series_registry"
  rs_series_event :: "(string \<times> string) set"
  rs_passes :: "string \<rightharpoonup> series_pass"
  rs_holder_pass :: "address \<times> string \<rightharpoonup> string"
  rs_profiles :: "address \<rightharpoonup> guest_profile"
  rs_stakes :: "address \<rightharpoonup> organizer_stake"
  rs_staking_token :: "address option"
  rs_total_staked :: "int"
  rs_stakers :: "address list"
  rs_disputes :: "string \<rightharpoonup> dispute"
  rs_dispute_votes :: "string \<times> address \<rightharpoonup> dispute_vote"
  rs_vote_shard :: "string \<Rightarrow> nat \<Rightarrow> address list"
  rs_vote_count :: "string \<Rightarrow> nat"
  rs_bridge :: "bridge_config option"
  rs_teleports :: "string set"

definition registry_empty :: registry where
  "registry_empty =
     \<lparr>rc_admin = None, rc_pending_admin = None, rc_multisig = None, rc_platform_wallet = None,
      rc_platform_fee = 0, rc_initialized = False, rc_token_whitelist = {}, rc_ticket_payment = None,
      rc_promo_bps = 0, rc_promo_expiry = 0, rc_proposal_counter = 0, rc_proposals = Map.empty,
      rc_active_proposals = [], rc_min_stake_amount = 0, rc_contract_admin = None,
      rc_approved_organizers = {}, rc_transfers = [], rc_published = [],
      re_events = Map.empty, re_organizer_event = {}, re_organizer_shard = (\<lambda>_ _. []),
      re_organizer_count = (\<lambda>_. 0), re_receipts = Map.empty, re_organizer_receipt = {},
      re_receipt_shard = (\<lambda>_ _. []), re_receipt_count = (\<lambda>_. 0), re_event_count = 0,
      re_active_count = 0, re_blacklisted = {}, re_blacklist_log = [],
      rs_user_ticket_count = (\<lambda>_. 0), rs_tickets_sold = 0, rs_scanners = {},
      rs_waitlist = {}, rs_team_roles = Map.empty, rs_paused = {},
      rs_category_events = (\<lambda>_. []), rs_event_tokens = {}, rs_series = Map.empty,
      rs_series_event = {}, rs_passes = Map.empty, rs_holder_pass = Map.empty,
      rs_profiles = Map.empty, rs_stakes = Map.empty, rs_staking_token = None,
      rs_total_staked = 0, rs_stakers = [], rs_disputes = Map.empty,
      rs_dispute_votes = Map.empty, rs_vote_shard = (\<lambda>_ _. []),
      rs_vote_count = (\<lambda>_. 0), rs_bridge = None, rs_teleports = {}\<rparr>"


section \<open>Independence of the parts\<close>

lemma config_part_update [simp]:
  "config_part (s\<lparr>rs_user_ticket_count := x0\<rparr>) = config_part s"
  "config_part (s\<lparr>rs_tickets_sold := x1\<rparr>) = config_part s"
  "config_part (s\<lparr>rs_scanners := x2\<rparr>) = config_part s"
  "config_part (s\<lparr>rs_waitlist := x3\<rparr>) = config_part s"
  "config_part (s\<lparr>rs_team_roles := x4\<rparr>) = config_part s"
  "config_part (s\<lparr>rs_paused := x5\<rparr>) = config_part s"
  "config_part (s\<lparr>rs_category_events := x6\<rparr>) = config_part s"
  "config_part (s\<lparr>rs_event_tokens := x7\<rparr>) = config_part s"
  "config_part (s\<lparr>rs_series := x8\<rparr>) = config_part s"
  "config_part (s\<lparr>rs_series_event := x9\<rparr>) = config_part s"
  "config_part (s\<lparr>rs_passes := x10\<rparr>) = config_part s"
  "config_part (s\<lparr>rs_holder_pass := x11\<rparr>) = config_part s"
  "config_part (s\<lparr>rs_profiles := x12\<rparr>) = config_part s"
  "config_part (s\<lparr>rs_stakes := x13\<rparr>) = config_part s"
  "config_part (s\<lparr>rs_staking_token := x14\<rparr>) = config_part s"
  "config_part (s\<lparr>rs_total_staked := x15\<rparr>) = config_part s"
  "config_part (s\<lparr>rs_stakers := x16\<rparr>) = config_part s"
  "config_part (s\<lparr>rs_disputes := x17\<rparr>) = config_part s"
  "config_part (s\<lparr>rs_dispute_votes := x18\<rparr>) = config_part s"
  "config_part (s\<lparr>rs_vote_shard := x19\<rparr>) = config_part s"
  "config_part (s\<lparr>rs_vote_count := x20\<rparr>) = config_part s"
  "config_part (s\<lparr>rs_bridge := x21\<rparr>) = config_part s"
  "config_part (s\<lparr>rs_teleports := x22\<rparr>) = config_part s"
  by (simp_all add: config_part_def)

lemma events_inv_update [simp]:
  "events_inv strict (s\<lparr>rs_user_ticket_count := x0\<rparr>) = events_inv strict s"
  "events_inv strict (s\<lparr>rs_tickets_sold := x1\<rparr>) = events_inv strict s"
  "events_inv strict (s\<lparr>rs_scanners := x2\<rparr>) = events_inv strict s"
  "events_inv strict (s\<lparr>rs_waitlist := x3\<rparr>) = events_inv strict s"
  "events_inv strict (s\<lparr>rs_team_roles := x4\<rparr>) = events_inv strict s"
  "events_inv strict (s\<lparr>rs_paused := x5\<rparr>) = events_inv strict s"
  "events_inv strict (s\<lparr>rs_category_events := x6\<rparr>) = events_inv strict s"
  "events_inv strict (s\<lparr>rs_event_tokens := x7\<rparr>) = events_inv strict s"
  "events_inv strict (s\<lparr>rs_series := x8\<rparr>) = events_inv strict s"
  "events_inv strict (s\<lparr>rs_series_event := x9\<rparr>) = events_inv strict s"
  "events_inv strict (s\<lparr>rs_passes := x10\<rparr>) = events_inv strict s"
  "events_inv strict (s\<lparr>rs_holder_pass := x11\<rparr>) = events_inv strict s"
  "events_inv strict (s\<lparr>rs_profiles := x12\<rparr>) = events_inv strict s"
  "events_inv strict (s\<lparr>rs_stakes := x13\<rparr>) = events_inv strict s"
  "events_inv strict (s\<lparr>rs_staking_token := x14\<rparr>) = events_inv strict s"
  "events_inv strict (s\<lparr>rs_total_staked := x15\<rparr>) = events_inv strict s"
  "events_inv strict (s\<lparr>rs_stakers := x16\<rparr>) = events_inv strict s"
  "events_inv strict (s\<lparr>rs_disputes := x17\<rparr>) = events_inv strict s"
  "events_inv strict (s\<lparr>rs_dispute_votes := x18\<rparr>) = events_inv strict s"
  "events_inv strict (s\<lparr>rs_vote_shard := x19\<rparr>) = events_inv strict s"
  "events_inv strict (s\<lparr>rs_vote_count := x20\<rparr>) = events_inv strict s"
  "events_inv strict (s\<lparr>rs_bridge := x21\<rparr>) = events_inv strict s"
  "events_inv strict (s\<lparr>rs_teleports := x22\<rparr>) = events_inv strict s"
  by (simp_all add: events_inv_def)

lemma registry_publish [simp]:
  "rs_user_ticket_count (publish ev s) = rs_user_ticket_count s"
  "rs_tickets_sold (publish ev s) = rs_tickets_sold s"
  "rs_scanners (publish ev s) = rs_scanners s"
  "rs_waitlist (publish ev s) = rs_waitlist s"
  "rs_team_roles (publish ev s) = rs_team_roles s"
  "rs_paused (publish ev s) = rs_paused s"
  "rs_category_events (publish ev s) = rs_category_events s"
  "rs_event_tokens (publish ev s) = rs_event_tokens s"
  "rs_series (publish ev s) = rs_series s"
  "rs_series_event (publish ev s) = rs_series_event s"
  "rs_passes (publish ev s) = rs_passes s"
  "rs_holder_pass (publish ev s) = rs_holder_pass s"
  "rs_profiles (publish ev s) = rs_profiles s"
  "rs_stakes (publish ev s) = rs_stakes s"
  "rs_staking_token (publish ev s) = rs_staking_token s"
  "rs_total_staked (publish ev s) = rs_total_staked s"
  "rs_stakers (publish ev s) = rs_stakers s"
  "rs_disputes (publish ev s) = rs_disputes s"
  "rs_dispute_votes (publish ev s) = rs_dispute_votes s"
  "rs_vote_shard (publish ev s) = rs_vote_shard s"
  "rs_vote_count (publish ev s) = rs_vote_count s"
  "rs_bridge (publish ev s) = rs_bridge s"
  "rs_teleports (publish ev s) = rs_teleports s"
  by (simp_all add: publish_def)

text \<open>Event and governance operations do not touch the components of this record.\<close>

lemma event_frame_registry:
  assumes "event_frame (s :: registry) s'"
  shows "rs_user_ticket_count s' = rs_user_ticket_count s"
    "rs_tickets_sold s' = rs_tickets_sold s"
    "rs_scanners s' = rs_scanners s"
    "rs_waitlist s' = rs_waitlist s"
    "rs_team_roles s' = rs_team_roles s"
    "rs_paused s' = rs_paused s"
    "rs_category_events s' = rs_category_events s"
    "rs_event_tokens s' = rs_event_tokens s"
    "rs_series s' = rs_series s"
    "rs_series_event s' = rs_series_event s"
    "rs_passes s' = rs_passes s"
    "rs_holder_pass s' = rs_holder_pass s"
    "rs_profiles s' = rs_profiles s"
    "rs_stakes s' = rs_stakes s"
    "rs_staking_token s' = rs_staking_token s"
    "rs_total_staked s' = rs_total_staked s"
    "rs_stakers s' = rs_stakers s"
    "rs_disputes s' = rs_disputes s"
    "rs_dispute_votes s' = rs_dispute_votes s"
    "rs_vote_shard s' = rs_vote_shard s"
    "rs_vote_count s' = rs_vote_count s"
    "rs_bridge s' = rs_bridge s"
    "rs_teleports s' = rs_teleports s"
  using assms by (cases s; cases s'; simp add: event_frame_def)+

lemma gov_frame_registry:
  assumes "gov_frame (s :: registry) s'"
  shows "rs_user_ticket_count s' = rs_user_ticket_count s"
    "rs_tickets_sold s' = rs_tickets_sold s"
    "rs_scanners s' = rs_scanners s"
    "rs_waitlist s' = rs_waitlist s"
    "rs_team_roles s' = rs_team_roles s"
    "rs_paused s' = rs_paused s"
    "rs_category_events s' = rs_category_events s"
    "rs_event_tokens s' = rs_event_tokens s"
    "rs_series s' = rs_series s"
    "rs_series_event s' = rs_series_event s"
    "rs_passes s' = rs_passes s"
    "rs_holder_pass s' = rs_holder_pass s"
    "rs_profiles s' = rs_profiles s"
    "rs_stakes s' = rs_stakes s"
    "rs_staking_token s' = rs_staking_token s"
    "rs_total_staked s' = rs_total_staked s"
    "rs_stakers s' = rs_stakers s"
    "rs_disputes s' = rs_disputes s"
    "rs_dispute_votes s' = rs_dispute_votes s"
    "rs_vote_shard s' = rs_vote_shard s"
    "rs_vote_count s' = rs_vote_count s"
    "rs_bridge s' = rs_bridge s"
    "rs_teleports s' = rs_teleports s"
  using assms by (cases s; cases s'; simp add: gov_frame_def)+

end
