(* ===== verification/Registry_Inventory.thy ===== *)
theory Registry_Inventory
  imports Registry_State
begin

text \<open>
  Ticket inventory of the registry: the supply counters the ticket contract moves on a sale and a
  refund, the tiers, per-user limits, and the mint of a ticket bought on another chain
  (\<open>event_registry/src/lib.rs\<close> lines 870 to 1143 and 1688 to 1796, \<open>bridge.rs\<close>, \<open>teleport.rs\<close>).
  The supply never exceeds the maximum that the organizer set, and a cross-chain transaction is
  minted at most once.
\<close>

section \<open>Storage\<close>

definition add_to_global_tickets_sold :: "int \<Rightarrow> registry \<Rightarrow> registry" where
  [contract_defs]:
  "add_to_global_tickets_sold quantity s =
     s\<lparr>rs_tickets_sold := saturating_add_i128 (rs_tickets_sold s) quantity\<rparr>"

definition add_to_user_ticket_count ::
    "string \<Rightarrow> string \<Rightarrow> address \<Rightarrow> nat \<Rightarrow> registry \<Rightarrow> registry" where
  [contract_defs]:
  "add_to_user_ticket_count event_id tier_id user quantity s =
     s\<lparr>rs_user_ticket_count := (rs_user_ticket_count s)((event_id, tier_id, user) :=
         saturating_add_u 32 (rs_user_ticket_count s (event_id, tier_id, user)) quantity)\<rparr>"


section \<open>Operations\<close>

text \<open>The writes of a sale, once every check has passed.\<close>

definition record_sale ::
    "env \<Rightarrow> string \<Rightarrow> string \<Rightarrow> address \<Rightarrow> nat \<Rightarrow> event_info \<Rightarrow> ticket_tier \<Rightarrow> int \<Rightarrow> int \<Rightarrow> registry
     \<Rightarrow> (registry_error, registry) result" where
  "record_sale env event_id tier_id user quantity event_info tier new_tier_sold new_supply s =
     (let tier' = tier\<lparr>tier_current_sold := new_tier_sold\<rparr>;
          event1 = event_info\<lparr>ev_tiers := map_set tier_id tier' (ev_tiers event_info),
                     ev_current_supply := new_supply\<rparr>;
          s1 = (if tier_max_per_user tier > 0
                then add_to_user_ticket_count event_id tier_id user quantity s else s);
          s2 = add_to_global_tickets_sold (int quantity) s1;
          goal = (\<not> ev_goal_met event1 \<and> ev_min_sales_target event1 > 0
                  \<and> ev_current_supply event1 \<ge> ev_min_sales_target event1);
          event2 = (if goal then event1\<lparr>ev_goal_met := True\<rparr> else event1);
          s3 = (if goal
                then publish (GoalMet_event event_id (ev_min_sales_target event1)
                       (ev_current_supply event1) (timestamp env)) s2
                else s2)
      in
      rbind (update_event event2 s3) (\<lambda>s4.
      Ok (publish (InventoryIncremented_event event_id new_supply (timestamp env)) s4)))"

definition increment_inventory ::
    "env \<Rightarrow> string \<Rightarrow> string \<Rightarrow> address \<Rightarrow> nat \<Rightarrow> address \<Rightarrow> registry
     \<Rightarrow> (registry_error, registry) result" where
  "increment_inventory env event_id tier_id user quantity payment_token s =
     rbind (ok_or (rc_ticket_payment s) NotInitialized) (\<lambda>ticket_payment_addr.
     rbind (require_auth env ticket_payment_addr) (\<lambda>_.
     if quantity = 0 then Err InvalidQuantity
     else
       rbind (ok_or (re_events s event_id) EventNotFound) (\<lambda>event_info.
       if \<not> ev_is_active event_info \<or> ev_status event_info = Cancelled then Err EventInactive
       else if ev_accepted_tokens event_info \<noteq> []
         \<and> payment_token \<notin> set (ev_accepted_tokens event_info)
       then Err TokenNotAccepted
       else
         rbind (if ev_max_supply event_info > 0
                then
                  rbind (ok_or (checked_add_i128 (ev_current_supply event_info) (int quantity))
                           SupplyOverflow) (\<lambda>new_total_supply.
                  if new_total_supply > ev_max_supply event_info then Err MaxSupplyExceeded
                  else Ok ())
                else Ok ()) (\<lambda>_.
         rbind (ok_or (map_of (ev_tiers event_info) tier_id) TierNotFound) (\<lambda>tier.
         rbind (ok_or (checked_add_i128 (tier_current_sold tier) (int quantity)) SupplyOverflow)
           (\<lambda>new_tier_sold.
         if new_tier_sold > tier_limit tier then Err TierSoldOut
         else
           rbind (if tier_max_per_user tier > 0
                  then
                    rbind (ok_or (checked_add_u 32
                                    (rs_user_ticket_count s (event_id, tier_id, user)) quantity)
                             SupplyOverflow) (\<lambda>new_user_count.
                    if new_user_count > tier_max_per_user tier then Err PerUserLimitExceeded
                    else Ok ())
                  else Ok ()) (\<lambda>_.
           rbind (ok_or (checked_add_i128 (ev_current_supply event_info) (int quantity))
                    SupplyOverflow) (\<lambda>new_supply.
           record_sale env event_id tier_id user quantity event_info tier new_tier_sold new_supply
             s))))))))"

definition is_tier_sold_out :: "string \<Rightarrow> string \<Rightarrow> registry \<Rightarrow> (registry_error, bool) result" where
  "is_tier_sold_out event_id tier_id s =
     rbind (ok_or (re_events s event_id) EventNotFound) (\<lambda>event_info.
     rbind (ok_or (map_of (ev_tiers event_info) tier_id) TierNotFound) (\<lambda>tier.
     Ok (tier_current_sold tier \<ge> tier_limit tier)))"

definition add_tier ::
    "env \<Rightarrow> string \<Rightarrow> string \<Rightarrow> ticket_tier \<Rightarrow> registry \<Rightarrow> (registry_error, registry) result" where
  "add_tier env event_id tier_id tier s =
     rbind (ok_or (re_events s event_id) EventNotFound) (\<lambda>event_info.
     rbind (require_auth env (ev_organizer event_info)) (\<lambda>_.
     rbind (if ev_max_supply event_info > 0
            then
              rbind (sum_tier_limits (map snd (ev_tiers event_info)) 0) (\<lambda>existing.
              rbind (ok_or (checked_add_i128 existing (tier_limit tier)) SupplyOverflow)
                (\<lambda>total_tier_limit.
              if total_tier_limit > ev_max_supply event_info then Err TierLimitExceeds else Ok ()))
            else Ok ()) (\<lambda>_.
     update_event (event_info\<lparr>ev_tiers := map_set tier_id tier (ev_tiers event_info)\<rparr>) s)))"

definition deactivate_tier ::
    "env \<Rightarrow> string \<Rightarrow> string \<Rightarrow> registry \<Rightarrow> (registry_error, registry) result" where
  "deactivate_tier env event_id tier_id s =
     rbind (ok_or (re_events s event_id) EventNotFound) (\<lambda>event_info.
     rbind (require_auth env (ev_organizer event_info)) (\<lambda>_.
     rbind (ok_or (map_of (ev_tiers event_info) tier_id) TierNotFound) (\<lambda>tier.
     update_event (event_info\<lparr>ev_tiers :=
         map_set tier_id (tier\<lparr>tier_limit := tier_current_sold tier\<rparr>) (ev_tiers event_info)\<rparr>) s)))"

definition decrement_inventory ::
    "env \<Rightarrow> string \<Rightarrow> string \<Rightarrow> registry \<Rightarrow> (registry_error, registry) result" where
  "decrement_inventory env event_id tier_id s =
     rbind (ok_or (rc_ticket_payment s) NotInitialized) (\<lambda>ticket_payment_addr.
     rbind (require_auth env ticket_payment_addr) (\<lambda>_.
     rbind (ok_or (re_events s event_id) EventNotFound) (\<lambda>event_info.
     rbind (ok_or (map_of (ev_tiers event_info) tier_id) TierNotFound) (\<lambda>tier.
     if tier_current_sold tier \<le> 0 then Err SupplyUnderflow
     else
       rbind (ok_or (checked_sub_i128 (tier_current_sold tier) 1) SupplyUnderflow) (\<lambda>sold.
       if ev_current_supply event_info \<le> 0 then Err SupplyUnderflow
       else
         rbind (ok_or (checked_sub_i128 (ev_current_supply event_info) 1) SupplyUnderflow)
           (\<lambda>new_supply.
         rbind (update_event (event_info\<lparr>ev_tiers :=
                    map_set tier_id (tier\<lparr>tier_current_sold := sold\<rparr>) (ev_tiers event_info),
                  ev_current_supply := new_supply\<rparr>) s) (\<lambda>s1.
         Ok (publish (InventoryDecremented_event event_id new_supply (timestamp env)) s1))))))))"


section \<open>Cross-chain mint\<close>

definition set_bridge_config :: "bridge_config \<Rightarrow> registry \<Rightarrow> registry" where
  "set_bridge_config config s = s\<lparr>rs_bridge := Some config\<rparr>"

definition track_teleport :: "string \<Rightarrow> registry \<Rightarrow> registry" where
  [contract_defs]: "track_teleport tx_hash s = s\<lparr>rs_teleports := insert tx_hash (rs_teleports s)\<rparr>"

definition execute_teleport_mint ::
    "env \<Rightarrow> string \<Rightarrow> string \<Rightarrow> nat \<Rightarrow> registry \<Rightarrow> (registry_error, registry) result" where
  "execute_teleport_mint env tier_id event_id quantity s =
     rbind (ok_or (re_events s event_id) EventNotFound) (\<lambda>event_info.
     if \<not> ev_is_active event_info \<or> ev_status event_info = Cancelled then Err EventInactive
     else
       rbind (if ev_max_supply event_info > 0
              then
                rbind (ok_or (checked_add_i128 (ev_current_supply event_info) (int quantity))
                         SupplyOverflow) (\<lambda>new_total_supply.
                if new_total_supply > ev_max_supply event_info then Err MaxSupplyExceeded else Ok ())
              else Ok ()) (\<lambda>_.
       rbind (ok_or (map_of (ev_tiers event_info) tier_id) TierNotFound) (\<lambda>tier.
       rbind (ok_or (checked_add_i128 (tier_current_sold tier) (int quantity)) SupplyOverflow)
         (\<lambda>new_tier_sold.
       if new_tier_sold > tier_limit tier then Err TierSoldOut
       else
         rbind (ok_or (checked_add_i128 (ev_current_supply event_info) (int quantity))
                  SupplyOverflow) (\<lambda>new_supply.
         rbind (update_event (event_info\<lparr>ev_tiers :=
                    map_set tier_id (tier\<lparr>tier_current_sold := new_tier_sold\<rparr>) (ev_tiers event_info),
                  ev_current_supply := new_supply\<rparr>)
                  (add_to_global_tickets_sold (int quantity) s)) (\<lambda>s1.
         Ok (publish (InventoryIncremented_event event_id new_supply (timestamp env)) s1)))))))"

text \<open>The signatures are only counted, so a list of byte strings is all the model needs of them.\<close>

definition mint_cross_chain_ticket ::
    "env \<Rightarrow> string \<Rightarrow> string \<Rightarrow> string list \<Rightarrow> string \<Rightarrow> nat \<Rightarrow> registry
     \<Rightarrow> (registry_error, registry) result" where
  "mint_cross_chain_ticket env origin_tx_hash ticket_tier_id signatures event_id quantity s =
     (if origin_tx_hash \<in> rs_teleports s then Err ReplayAttackDetected
      else
        rbind (ok_or (rs_bridge s) NotInitialized) (\<lambda>config.
        if length signatures < bridge_threshold config then Err InsufficientSignatures
        else execute_teleport_mint env ticket_tier_id event_id quantity
               (track_teleport origin_tx_hash s)))"


section \<open>What a sale does\<close>

text \<open>Every condition of the code on a sale, as one predicate.\<close>

definition sale_ok ::
    "env \<Rightarrow> string \<Rightarrow> string \<Rightarrow> address \<Rightarrow> nat \<Rightarrow> address \<Rightarrow> registry \<Rightarrow> event_info \<Rightarrow> ticket_tier \<Rightarrow> bool" where
  "sale_ok env i j user q tok s e t \<longleftrightarrow>
     (\<exists>tp. rc_ticket_payment s = Some tp \<and> authorised env tp) \<and> 0 < q
     \<and> re_events s i = Some e \<and> map_of (ev_tiers e) j = Some t
     \<and> ev_is_active e \<and> ev_status e \<noteq> Cancelled
     \<and> (ev_accepted_tokens e = [] \<or> tok \<in> set (ev_accepted_tokens e))
     \<and> in_i128 (ev_current_supply e + int q)
     \<and> (0 < ev_max_supply e \<longrightarrow> ev_current_supply e + int q \<le> ev_max_supply e)
     \<and> in_i128 (tier_current_sold t + int q) \<and> tier_current_sold t + int q \<le> tier_limit t
     \<and> (0 < tier_max_per_user t \<longrightarrow>
          rs_user_ticket_count s (i, j, user) + q < 2 ^ 32
          \<and> rs_user_ticket_count s (i, j, user) + q \<le> tier_max_per_user t)"

definition sold_event :: "string \<Rightarrow> nat \<Rightarrow> event_info \<Rightarrow> ticket_tier \<Rightarrow> event_info" where
  "sold_event j q e t =
     e\<lparr>ev_tiers := map_set j (t\<lparr>tier_current_sold := tier_current_sold t + int q\<rparr>) (ev_tiers e),
       ev_current_supply := ev_current_supply e + int q,
       ev_goal_met := ev_goal_met e
         \<or> (0 < ev_min_sales_target e \<and> ev_min_sales_target e \<le> ev_current_supply e + int q)\<rparr>"

definition sale_counters ::
    "string \<Rightarrow> string \<Rightarrow> address \<Rightarrow> nat \<Rightarrow> ticket_tier \<Rightarrow> registry \<Rightarrow> registry" where
  "sale_counters i j user q t s =
     s\<lparr>rs_user_ticket_count :=
         (if 0 < tier_max_per_user t
          then (rs_user_ticket_count s)((i, j, user) := rs_user_ticket_count s (i, j, user) + q)
          else rs_user_ticket_count s),
       rs_tickets_sold := saturating_add_i128 (rs_tickets_sold s) (int q)\<rparr>"

lemma saturating_add_u_exact: "a + b < 2 ^ w \<Longrightarrow> saturating_add_u w a b = a + b"
  by (simp add: saturating_add_u_def)

lemma update_same_status:
  assumes "re_events s (ev_event_id e) = Some p" "ev_is_active e = ev_is_active p"
    and "ev_is_private e = ev_is_private p"
  shows "update_event e s = Ok (s\<lparr>re_events := (re_events s)(ev_event_id e \<mapsto> e)\<rparr>)"
  using assms by (auto simp: update_event_def sync_active_event_count_def)

lemma increment_inventory_sale_ok:
  assumes "increment_inventory env i j user q tok s = Ok s'"
  shows "\<exists>e t. sale_ok env i j user q tok s e t"
proof -
  obtain e where e: "re_events s i = Some e"
    using assms by (auto simp: increment_inventory_def split: if_splits)
  obtain t where t: "map_of (ev_tiers e) j = Some t"
    using assms e by (auto simp: increment_inventory_def split: if_splits)
  have "sale_ok env i j user q tok s e t"
    using assms e t
    by (auto simp: increment_inventory_def sale_ok_def not_less not_le simp del: of_nat_less_iff
        split: if_splits)
  then show ?thesis by blast
qed

lemma increment_inventory_Ok:
  assumes "events_inv strict s" "sale_ok env i j user q tok s e t"
  shows "\<exists>evs. increment_inventory env i j user q tok s =
    Ok ((sale_counters i j user q t s)\<lparr>re_events := (re_events s)(i \<mapsto> sold_event j q e t),
          rc_published := rc_published s @ evs\<rparr>)"
proof -
  have id: "ev_event_id e = i"
    using assms by (auto simp: sale_ok_def dest: events_inv_id)
  have upd: "update_event e' s0 = Ok (s0\<lparr>re_events := (re_events s)(i \<mapsto> e')\<rparr>)"
    if "re_events s0 = re_events s" "ev_event_id e' = i" "ev_is_active e' = ev_is_active e"
      "ev_is_private e' = ev_is_private e" for s0 :: registry and e'
    using update_same_status [of s0 e' e] assms(2) that by (simp add: sale_ok_def)
  let ?e1 = "e\<lparr>ev_tiers := map_set j (t\<lparr>tier_current_sold := tier_current_sold t + int q\<rparr>) (ev_tiers e),
    ev_current_supply := ev_current_supply e + int q\<rparr>"
  let ?goal = "\<not> ev_goal_met e \<and> 0 < ev_min_sales_target e
    \<and> ev_min_sales_target e \<le> ev_current_supply e + int q"
  have sold: "(if ?goal then ?e1\<lparr>ev_goal_met := True\<rparr> else ?e1) = sold_event j q e t"
    by (auto simp: sold_event_def)
  let ?s1 = "if tier_max_per_user t > 0 then add_to_user_ticket_count i j user q s else s"
  have s2: "add_to_global_tickets_sold (int q) ?s1 = sale_counters i j user q t s"
    using assms(2)
    by (auto simp: sale_ok_def sale_counters_def contract_defs saturating_add_u_exact)
  let ?evs = "(if ?goal then [GoalMet_event i (ev_min_sales_target e)
    (ev_current_supply e + int q) (timestamp env)] else [])
    @ [InventoryIncremented_event i (ev_current_supply e + int q) (timestamp env)]"
  let ?inc = "InventoryIncremented_event i (ev_current_supply e + int q) (timestamp env)"
  let ?goal_ev = "GoalMet_event i (ev_min_sales_target e) (ev_current_supply e + int q) (timestamp env)"
  have rs: "record_sale env i j user q e t (tier_current_sold t + int q) (ev_current_supply e + int q) s
      = rbind (update_event (if ?goal then ?e1\<lparr>ev_goal_met := True\<rparr> else ?e1)
          (if ?goal then publish ?goal_ev (sale_counters i j user q t s) else sale_counters i j user q t s))
          (\<lambda>s4. Ok (publish ?inc s4))"
    unfolding s2 [symmetric] by (simp add: record_sale_def Let_def cong: if_cong split del: if_split)
  have "record_sale env i j user q e t (tier_current_sold t + int q) (ev_current_supply e + int q) s
      = Ok ((sale_counters i j user q t s)\<lparr>re_events := (re_events s)(i \<mapsto> sold_event j q e t),
             rc_published := rc_published s @ ?evs\<rparr>)"
  proof (cases ?goal)
    case True
    then have sold1: "sold_event j q e t = ?e1\<lparr>ev_goal_met := True\<rparr>" using sold by simp
    show ?thesis
      unfolding rs if_P [OF True] sold1 by (simp add: upd id publish_def sale_counters_def)
  next
    case False
    then have sold1: "sold_event j q e t = ?e1" using sold by auto
    show ?thesis
      unfolding rs if_not_P [OF False] sold1 by (simp add: upd id publish_def sale_counters_def)
  qed
  moreover have "increment_inventory env i j user q tok s =
      record_sale env i j user q e t (tier_current_sold t + int q) (ev_current_supply e + int q) s"
    using assms(2)
    by (auto simp: increment_inventory_def sale_ok_def checked_add_i128_def checked_i128_def
        checked_add_u_def require_auth_def)
  ultimately show ?thesis by auto
qed

lemma events_inv_replace:
  assumes "events_inv strict s" "re_events s i = Some e" "ev_event_id e' = i"
    and "ev_organizer e' = ev_organizer e" "ev_is_active e' = ev_is_active e"
    and "ev_is_private e' = ev_is_private e"
  shows "events_inv strict (s\<lparr>re_events := (re_events s)(i \<mapsto> e')\<rparr>)"
  using events_inv_update_event [OF assms(1,2) update_same_status [of s e' e]] assms
  by (simp add: miscounted_def)

lemma decrement_inventory_OkE:
  assumes "decrement_inventory env i j s = Ok s'" "events_inv strict s"
  obtains tp e t ev where "rc_ticket_payment s = Some tp" "authorised env tp"
    "re_events s i = Some e" "map_of (ev_tiers e) j = Some t"
    "0 < tier_current_sold t" "0 < ev_current_supply e"
    "s' = publish ev (s\<lparr>re_events := (re_events s)(i \<mapsto> e\<lparr>ev_tiers :=
            map_set j (t\<lparr>tier_current_sold := tier_current_sold t - 1\<rparr>) (ev_tiers e),
            ev_current_supply := ev_current_supply e - 1\<rparr>)\<rparr>)"
proof -
  obtain tp e t where *: "rc_ticket_payment s = Some tp" "authorised env tp"
    "re_events s i = Some e" "map_of (ev_tiers e) j = Some t"
    using assms(1) by (auto simp: decrement_inventory_def)
  let ?e = "e\<lparr>ev_tiers := map_set j (t\<lparr>tier_current_sold := tier_current_sold t - 1\<rparr>) (ev_tiers e),
    ev_current_supply := ev_current_supply e - 1\<rparr>"
  have "update_event ?e s = Ok (s\<lparr>re_events := (re_events s)(i \<mapsto> ?e)\<rparr>)"
    using update_same_status [of s ?e e] * events_inv_id [OF assms(2)] by simp
  then have "0 < tier_current_sold t \<and> 0 < ev_current_supply e
      \<and> (\<exists>ev. s' = publish ev (s\<lparr>re_events := (re_events s)(i \<mapsto> ?e)\<rparr>))"
    using assms(1) * by (auto simp: decrement_inventory_def split: if_splits)
  then show thesis using that [OF *] by blast
qed

lemma mint_cross_chain_ticket_OkE:
  assumes "mint_cross_chain_ticket env h j sigs i q s = Ok s'" "events_inv strict s"
  obtains config e t ev where "h \<notin> rs_teleports s" "rs_bridge s = Some config"
    "bridge_threshold config \<le> length sigs"
    "re_events s i = Some e" "map_of (ev_tiers e) j = Some t"
    "ev_is_active e" "ev_status e \<noteq> Cancelled"
    "0 < ev_max_supply e \<longrightarrow> ev_current_supply e + int q \<le> ev_max_supply e"
    "tier_current_sold t + int q \<le> tier_limit t"
    "s' = publish ev (s\<lparr>rs_teleports := insert h (rs_teleports s),
            rs_tickets_sold := saturating_add_i128 (rs_tickets_sold s) (int q),
            re_events := (re_events s)(i \<mapsto> e\<lparr>ev_tiers :=
              map_set j (t\<lparr>tier_current_sold := tier_current_sold t + int q\<rparr>) (ev_tiers e),
              ev_current_supply := ev_current_supply e + int q\<rparr>)\<rparr>)"
proof -
  obtain config e t where *: "h \<notin> rs_teleports s" "rs_bridge s = Some config"
    "bridge_threshold config \<le> length sigs"
    "re_events s i = Some e" "map_of (ev_tiers e) j = Some t"
    using assms(1)
    by (auto simp: mint_cross_chain_ticket_def execute_teleport_mint_def contract_defs not_less
        split: if_splits)
  let ?e = "e\<lparr>ev_tiers := map_set j (t\<lparr>tier_current_sold := tier_current_sold t + int q\<rparr>) (ev_tiers e),
    ev_current_supply := ev_current_supply e + int q\<rparr>"
  let ?s = "s\<lparr>rs_teleports := insert h (rs_teleports s),
    rs_tickets_sold := saturating_add_i128 (rs_tickets_sold s) (int q)\<rparr>"
  have "update_event ?e ?s = Ok (?s\<lparr>re_events := (re_events s)(i \<mapsto> ?e)\<rparr>)"
    using update_same_status [of ?s ?e e] * events_inv_id [OF assms(2)] by simp
  then have "ev_is_active e \<and> ev_status e \<noteq> Cancelled
      \<and> (0 < ev_max_supply e \<longrightarrow> ev_current_supply e + int q \<le> ev_max_supply e)
      \<and> tier_current_sold t + int q \<le> tier_limit t
      \<and> (\<exists>ev. s' = publish ev (?s\<lparr>re_events := (re_events s)(i \<mapsto> ?e)\<rparr>))"
    using assms(1) *
    by (auto simp: mint_cross_chain_ticket_def execute_teleport_mint_def contract_defs not_less
        split: if_splits)
  then show thesis using that [OF *] by blast
qed

lemma tier_ops_OkE:
  assumes "add_tier env i j t s = Ok s' \<or> deactivate_tier env i j s = Ok s'" "events_inv strict s"
  obtains e t' where "re_events s i = Some e" "authorised env (ev_organizer e)"
    "s' = s\<lparr>re_events := (re_events s)(i \<mapsto> e\<lparr>ev_tiers := map_set j t' (ev_tiers e)\<rparr>)\<rparr>"
proof -
  obtain e where e: "re_events s i = Some e" "authorised env (ev_organizer e)"
    using assms(1) by (auto simp: add_tier_def deactivate_tier_def)
  have "update_event (e\<lparr>ev_tiers := m\<rparr>) s = Ok (s\<lparr>re_events := (re_events s)(i \<mapsto> e\<lparr>ev_tiers := m\<rparr>)\<rparr>)" for m
    using update_same_status [of s "e\<lparr>ev_tiers := m\<rparr>" e] e events_inv_id [OF assms(2)] by simp
  then have "\<exists>t'. s' = s\<lparr>re_events := (re_events s)(i \<mapsto> e\<lparr>ev_tiers := map_set j t' (ev_tiers e)\<rparr>)\<rparr>"
    using assms(1) e by (auto simp: add_tier_def deactivate_tier_def split: if_splits)
  then show thesis using that [OF e] by blast
qed


section \<open>Preservation\<close>

lemma events_inv_inventory_ops:
  assumes "events_inv strict s"
  shows "increment_inventory env i j user q tok s = Ok s' \<Longrightarrow> events_inv strict s'"
    and "decrement_inventory env i j s = Ok s' \<Longrightarrow> events_inv strict s'"
    and "add_tier env i j t s = Ok s' \<Longrightarrow> events_inv strict s'"
    and "deactivate_tier env i j s = Ok s' \<Longrightarrow> events_inv strict s'"
    and "mint_cross_chain_ticket env h j sigs i q s = Ok s' \<Longrightarrow> events_inv strict s'"
proof -
  show "increment_inventory env i j user q tok s = Ok s' \<Longrightarrow> events_inv strict s'"
  proof -
    assume inc: "increment_inventory env i j user q tok s = Ok s'"
    obtain e t where ok: "sale_ok env i j user q tok s e t"
      using increment_inventory_sale_ok [OF inc] by blast
    obtain evs where s': "s' = (sale_counters i j user q t s)
        \<lparr>re_events := (re_events s)(i \<mapsto> sold_event j q e t), rc_published := rc_published s @ evs\<rparr>"
      using increment_inventory_Ok [OF assms ok] inc by auto
    have e: "re_events s i = Some e" using ok by (simp add: sale_ok_def)
    have "events_inv strict (s\<lparr>re_events := (re_events s)(i \<mapsto> sold_event j q e t)\<rparr>)"
      using events_inv_replace [OF assms e] events_inv_id [OF assms e] by (simp add: sold_event_def)
    then show ?thesis by (simp add: s' events_inv_def sale_counters_def)
  qed
  have tiers: "events_inv strict s'" if "add_tier env i j t s = Ok s' \<or> deactivate_tier env i j s = Ok s'"
    using that assms
  proof (rule tier_ops_OkE)
    fix e t'
    assume "re_events s i = Some e"
      "s' = s\<lparr>re_events := (re_events s)(i \<mapsto> e\<lparr>ev_tiers := map_set j t' (ev_tiers e)\<rparr>)\<rparr>"
    then show ?thesis using events_inv_replace [OF assms] events_inv_id [OF assms] by simp
  qed
  show "add_tier env i j t s = Ok s' \<Longrightarrow> events_inv strict s'" using tiers by blast
  show "deactivate_tier env i j s = Ok s' \<Longrightarrow> events_inv strict s'" using tiers by blast
  show "decrement_inventory env i j s = Ok s' \<Longrightarrow> events_inv strict s'"
    by (erule decrement_inventory_OkE [OF _ assms])
      (simp add: events_inv_replace [OF assms] events_inv_id [OF assms])
  show "mint_cross_chain_ticket env h j sigs i q s = Ok s' \<Longrightarrow> events_inv strict s'"
  proof (erule mint_cross_chain_ticket_OkE [OF _ assms])
    fix config and e :: event_info and t :: ticket_tier and ev
    let ?e = "e\<lparr>ev_tiers := map_set j (t\<lparr>tier_current_sold := tier_current_sold t + int q\<rparr>) (ev_tiers e),
      ev_current_supply := ev_current_supply e + int q\<rparr>"
    assume e: "re_events s i = Some e"
      and s': "s' = publish ev (s\<lparr>rs_teleports := insert h (rs_teleports s),
            rs_tickets_sold := saturating_add_i128 (rs_tickets_sold s) (int q),
            re_events := (re_events s)(i \<mapsto> ?e)\<rparr>)"
    have "events_inv strict (s\<lparr>re_events := (re_events s)(i \<mapsto> ?e)\<rparr>)"
      using events_inv_replace [OF assms e] events_inv_id [OF assms e] by simp
    then show ?thesis by (simp add: s' events_inv_def)
  qed
qed


text \<open>The parts of the state that inventory operations can change: events, log and three counters.\<close>

definition inventory_frame :: "registry \<Rightarrow> registry \<Rightarrow> bool" where
  "inventory_frame s s' \<longleftrightarrow>
     s'\<lparr>re_events := re_events s, rc_published := rc_published s,
        rs_user_ticket_count := rs_user_ticket_count s, rs_tickets_sold := rs_tickets_sold s,
        rs_teleports := rs_teleports s\<rparr> = s"

lemma inventory_frame_ops:
  assumes "events_inv strict s"
  shows "increment_inventory env i j user q tok s = Ok s' \<Longrightarrow> inventory_frame s s'"
    and "decrement_inventory env i j s = Ok s' \<Longrightarrow> inventory_frame s s'"
    and "add_tier env i j t s = Ok s' \<Longrightarrow> inventory_frame s s'"
    and "deactivate_tier env i j s = Ok s' \<Longrightarrow> inventory_frame s s'"
    and "mint_cross_chain_ticket env h j sigs i q s = Ok s' \<Longrightarrow> inventory_frame s s'"
proof -
  show "increment_inventory env i j user q tok s = Ok s' \<Longrightarrow> inventory_frame s s'"
  proof -
    assume inc: "increment_inventory env i j user q tok s = Ok s'"
    obtain e t where ok: "sale_ok env i j user q tok s e t"
      using increment_inventory_sale_ok [OF inc] by blast
    then show ?thesis
      using increment_inventory_Ok [OF assms ok] inc by (auto simp: inventory_frame_def sale_counters_def)
  qed
  show "decrement_inventory env i j s = Ok s' \<Longrightarrow> inventory_frame s s'"
    by (elim decrement_inventory_OkE [OF _ assms]) (simp add: publish_def inventory_frame_def)
  have tiers: "inventory_frame s s'"
    if "add_tier env i j t s = Ok s' \<or> deactivate_tier env i j s = Ok s'"
    by (rule tier_ops_OkE [OF that assms]) (simp add: inventory_frame_def)
  show "add_tier env i j t s = Ok s' \<Longrightarrow> inventory_frame s s'" using tiers by blast
  show "deactivate_tier env i j s = Ok s' \<Longrightarrow> inventory_frame s s'" using tiers by blast
  show "mint_cross_chain_ticket env h j sigs i q s = Ok s' \<Longrightarrow> inventory_frame s s'"
    by (elim mint_cross_chain_ticket_OkE [OF _ assms]) (simp add: publish_def inventory_frame_def)
qed

lemma event_ok_inventory_ops:
  assumes "events_inv strict s" "event_at k event_ok s"
  shows "increment_inventory env i j user q tok s = Ok s' \<Longrightarrow> event_at k event_ok s'"
    and "decrement_inventory env i j s = Ok s' \<Longrightarrow> event_at k event_ok s'"
    and "add_tier env i j t s = Ok s' \<Longrightarrow> event_at k event_ok s'"
    and "deactivate_tier env i j s = Ok s' \<Longrightarrow> event_at k event_ok s'"
    and "mint_cross_chain_ticket env h j sigs i q s = Ok s' \<Longrightarrow> event_at k event_ok s'"
proof -
  have ok: "event_ok e" if "re_events s i = Some e" "i = k" for e
    using assms(2) that by (auto simp: event_at_def)
  have upd: "event_at k event_ok s'" if "re_events s' = (re_events s)(i \<mapsto> e)" "i = k \<Longrightarrow> event_ok e" for e
    using event_at_update [OF assms(2) that] .
  note defs = event_ok_def bps_ok_def release_total_def
  show "increment_inventory env i j user q tok s = Ok s' \<Longrightarrow> event_at k event_ok s'"
  proof -
    assume inc: "increment_inventory env i j user q tok s = Ok s'"
    obtain e t where sale: "sale_ok env i j user q tok s e t"
      using increment_inventory_sale_ok [OF inc] by blast
    have "re_events s' = (re_events s)(i \<mapsto> sold_event j q e t)"
      using increment_inventory_Ok [OF assms(1) sale] inc by auto
    moreover have "event_ok (sold_event j q e t)" if "i = k"
      using ok [of e] that sale by (simp add: sale_ok_def sold_event_def defs)
    ultimately show ?thesis using upd by blast
  qed
  show "decrement_inventory env i j s = Ok s' \<Longrightarrow> event_at k event_ok s'"
    by (elim decrement_inventory_OkE [OF _ assms(1)], rule upd) (use ok in \<open>auto simp: defs\<close>)
  have tiers: "event_at k event_ok s'"
    if "add_tier env i j t s = Ok s' \<or> deactivate_tier env i j s = Ok s'"
  proof (rule tier_ops_OkE [OF that assms(1)])
    fix e :: event_info and t'
    assume e: "re_events s i = Some e"
      and s': "s' = s\<lparr>re_events := (re_events s)(i \<mapsto> e\<lparr>ev_tiers := map_set j t' (ev_tiers e)\<rparr>)\<rparr>"
    show ?thesis
      by (rule upd [of "e\<lparr>ev_tiers := map_set j t' (ev_tiers e)\<rparr>"])
        (use ok [OF e] s' in \<open>auto simp: defs\<close>)
  qed
  show "add_tier env i j t s = Ok s' \<Longrightarrow> event_at k event_ok s'" using tiers by blast
  show "deactivate_tier env i j s = Ok s' \<Longrightarrow> event_at k event_ok s'" using tiers by blast
  show "mint_cross_chain_ticket env h j sigs i q s = Ok s' \<Longrightarrow> event_at k event_ok s'"
    by (elim mint_cross_chain_ticket_OkE [OF _ assms(1)], rule upd) (use ok in \<open>auto simp: defs\<close>)
qed


section \<open>Exact inventory\<close>

text \<open>When tiers start out unsold and a tier id is not added twice, the supply is exactly the sum of
  what the tiers sold, every tier is within its limit, and the limits fit the maximum supply.\<close>

definition fresh_tier :: "ticket_tier \<Rightarrow> bool" where
  "fresh_tier t \<longleftrightarrow> tier_current_sold t = 0 \<and> 0 \<le> tier_limit t"

definition sold_total :: "tier_map \<Rightarrow> int" where
  "sold_total m = sum_list (map (tier_current_sold \<circ> snd) m)"

definition limit_total :: "tier_map \<Rightarrow> int" where
  "limit_total m = sum_list (map (tier_limit \<circ> snd) m)"

definition inventory_exact :: "event_info \<Rightarrow> bool" where
  "inventory_exact e \<longleftrightarrow>
     map_wf (ev_tiers e)
     \<and> (\<forall>j t. map_of (ev_tiers e) j = Some t \<longrightarrow> 0 \<le> tier_current_sold t \<and> tier_current_sold t \<le> tier_limit t)
     \<and> ev_current_supply e = sold_total (ev_tiers e)
     \<and> (0 < ev_max_supply e \<longrightarrow> limit_total (ev_tiers e) \<le> ev_max_supply e)"

lemma inventory_exact_set_tier:
  assumes "inventory_exact e" "map_of (ev_tiers e) j = Some t"
    and "0 \<le> tier_current_sold t'" "tier_current_sold t' \<le> tier_limit t'" "tier_limit t' \<le> tier_limit t"
    and "ev_tiers e' = map_set j t' (ev_tiers e)" "ev_max_supply e' = ev_max_supply e"
    and "ev_current_supply e' = ev_current_supply e + tier_current_sold t' - tier_current_sold t"
  shows "inventory_exact e'"
proof -
  have wf: "map_wf (ev_tiers e)" using assms(1) by (simp add: inventory_exact_def)
  have "sold_total (ev_tiers e') = sold_total (ev_tiers e) + tier_current_sold t' - tier_current_sold t"
    "limit_total (ev_tiers e') = limit_total (ev_tiers e) + tier_limit t' - tier_limit t"
    using sum_list_map_set [OF wf, of tier_current_sold j t'] sum_list_map_set [OF wf, of tier_limit j t']
      assms(2,6) by (simp_all add: sold_total_def limit_total_def)
  then show ?thesis
    using assms map_wf_map_set [OF wf] by (auto simp: inventory_exact_def split: if_splits)
qed

lemma inventory_exact_add_tier:
  assumes "inventory_exact e" "map_of (ev_tiers e) j = None" "fresh_tier t"
    and "0 < ev_max_supply e \<Longrightarrow> limit_total (ev_tiers e) + tier_limit t \<le> ev_max_supply e"
  shows "inventory_exact (e\<lparr>ev_tiers := map_set j t (ev_tiers e)\<rparr>)"
proof -
  have wf: "map_wf (ev_tiers e)" using assms(1) by (simp add: inventory_exact_def)
  have "sold_total (map_set j t (ev_tiers e)) = sold_total (ev_tiers e)"
    "limit_total (map_set j t (ev_tiers e)) = limit_total (ev_tiers e) + tier_limit t"
    using sum_list_map_set [OF wf, of tier_current_sold j t] sum_list_map_set [OF wf, of tier_limit j t]
      assms(2,3) by (simp_all add: sold_total_def limit_total_def fresh_tier_def)
  then show ?thesis
    using assms map_wf_map_set [OF wf] by (auto simp: inventory_exact_def fresh_tier_def split: if_splits)
qed

lemma inventory_exact_benign_edit: "inventory_exact p \<Longrightarrow> benign_edit p e \<Longrightarrow> inventory_exact e"
  by (simp add: inventory_exact_def benign_edit_def)

lemma inventory_exact_deactivate: "inventory_exact e \<Longrightarrow> inventory_exact (e\<lparr>ev_is_active := False\<rparr>)"
  by (simp add: inventory_exact_def)

lemma inventory_exact_event_of_args:
  assumes "validate_registration args s = Ok ()" "map_wf (args_tiers args)"
    and "\<forall>t\<in>set (map snd (args_tiers args)). fresh_tier t"
  shows "inventory_exact (event_of_args env fee args)"
proof -
  have "sold_total m = 0" if "\<forall>t\<in>set (map snd m). fresh_tier t" for m
    using that by (induction m) (auto simp: sold_total_def fresh_tier_def)
  then have "sold_total (args_tiers args) = 0" using assms(3) by blast
  moreover have "0 \<le> tier_current_sold t \<and> tier_current_sold t \<le> tier_limit t"
    if "map_of (args_tiers args) j = Some t" for j t
    using assms(3) map_of_SomeD [OF that] by (force simp: fresh_tier_def)
  ultimately show ?thesis
    using validate_registration_Ok(3) [OF assms(1)] assms(2)
    by (simp add: inventory_exact_def event_of_args_def limit_total_def)
qed

lemma add_tier_limits:
  assumes "add_tier env i j t s = Ok s'" "re_events s i = Some e" "0 < ev_max_supply e"
  shows "limit_total (ev_tiers e) + tier_limit t \<le> ev_max_supply e"
  using assms
  by (auto simp: add_tier_def limit_total_def comp_def not_less dest!: sum_tier_limits_Ok
      split: if_splits)

lemma inventory_exact_add:
  assumes "events_inv strict s" "event_at k inventory_exact s" "add_tier env i j t s = Ok s'"
    and "i = k \<Longrightarrow> fresh_tier t" "\<And>e. i = k \<Longrightarrow> re_events s i = Some e \<Longrightarrow> map_of (ev_tiers e) j = None"
  shows "event_at k inventory_exact s'"
proof -
  obtain e where e: "re_events s i = Some e"
    using assms(3) by (auto simp: add_tier_def)
  have upd: "update_event (e\<lparr>ev_tiers := map_set j t (ev_tiers e)\<rparr>) s = Ok s'"
    using assms(3) e by (auto simp: add_tier_def split: if_splits)
  have "inventory_exact (e\<lparr>ev_tiers := map_set j t (ev_tiers e)\<rparr>)" if "ev_event_id e = k"
    using assms(2,4,5) e add_tier_limits [OF assms(3) e] that events_inv_id [OF assms(1) e]
    by (intro inventory_exact_add_tier) (auto simp: event_at_def)
  then show ?thesis
    using event_at_update_event [OF assms(2) upd] by simp
qed

lemma inventory_exact_ops:
  assumes "events_inv strict s" "event_at k inventory_exact s"
  shows "increment_inventory env i j user q tok s = Ok s' \<Longrightarrow> event_at k inventory_exact s'"
    and "decrement_inventory env i j s = Ok s' \<Longrightarrow> event_at k inventory_exact s'"
    and "deactivate_tier env i j s = Ok s' \<Longrightarrow> event_at k inventory_exact s'"
    and "mint_cross_chain_ticket env h j sigs i q s = Ok s' \<Longrightarrow> event_at k inventory_exact s'"
proof -
  have ok: "inventory_exact e" if "re_events s i = Some e" "i = k" for e
    using assms(2) that by (auto simp: event_at_def)
  have tier: "0 \<le> tier_current_sold t \<and> tier_current_sold t \<le> tier_limit t"
    if "re_events s i = Some e" "map_of (ev_tiers e) j = Some t" "i = k" for e t
    using ok [OF that(1,3)] that(2) by (simp add: inventory_exact_def)
  have upd: "event_at k inventory_exact s'"
    if "re_events s' = (re_events s)(i \<mapsto> e')" "re_events s i = Some e"
      "map_of (ev_tiers e) j = Some t" "ev_tiers e' = map_set j t' (ev_tiers e)"
      "i = k \<Longrightarrow> 0 \<le> tier_current_sold t'" "i = k \<Longrightarrow> tier_current_sold t' \<le> tier_limit t'"
      "i = k \<Longrightarrow> tier_limit t' \<le> tier_limit t" "ev_max_supply e' = ev_max_supply e"
      "ev_current_supply e' = ev_current_supply e + tier_current_sold t' - tier_current_sold t"
    for e e' t t'
  proof (rule event_at_update [OF assms(2) that(1)])
    assume "i = k"
    then show "inventory_exact e'"
      using inventory_exact_set_tier [OF ok [OF that(2)] that(3,5-7,4,8,9)] by simp
  qed
  show "increment_inventory env i j user q tok s = Ok s' \<Longrightarrow> event_at k inventory_exact s'"
  proof -
    assume inc: "increment_inventory env i j user q tok s = Ok s'"
    obtain e t where sale: "sale_ok env i j user q tok s e t"
      using increment_inventory_sale_ok [OF inc] by blast
    then have e: "re_events s i = Some e" "map_of (ev_tiers e) j = Some t"
      by (simp_all add: sale_ok_def)
    have "re_events s' = (re_events s)(i \<mapsto> sold_event j q e t)"
      using increment_inventory_Ok [OF assms(1) sale] inc by auto
    then show ?thesis
      using e(1,2)
      by (rule upd [where t' = "t\<lparr>tier_current_sold := tier_current_sold t + int q\<rparr>"])
        (use tier [OF e] sale in \<open>auto simp: sold_event_def sale_ok_def\<close>)
  qed
  show "decrement_inventory env i j s = Ok s' \<Longrightarrow> event_at k inventory_exact s'"
  proof (elim decrement_inventory_OkE [OF _ assms(1)])
    fix e t ev
    assume e: "re_events s i = Some e" "map_of (ev_tiers e) j = Some t" "0 < tier_current_sold t"
      and s': "s' = publish ev (s\<lparr>re_events := (re_events s)(i \<mapsto> e\<lparr>ev_tiers :=
            map_set j (t\<lparr>tier_current_sold := tier_current_sold t - 1\<rparr>) (ev_tiers e),
            ev_current_supply := ev_current_supply e - 1\<rparr>)\<rparr>)"
    show ?thesis
      by (rule upd [OF _ e(1,2), where t' = "t\<lparr>tier_current_sold := tier_current_sold t - 1\<rparr>"
            and e' = "e\<lparr>ev_tiers := map_set j (t\<lparr>tier_current_sold := tier_current_sold t - 1\<rparr>) (ev_tiers e),
              ev_current_supply := ev_current_supply e - 1\<rparr>"])
        (use tier [OF e(1,2)] e(3) in \<open>auto simp: s'\<close>)
  qed
  show "deactivate_tier env i j s = Ok s' \<Longrightarrow> event_at k inventory_exact s'"
  proof -
    assume de: "deactivate_tier env i j s = Ok s'"
    obtain e t where e: "re_events s i = Some e" "map_of (ev_tiers e) j = Some t"
      and "update_event (e\<lparr>ev_tiers := map_set j (t\<lparr>tier_limit := tier_current_sold t\<rparr>) (ev_tiers e)\<rparr>) s = Ok s'"
      using de by (auto simp: deactivate_tier_def)
    then have "re_events s' = (re_events s)(i \<mapsto> e\<lparr>ev_tiers :=
        map_set j (t\<lparr>tier_limit := tier_current_sold t\<rparr>) (ev_tiers e)\<rparr>)"
      using events_inv_id [OF assms(1) e(1)] by (auto dest!: update_event_frame)
    then show ?thesis
      using e(1,2)
      by (rule upd [where t' = "t\<lparr>tier_limit := tier_current_sold t\<rparr>"]) (use tier [OF e(1,2)] in auto)
  qed
  show "mint_cross_chain_ticket env h j sigs i q s = Ok s' \<Longrightarrow> event_at k inventory_exact s'"
  proof (elim mint_cross_chain_ticket_OkE [OF _ assms(1)])
    fix e :: event_info and t :: ticket_tier and ev
    let ?e = "e\<lparr>ev_tiers := map_set j (t\<lparr>tier_current_sold := tier_current_sold t + int q\<rparr>) (ev_tiers e),
      ev_current_supply := ev_current_supply e + int q\<rparr>"
    assume e: "re_events s i = Some e" "map_of (ev_tiers e) j = Some t"
        "tier_current_sold t + int q \<le> tier_limit t"
      and s': "s' = publish ev (s\<lparr>rs_teleports := insert h (rs_teleports s),
            rs_tickets_sold := saturating_add_i128 (rs_tickets_sold s) (int q),
            re_events := (re_events s)(i \<mapsto> ?e)\<rparr>)"
    show ?thesis
      by (rule upd [OF _ e(1,2), where t' = "t\<lparr>tier_current_sold := tier_current_sold t + int q\<rparr>"
            and e' = ?e]) (use tier [OF e(1,2)] e(3) in \<open>auto simp: s'\<close>)
  qed
qed

end
