(* ===== verification/Registry_Access.thy ===== *)
theory Registry_Access
  imports Registry_State
begin

text \<open>
  Scanner wallets, waitlists, team roles, the pause flag, the category index and event token lists of
  the registry (\<open>event_registry/src/lib.rs\<close> lines 1366 to 1424 and 2253 to 2321, and the matching
  accessors of \<open>storage.rs\<close>).
\<close>

section \<open>Scanners\<close>

definition authorize_scanner ::
    "env \<Rightarrow> string \<Rightarrow> address \<Rightarrow> registry \<Rightarrow> (registry_error, registry) result" where
  "authorize_scanner env event_id scanner s =
     rbind (ok_or (re_events s event_id) EventNotFound) (\<lambda>event_info.
     rbind (require_organizer env event_id (ev_organizer event_info) s) (\<lambda>_.
     Ok (publish (ScannerAuthorized_event event_id scanner (ev_organizer event_info) (timestamp env))
          (s\<lparr>rs_scanners := insert (event_id, scanner) (rs_scanners s)\<rparr>))))"

definition revoke_scanner ::
    "env \<Rightarrow> string \<Rightarrow> address \<Rightarrow> registry \<Rightarrow> (registry_error, registry) result" where
  "revoke_scanner env event_id scanner s =
     rbind (ok_or (re_events s event_id) EventNotFound) (\<lambda>event_info.
     rbind (require_organizer env event_id (ev_organizer event_info) s) (\<lambda>_.
     Ok (publish (ScannerRevoked_event event_id scanner (ev_organizer event_info) (timestamp env))
          (s\<lparr>rs_scanners := rs_scanners s - {(event_id, scanner)}\<rparr>))))"

definition is_scanner_authorized :: "string \<Rightarrow> address \<Rightarrow> registry \<Rightarrow> bool" where
  "is_scanner_authorized event_id scanner s = ((event_id, scanner) \<in> rs_scanners s)"


section \<open>Waitlist\<close>

definition is_on_waitlist :: "string \<Rightarrow> address \<Rightarrow> registry \<Rightarrow> bool" where
  "is_on_waitlist event_id user s = ((event_id, user) \<in> rs_waitlist s)"

definition join_waitlist ::
    "env \<Rightarrow> string \<Rightarrow> address \<Rightarrow> registry \<Rightarrow> (registry_error, registry) result" where
  "join_waitlist env event_id user s =
     rbind (require_auth env user) (\<lambda>_.
     if re_events s event_id = None then Err EventNotFound
     else if is_on_waitlist event_id user s then Err AlreadyOnWaitlist
     else Ok (publish (WaitlistJoined_event event_id user (timestamp env))
            (s\<lparr>rs_waitlist := insert (event_id, user) (rs_waitlist s)\<rparr>)))"

definition leave_waitlist ::
    "env \<Rightarrow> string \<Rightarrow> address \<Rightarrow> registry \<Rightarrow> (registry_error, registry) result" where
  "leave_waitlist env event_id user s =
     rbind (require_auth env user) (\<lambda>_.
     if re_events s event_id = None then Err EventNotFound
     else if \<not> is_on_waitlist event_id user s then Err NotOnWaitlist
     else Ok (publish (WaitlistLeft_event event_id user (timestamp env))
            (s\<lparr>rs_waitlist := rs_waitlist s - {(event_id, user)}\<rparr>)))"


section \<open>Team roles\<close>

definition set_event_team_role :: "string \<Rightarrow> address \<Rightarrow> role \<Rightarrow> registry \<Rightarrow> registry" where
  "set_event_team_role event_id member r s =
     s\<lparr>rs_team_roles := (rs_team_roles s)((event_id, member) \<mapsto> r)\<rparr>"

definition remove_event_team_role :: "string \<Rightarrow> address \<Rightarrow> registry \<Rightarrow> registry" where
  "remove_event_team_role event_id member s =
     s\<lparr>rs_team_roles := (rs_team_roles s)((event_id, member) := None)\<rparr>"

definition has_event_role :: "string \<Rightarrow> address \<Rightarrow> role \<Rightarrow> registry \<Rightarrow> bool" where
  "has_event_role event_id member required_role s =
     (case rs_team_roles s (event_id, member) of
        Some member_role \<Rightarrow> role_id member_role \<le> role_id required_role
      | None \<Rightarrow> False)"


section \<open>Pause flag, category index, event tokens\<close>

definition is_event_paused :: "string \<Rightarrow> registry \<Rightarrow> bool" where
  "is_event_paused event_id s = (event_id \<in> rs_paused s)"

definition set_event_paused :: "string \<Rightarrow> bool \<Rightarrow> registry \<Rightarrow> registry" where
  "set_event_paused event_id is_paused s =
     s\<lparr>rs_paused := (if is_paused then insert event_id (rs_paused s) else rs_paused s - {event_id})\<rparr>"

definition index_event_category :: "nat \<Rightarrow> string \<Rightarrow> registry \<Rightarrow> registry" where
  "index_event_category category_id event_id s =
     s\<lparr>rs_category_events :=
         (rs_category_events s)(category_id := rs_category_events s category_id @ [event_id])\<rparr>"

definition add_event_token_whitelist :: "string \<Rightarrow> address \<Rightarrow> registry \<Rightarrow> registry" where
  "add_event_token_whitelist event_id tok s =
     s\<lparr>rs_event_tokens := insert (event_id, tok) (rs_event_tokens s)\<rparr>"

definition remove_event_token_whitelist :: "string \<Rightarrow> address \<Rightarrow> registry \<Rightarrow> registry" where
  "remove_event_token_whitelist event_id tok s =
     s\<lparr>rs_event_tokens := rs_event_tokens s - {(event_id, tok)}\<rparr>"


section \<open>Facts\<close>

text \<open>Only the flags of this theory and the log change.\<close>

definition access_frame :: "registry \<Rightarrow> registry \<Rightarrow> bool" where
  "access_frame s s' \<longleftrightarrow>
     s'\<lparr>rs_scanners := rs_scanners s, rs_waitlist := rs_waitlist s, rc_published := rc_published s\<rparr> = s"

lemma access_frame_ops:
  shows "authorize_scanner env i a s = Ok s' \<Longrightarrow> access_frame s s'"
    and "revoke_scanner env i a s = Ok s' \<Longrightarrow> access_frame s s'"
    and "join_waitlist env i a s = Ok s' \<Longrightarrow> access_frame s s'"
    and "leave_waitlist env i a s = Ok s' \<Longrightarrow> access_frame s s'"
  by (auto simp: authorize_scanner_def revoke_scanner_def join_waitlist_def leave_waitlist_def
      publish_def access_frame_def split: if_splits)

text \<open>A role gives what its rank gives: an administrator passes every check, and passing a check
  passes every weaker one.\<close>

lemma has_event_role_iff:
  "has_event_role i a r s \<longleftrightarrow> (\<exists>r'. rs_team_roles s (i, a) = Some r' \<and> r \<le> r')"
  by (auto simp: has_event_role_def less_eq_role_def split: option.splits)

lemma has_event_role_mono: "has_event_role i a r s \<Longrightarrow> r' \<le> r \<Longrightarrow> has_event_role i a r' s"
  by (auto simp: has_event_role_iff intro: order_trans)

lemma set_event_team_role_admin: "has_event_role i a r (set_event_team_role i a Role_Admin s)"
  by (cases r) (simp_all add: has_event_role_def set_event_team_role_def)

text \<open>Leaving undoes joining.\<close>

lemma join_leave_waitlist:
  assumes "join_waitlist env i a s = Ok s'"
  shows "is_on_waitlist i a s'
    \<and> (\<exists>s''. leave_waitlist env i a s' = Ok s'' \<and> rs_waitlist s'' = rs_waitlist s)"
  using assms
  by (auto simp: join_waitlist_def leave_waitlist_def is_on_waitlist_def split: if_splits)

end
