(* ===== verification/Registry_Staking.thy ===== *)
theory Registry_Staking
  imports Registry_State
begin

text \<open>
  Collateral staking and loyalty (\<open>event_registry/src/lib.rs\<close> lines 1426 to 1686 and 1798 to 1901):
  organizers lock tokens, the administrator distributes rewards in proportion to the stakes, guests
  collect loyalty points that discount the platform fee.  The total and the list of stakers are
  exactly the recorded stakes, and what the contract holds in the staking token covers all stakes and
  unclaimed rewards.
\<close>

section \<open>Storage\<close>

definition set_organizer_stake :: "organizer_stake \<Rightarrow> registry \<Rightarrow> registry" where
  [contract_defs]:
  "set_organizer_stake stake s = s\<lparr>rs_stakes := (rs_stakes s)(stake_organizer stake \<mapsto> stake)\<rparr>"

definition add_to_total_staked :: "int \<Rightarrow> registry \<Rightarrow> (registry_error, registry) result" where
  "add_to_total_staked amount s =
     rbind (add_i128 (rs_total_staked s) amount) (\<lambda>t. Ok (s\<lparr>rs_total_staked := t\<rparr>))"

definition subtract_from_total_staked :: "int \<Rightarrow> registry \<Rightarrow> registry" where
  [contract_defs]:
  "subtract_from_total_staked amount s =
     s\<lparr>rs_total_staked := saturating_sub_i128 (rs_total_staked s) amount\<rparr>"

definition add_to_stakers_list :: "address \<Rightarrow> registry \<Rightarrow> registry" where
  [contract_defs]:
  "add_to_stakers_list organizer s =
     (if organizer \<in> set (rs_stakers s) then s else s\<lparr>rs_stakers := rs_stakers s @ [organizer]\<rparr>)"

definition remove_from_stakers_list :: "address \<Rightarrow> registry \<Rightarrow> registry" where
  [contract_defs]:
  "remove_from_stakers_list organizer s = s\<lparr>rs_stakers := filter (\<lambda>a. a \<noteq> organizer) (rs_stakers s)\<rparr>"


section \<open>Operations\<close>

definition set_staking_config ::
    "env \<Rightarrow> address \<Rightarrow> int \<Rightarrow> registry \<Rightarrow> (registry_error, registry) result" where
  "set_staking_config env tok min_amount s =
     rbind (require_admin env s) (\<lambda>admin.
     if min_amount \<le> 0 then Err InvalidStakeAmount
     else Ok (publish (MinStakeAmountUpdated_event (rc_min_stake_amount s) min_amount admin)
            (publish (StakingTokenUpdated_event (rs_staking_token s) tok admin)
              (s\<lparr>rs_staking_token := Some tok, rc_min_stake_amount := min_amount\<rparr>))))"

definition stake_collateral ::
    "env \<Rightarrow> address \<Rightarrow> int \<Rightarrow> registry \<Rightarrow> (registry_error, registry) result" where
  "stake_collateral env organizer amount s =
     rbind (require_auth env organizer) (\<lambda>_.
     if amount \<le> 0 then Err InvalidStakeAmount
     else if rs_stakes s organizer \<noteq> None then Err AlreadyStaked
     else
       rbind (ok_or (rs_staking_token s) StakingNotConfigured) (\<lambda>tok.
       rbind (token_transfer env
                \<lparr>tr_token = tok, tr_from = organizer, tr_to = current_contract env, tr_amount = amount\<rparr>
                (rc_transfers s)) (\<lambda>transfers.
       let is_verified = (amount \<ge> rc_min_stake_amount s);
           stake = \<lparr>stake_organizer = organizer, stake_token = tok, stake_amount = amount,
                     stake_staked_at = timestamp env, stake_is_verified = is_verified,
                     stake_reward_balance = 0, stake_total_rewards_claimed = 0\<rparr>
       in
       rbind (add_to_total_staked amount
                (set_organizer_stake stake (s\<lparr>rc_transfers := transfers\<rparr>))) (\<lambda>s1.
       Ok (publish (CollateralStaked_event organizer tok amount is_verified (timestamp env))
            (add_to_stakers_list organizer s1))))))"

definition unstake_collateral :: "env \<Rightarrow> address \<Rightarrow> registry \<Rightarrow> (registry_error, registry) result" where
  "unstake_collateral env organizer s =
     rbind (require_auth env organizer) (\<lambda>_.
     rbind (ok_or (rs_stakes s organizer) NotStaked) (\<lambda>stake.
     rbind (token_transfer env
              \<lparr>tr_token = stake_token stake, tr_from = current_contract env, tr_to = organizer,
                tr_amount = stake_amount stake\<rparr> (rc_transfers s)) (\<lambda>transfers.
     let s1 = subtract_from_total_staked (stake_amount stake) (s\<lparr>rc_transfers := transfers\<rparr>);
         s2 = s1\<lparr>rs_stakes := (rs_stakes s1)(organizer := None)\<rparr>
     in
     Ok (publish (CollateralUnstaked_event organizer (stake_token stake) (stake_amount stake)
            (timestamp env)) (remove_from_stakers_list organizer s2)))))"

definition reward_share :: "int \<Rightarrow> int \<Rightarrow> int \<Rightarrow> int" where
  "reward_share total_reward total_staked amount =
     unwrap_or (case checked_mul_i128 total_reward amount of
                  Some v \<Rightarrow> checked_div_i128 v total_staked
                | None \<Rightarrow> None) 0"

fun distribute_loop :: "int \<Rightarrow> int \<Rightarrow> address list \<Rightarrow> registry \<Rightarrow> registry" where
  "distribute_loop total_reward total_staked [] s = s"
| "distribute_loop total_reward total_staked (organizer # rest) s =
     (case rs_stakes s organizer of
        Some stake \<Rightarrow>
          (let reward = reward_share total_reward total_staked (stake_amount stake) in
           if reward > 0
           then distribute_loop total_reward total_staked rest
                  (set_organizer_stake (stake\<lparr>stake_reward_balance :=
                     saturating_add_i128 (stake_reward_balance stake) reward\<rparr>) s)
           else distribute_loop total_reward total_staked rest s)
      | None \<Rightarrow> distribute_loop total_reward total_staked rest s)"

definition distribute_staker_rewards ::
    "env \<Rightarrow> address \<Rightarrow> int \<Rightarrow> registry \<Rightarrow> (registry_error, registry) result" where
  "distribute_staker_rewards env caller total_reward s =
     rbind (require_auth env caller) (\<lambda>_.
     rbind (ok_or (rc_admin s) NotInitialized) (\<lambda>admin.
     if caller \<noteq> admin then Err Unauthorized
     else if total_reward \<le> 0 then Err InvalidRewardAmount
     else
       rbind (ok_or (rs_staking_token s) StakingNotConfigured) (\<lambda>tok.
       if rs_total_staked s = 0 then Err NotStaked
       else
         rbind (token_transfer env
                  \<lparr>tr_token = tok, tr_from = caller, tr_to = current_contract env,
                    tr_amount = total_reward\<rparr> (rc_transfers s)) (\<lambda>transfers.
         Ok (publish (StakerRewardsDistributed_event total_reward (length (rs_stakers s))
                (timestamp env))
              (distribute_loop total_reward (rs_total_staked s) (rs_stakers s)
                (s\<lparr>rc_transfers := transfers\<rparr>)))))))"

definition claim_staker_rewards ::
    "env \<Rightarrow> address \<Rightarrow> registry \<Rightarrow> (registry_error, registry \<times> int) result" where
  "claim_staker_rewards env organizer s =
     rbind (require_auth env organizer) (\<lambda>_.
     rbind (ok_or (rs_stakes s organizer) NotStaked) (\<lambda>stake.
     if stake_reward_balance stake = 0 then Err NoRewardsAvailable
     else
       let reward_to_claim = stake_reward_balance stake in
       rbind (token_transfer env
                \<lparr>tr_token = stake_token stake, tr_from = current_contract env, tr_to = organizer,
                  tr_amount = reward_to_claim\<rparr> (rc_transfers s)) (\<lambda>transfers.
       Ok (publish (StakerRewardsClaimed_event organizer reward_to_claim (timestamp env))
            (set_organizer_stake (stake\<lparr>stake_total_rewards_claimed :=
                 saturating_add_i128 (stake_total_rewards_claimed stake) reward_to_claim,
               stake_reward_balance := 0\<rparr>) (s\<lparr>rc_transfers := transfers\<rparr>)), reward_to_claim))))"


section \<open>Loyalty\<close>

definition update_loyalty_score ::
    "env \<Rightarrow> address \<Rightarrow> address \<Rightarrow> nat \<Rightarrow> int \<Rightarrow> nat \<Rightarrow> registry \<Rightarrow> (registry_error, registry) result" where
  "update_loyalty_score env caller guest tickets_purchased amount_spent loyalty_multiplier s =
     rbind (require_auth env caller) (\<lambda>_.
     rbind (ok_or (rc_admin s) NotInitialized) (\<lambda>admin.
     if \<not> (caller = admin \<or> rc_ticket_payment s = Some caller) then Err Unauthorized
     else if tickets_purchased = 0 then Err InvalidQuantity
     else
       let profile = unwrap_or (rs_profiles s guest)
             \<lparr>guest_address = guest, guest_loyalty_score = 0, guest_tickets_purchased = 0,
               guest_total_spent = 0, guest_last_updated = 0\<rparr>;
           effective_multiplier = (if loyalty_multiplier = 0 then 1 else loyalty_multiplier);
           points_earned =
             saturating_mul_u 64 (saturating_mul_u 64 tickets_purchased 10) effective_multiplier;
           profile' = profile\<lparr>guest_loyalty_score :=
                 saturating_add_u 64 (guest_loyalty_score profile) points_earned,
               guest_tickets_purchased :=
                 saturating_add_u 32 (guest_tickets_purchased profile) tickets_purchased,
               guest_total_spent := saturating_add_i128 (guest_total_spent profile) amount_spent,
               guest_last_updated := timestamp env\<rparr>
       in
       Ok (publish (LoyaltyScoreUpdated_event guest (guest_loyalty_score profile') tickets_purchased
             (timestamp env))
            (s\<lparr>rs_profiles := (rs_profiles s)(guest_address profile' \<mapsto> profile')\<rparr>))))"

definition get_loyalty_discount_bps :: "address \<Rightarrow> registry \<Rightarrow> nat" where
  "get_loyalty_discount_bps guest s =
     (let score = (case rs_profiles s guest of Some p \<Rightarrow> guest_loyalty_score p | None \<Rightarrow> 0) in
      if score \<ge> 1000 then 1000 else if score \<ge> 500 then 500 else if score \<ge> 100 then 250 else 0)"


section \<open>Sums over the stakers\<close>

definition stake_sum :: "(organizer_stake \<Rightarrow> int) \<Rightarrow> address list \<Rightarrow> (address \<rightharpoonup> organizer_stake) \<Rightarrow> int" where
  "stake_sum f as m = sum_list (map (\<lambda>a. case m a of Some st \<Rightarrow> f st | None \<Rightarrow> 0) as)"

lemma stake_sum_add: "a \<notin> set as \<Longrightarrow> stake_sum f (as @ [a]) (m(a \<mapsto> st)) = stake_sum f as m + f st"
  by (simp add: stake_sum_def cong: map_cong) (rule sum_list_map_cong, auto)

lemma stake_sum_other: "a \<notin> set as \<Longrightarrow> stake_sum f as (m(a := x)) = stake_sum f as m"
  unfolding stake_sum_def by (rule sum_list_map_cong) auto

lemma stake_sum_remove:
  assumes "distinct as" "a \<in> set as" "m a = Some st"
  shows "stake_sum f (filter (\<lambda>b. b \<noteq> a) as) (m(a := None)) = stake_sum f as m - f st"
  using stake_sum_other [of a "filter (\<lambda>b. b \<noteq> a) as" f m None]
    sum_list_filter_neq [OF assms(1,2), of "\<lambda>a. case m a of Some st \<Rightarrow> f st | None \<Rightarrow> 0"] assms(3)
  by (simp add: stake_sum_def)

lemma stake_sum_update:
  assumes "distinct as" "a \<in> set as" "m a = Some st"
  shows "stake_sum f as (m(a \<mapsto> st')) = stake_sum f as m + f st' - f st"
  using assms
proof (induction as)
  case (Cons b as)
  then show ?case
    using stake_sum_other [of a as f m "Some st'"] by (auto simp: stake_sum_def)
qed simp

lemma stake_sum_mono:
  "(\<And>a st. a \<in> set as \<Longrightarrow> m a = Some st \<Longrightarrow> f st \<le> g st) \<Longrightarrow> stake_sum f as m \<le> stake_sum g as m"
  unfolding stake_sum_def by (rule sum_list_mono) (auto split: option.splits)


section \<open>The invariant\<close>

definition staking_inv :: "registry \<Rightarrow> bool" where
  "staking_inv s \<longleftrightarrow>
     distinct (rs_stakers s) \<and> set (rs_stakers s) = dom (rs_stakes s)
     \<and> (\<forall>a st. rs_stakes s a = Some st \<longrightarrow>
          stake_organizer st = a \<and> 0 < stake_amount st \<and> 0 \<le> stake_reward_balance st)
     \<and> rs_total_staked s = stake_sum stake_amount (rs_stakers s) (rs_stakes s)
     \<and> in_i128 (rs_total_staked s)"

lemma staking_inv_publish [simp]: "staking_inv (publish ev s) = staking_inv s"
  by (simp add: staking_inv_def)

lemma staking_inv_cong:
  "rs_stakers s' = rs_stakers s \<Longrightarrow> rs_stakes s' = rs_stakes s \<Longrightarrow> rs_total_staked s' = rs_total_staked s
   \<Longrightarrow> staking_inv s' = staking_inv s"
  by (simp add: staking_inv_def)

lemma stake_amount_le_total:
  assumes "staking_inv s" "rs_stakes s a = Some st"
  shows "stake_amount st \<le> rs_total_staked s"
proof -
  have *: "distinct (rs_stakers s)" "a \<in> set (rs_stakers s)"
    using assms by (auto simp: staking_inv_def)
  have "0 \<le> stake_sum stake_amount (filter (\<lambda>b. b \<noteq> a) (rs_stakers s)) ((rs_stakes s)(a := None))"
    using assms(1) unfolding stake_sum_def
    by (intro sum_list_nonneg) (auto simp: staking_inv_def less_imp_le split: option.splits)
  then show ?thesis
    using stake_sum_remove [of "rs_stakers s" a "rs_stakes s" st stake_amount] * assms
    by (simp add: staking_inv_def)
qed

text \<open>The effects of the operations that succeed.\<close>

lemma stake_collateral_OkE:
  assumes "stake_collateral env a amount s = Ok s'" "staking_inv s"
  obtains tok st ev where "authorised env a" "0 < amount" "rs_stakes s a = None"
    "rs_staking_token s = Some tok" "in_i128 (rs_total_staked s + amount)"
    "st = \<lparr>stake_organizer = a, stake_token = tok, stake_amount = amount,
        stake_staked_at = timestamp env, stake_is_verified = (rc_min_stake_amount s \<le> amount),
        stake_reward_balance = 0, stake_total_rewards_claimed = 0\<rparr>"
    "s' = publish ev (s\<lparr>rc_transfers := rc_transfers s @ [\<lparr>tr_token = tok, tr_from = a,
            tr_to = current_contract env, tr_amount = amount\<rparr>],
          rs_stakes := (rs_stakes s)(a \<mapsto> st), rs_total_staked := rs_total_staked s + amount,
          rs_stakers := rs_stakers s @ [a]\<rparr>)"
proof -
  have "rs_stakes s a = None" "a \<notin> set (rs_stakers s)"
    using assms by (auto simp: stake_collateral_def staking_inv_def split: if_splits)
  then show thesis
    using assms(1) that
    by (auto simp: stake_collateral_def add_to_total_staked_def contract_defs Let_def split: if_splits)
qed

lemma unstake_collateral_OkE:
  assumes "unstake_collateral env a s = Ok s'" "staking_inv s"
  obtains st ev where "authorised env a" "rs_stakes s a = Some st"
    "s' = publish ev (s\<lparr>rc_transfers := rc_transfers s @ [\<lparr>tr_token = stake_token st,
            tr_from = current_contract env, tr_to = a, tr_amount = stake_amount st\<rparr>],
          rs_total_staked := rs_total_staked s - stake_amount st,
          rs_stakes := (rs_stakes s)(a := None),
          rs_stakers := filter (\<lambda>b. b \<noteq> a) (rs_stakers s)\<rparr>)"
proof -
  obtain st where st: "rs_stakes s a = Some st"
    using assms(1) by (auto simp: unstake_collateral_def)
  have "0 < stake_amount st" "stake_amount st \<le> rs_total_staked s" "in_i128 (rs_total_staked s)"
    using assms(2) st stake_amount_le_total by (auto simp: staking_inv_def)
  then have "saturating_sub_i128 (rs_total_staked s) (stake_amount st) = rs_total_staked s - stake_amount st"
    unfolding saturating_sub_i128_def by (intro clamp_i128_id) (auto simp: in_i128_def i128_min_def)
  then show thesis
    using assms(1) that st by (auto simp: unstake_collateral_def contract_defs Let_def)
qed

lemma claim_staker_rewards_OkE:
  assumes "claim_staker_rewards env a s = Ok (s', r)" "staking_inv s"
  obtains st st' ev where "authorised env a" "rs_stakes s a = Some st" "r = stake_reward_balance st"
    "r \<noteq> 0" "st' = st\<lparr>stake_total_rewards_claimed := saturating_add_i128 (stake_total_rewards_claimed st) r,
       stake_reward_balance := 0\<rparr>"
    "s' = publish ev (s\<lparr>rc_transfers := rc_transfers s @ [\<lparr>tr_token = stake_token st,
            tr_from = current_contract env, tr_to = a, tr_amount = r\<rparr>],
          rs_stakes := (rs_stakes s)(a \<mapsto> st')\<rparr>)"
proof -
  obtain st where st: "rs_stakes s a = Some st"
    using assms(1) by (auto simp: claim_staker_rewards_def)
  moreover have "stake_organizer st = a"
    using assms(2) st by (simp add: staking_inv_def)
  ultimately show thesis
    using assms(1) that by (auto simp: claim_staker_rewards_def contract_defs Let_def split: if_splits)
qed

section \<open>Distribution of rewards\<close>

definition rewarded :: "int \<Rightarrow> int \<Rightarrow> organizer_stake \<Rightarrow> organizer_stake" where
  "rewarded total_reward total_staked st =
     (let r = reward_share total_reward total_staked (stake_amount st) in
      if r > 0 then st\<lparr>stake_reward_balance := saturating_add_i128 (stake_reward_balance st) r\<rparr> else st)"

lemma rewarded_fields [simp]:
  "stake_organizer (rewarded R T st) = stake_organizer st"
  "stake_amount (rewarded R T st) = stake_amount st"
  "stake_token (rewarded R T st) = stake_token st"
  by (simp_all add: rewarded_def Let_def)

text \<open>The loop credits every listed stake once and changes nothing else.\<close>

lemma distribute_loop_eq:
  assumes "distinct as" "\<And>a st. a \<in> set as \<Longrightarrow> rs_stakes s a = Some st \<Longrightarrow> stake_organizer st = a"
  shows "distribute_loop R T as s =
    s\<lparr>rs_stakes := (\<lambda>a. if a \<in> set as then map_option (rewarded R T) (rs_stakes s a) else rs_stakes s a)\<rparr>"
  using assms
proof (induction as arbitrary: s)
  case (Cons b as)
  have step: "distribute_loop R T (b # as) s =
      distribute_loop R T as (s\<lparr>rs_stakes := (rs_stakes s)(b := map_option (rewarded R T) (rs_stakes s b))\<rparr>)"
    using Cons.prems(2) [of b]
    by (cases "rs_stakes s b") (auto simp: rewarded_def Let_def contract_defs fun_upd_idem)
  show ?case
    unfolding step using Cons.prems
    by (subst Cons.IH) (auto simp: fun_eq_iff split: if_splits
        intro!: arg_cong [where f = "\<lambda>x. rs_stakes_update x s"])
qed simp

lemma reward_share_bounds:
  assumes "0 < R" "0 < T" "0 < x"
  shows "0 \<le> reward_share R T x" "reward_share R T x \<le> (R * x) div T"
proof -
  have nn: "0 \<le> R * x div T" using assms by (simp add: pos_imp_zdiv_nonneg_iff)
  have td: "trunc_div (R * x) T = R * x div T" using assms by (simp add: trunc_div_nonneg)
  have *: "reward_share R T x = 0 \<or> reward_share R T x = R * x div T"
    unfolding reward_share_def checked_mul_i128_def checked_div_i128_def checked_i128_def
    using td by (auto simp: unwrap_or_def)
  show "0 \<le> reward_share R T x" using * nn by auto
  show "reward_share R T x \<le> (R * x) div T" using * nn by auto
qed

lemma rewarded_balance:
  assumes "0 < R" "0 < T" "0 < stake_amount st" "0 \<le> stake_reward_balance st"
  shows "stake_reward_balance st \<le> stake_reward_balance (rewarded R T st) \<or> \<not> in_i128 (stake_reward_balance st)"
    "0 \<le> stake_reward_balance (rewarded R T st)"
    "stake_reward_balance (rewarded R T st) \<le> stake_reward_balance st + reward_share R T (stake_amount st)"
  using assms reward_share_bounds(1) [OF assms(1,2,3)]
  by (auto simp: rewarded_def Let_def saturating_add_i128_def clamp_i128_def in_i128_def i128_max_def
      i128_min_def)

lemma stake_sum_linear: "stake_sum (\<lambda>st. k * f st) as m = k * stake_sum f as m"
  unfolding stake_sum_def by (induction as) (auto simp: distrib_left split: option.splits)

lemma stake_sum_plus: "stake_sum (\<lambda>st. f st + g st) as m = stake_sum f as m + stake_sum g as m"
  unfolding stake_sum_def by (induction as) (auto split: option.splits)

lemma stake_sum_zero [simp]: "stake_sum (\<lambda>_. 0) as m = 0"
  unfolding stake_sum_def by (induction as) (auto split: option.splits)

lemma stake_sum_map:
  assumes "\<And>a. a \<in> set as \<Longrightarrow> m' a = map_option h (m a)"
  shows "stake_sum f as m' = stake_sum (\<lambda>st. f (h st)) as m"
  unfolding stake_sum_def using assms
  by (intro sum_list_map_cong) (auto split: option.splits)

text \<open>What one distribution credits, over all stakers, never exceeds what it received.\<close>

lemma reward_shares_le:
  assumes "staking_inv s" "0 < R" "0 < rs_total_staked s"
  shows "stake_sum (\<lambda>st. reward_share R (rs_total_staked s) (stake_amount st)) (rs_stakers s) (rs_stakes s) \<le> R"
proof -
  let ?T = "rs_total_staked s"
  let ?x = "\<lambda>a. case rs_stakes s a of Some st \<Rightarrow> stake_amount st | None \<Rightarrow> 0"
  have pos: "0 < stake_amount st" if "rs_stakes s a = Some st" for a st
    using assms(1) that by (auto simp: staking_inv_def)
  have "stake_sum (\<lambda>st. reward_share R ?T (stake_amount st)) (rs_stakers s) (rs_stakes s)
      \<le> stake_sum (\<lambda>st. R * stake_amount st div ?T) (rs_stakers s) (rs_stakes s)"
    by (rule stake_sum_mono) (rule reward_share_bounds(2) [OF assms(2,3) pos])
  also have "\<dots> = sum_list (map (\<lambda>a. R * ?x a div ?T) (rs_stakers s))"
    unfolding stake_sum_def by (rule sum_list_map_cong) (auto split: option.splits)
  also have "\<dots> \<le> sum_list (map (\<lambda>a. R * ?x a) (rs_stakers s)) div ?T"
    using assms pos by (intro sum_list_div_le) (auto simp: less_imp_le split: option.splits)
  also have "sum_list (map (\<lambda>a. R * ?x a) (rs_stakers s)) = R * ?T"
    using assms(1) by (simp add: staking_inv_def stake_sum_def sum_list_const_mult)
  also have "R * ?T div ?T = R" using assms(3) by simp
  finally show ?thesis .
qed

lemma distribute_loop_all:
  assumes "distinct as" "set as = dom (rs_stakes s)" "\<And>a st. rs_stakes s a = Some st \<Longrightarrow> stake_organizer st = a"
  shows "distribute_loop R T as s = s\<lparr>rs_stakes := map_option (rewarded R T) \<circ> rs_stakes s\<rparr>"
proof -
  have "(\<lambda>a. if a \<in> dom (rs_stakes s) then map_option f (rs_stakes s a) else rs_stakes s a)
      = map_option f \<circ> rs_stakes s" for f :: "organizer_stake \<Rightarrow> organizer_stake"
    by (auto simp: fun_eq_iff domIff)
  then show ?thesis
    using distribute_loop_eq [of as s R T] assms by simp
qed

lemma distribute_OkE:
  assumes "distribute_staker_rewards env caller R s = Ok s'" "staking_inv s"
  obtains tok ev where "authorised env caller" "rc_admin s = Some caller" "0 < R" "0 < rs_total_staked s"
    "rs_staking_token s = Some tok"
    "s' = publish ev (s\<lparr>rc_transfers := rc_transfers s @ [\<lparr>tr_token = tok, tr_from = caller,
            tr_to = current_contract env, tr_amount = R\<rparr>],
          rs_stakes := map_option (rewarded R (rs_total_staked s)) \<circ> rs_stakes s\<rparr>)"
proof -
  let ?s1 = "\<lambda>ts. s\<lparr>rc_transfers := ts\<rparr>"
  have inv: "distinct (rs_stakers s)" "set (rs_stakers s) = dom (rs_stakes s)"
    "\<And>a st. rs_stakes s a = Some st \<Longrightarrow> stake_organizer st = a \<and> 0 < stake_amount st"
    "rs_total_staked s = stake_sum stake_amount (rs_stakers s) (rs_stakes s)"
    using assms(2) by (auto simp: staking_inv_def)
  have total_nonneg: "0 \<le> rs_total_staked s"
    unfolding inv(4) stake_sum_def using inv(3)
    by (intro sum_list_nonneg) (auto simp: less_imp_le split: option.splits)
  have "distribute_loop R T (rs_stakers s) (?s1 ts) =
      ?s1 ts\<lparr>rs_stakes := map_option (rewarded R T) \<circ> rs_stakes s\<rparr>" for T ts
    using inv by (subst distribute_loop_all) auto
  then show thesis
    using assms(1) that total_nonneg
    by (auto simp: distribute_staker_rewards_def split: if_splits)
qed

lemma staking_inv_stake:
  assumes "stake_collateral env a amount s = Ok s'" "staking_inv s"
  shows "staking_inv s'"
  using assms
proof (rule stake_collateral_OkE)
  fix tok st ev
  assume *: "0 < amount" "rs_stakes s a = None" "in_i128 (rs_total_staked s + amount)"
    and st: "st = \<lparr>stake_organizer = a, stake_token = tok, stake_amount = amount,
        stake_staked_at = timestamp env, stake_is_verified = (rc_min_stake_amount s \<le> amount),
        stake_reward_balance = 0, stake_total_rewards_claimed = 0\<rparr>"
    and s': "s' = publish ev (s\<lparr>rc_transfers := rc_transfers s @ [\<lparr>tr_token = tok, tr_from = a,
            tr_to = current_contract env, tr_amount = amount\<rparr>],
          rs_stakes := (rs_stakes s)(a \<mapsto> st), rs_total_staked := rs_total_staked s + amount,
          rs_stakers := rs_stakers s @ [a]\<rparr>)"
  have "a \<notin> set (rs_stakers s)" using *(2) assms(2) by (auto simp: staking_inv_def)
  then show ?thesis
    using assms(2) * st stake_sum_add [of a "rs_stakers s" stake_amount "rs_stakes s" st]
    by (auto simp: s' staking_inv_def)
qed

lemma staking_inv_unstake:
  assumes "unstake_collateral env a s = Ok s'" "staking_inv s"
  shows "staking_inv s'"
  using assms
proof (rule unstake_collateral_OkE)
  fix st ev
  assume st: "rs_stakes s a = Some st"
    and s': "s' = publish ev (s\<lparr>rc_transfers := rc_transfers s @ [\<lparr>tr_token = stake_token st,
            tr_from = current_contract env, tr_to = a, tr_amount = stake_amount st\<rparr>],
          rs_total_staked := rs_total_staked s - stake_amount st,
          rs_stakes := (rs_stakes s)(a := None),
          rs_stakers := filter (\<lambda>b. b \<noteq> a) (rs_stakers s)\<rparr>)"
  have "a \<in> set (rs_stakers s)" "0 < stake_amount st" using st assms(2) by (auto simp: staking_inv_def)
  moreover have "in_i128 (rs_total_staked s - stake_amount st)"
    using stake_amount_le_total [OF assms(2) st] assms(2) calculation(2)
    by (auto simp: staking_inv_def in_i128_def i128_min_def)
  ultimately show ?thesis
    using assms(2) st stake_sum_remove [of "rs_stakers s" a "rs_stakes s" st stake_amount]
    by (auto simp: s' staking_inv_def)
qed

lemma staking_inv_claim:
  assumes "claim_staker_rewards env a s = Ok (s', r)" "staking_inv s"
  shows "staking_inv s'"
  using assms
proof (rule claim_staker_rewards_OkE)
  fix st st' ev
  assume st: "rs_stakes s a = Some st"
    and st': "st' = st\<lparr>stake_total_rewards_claimed := saturating_add_i128 (stake_total_rewards_claimed st) r,
       stake_reward_balance := 0\<rparr>"
    and s': "s' = publish ev (s\<lparr>rc_transfers := rc_transfers s @ [\<lparr>tr_token = stake_token st,
            tr_from = current_contract env, tr_to = a, tr_amount = r\<rparr>],
          rs_stakes := (rs_stakes s)(a \<mapsto> st')\<rparr>)"
  have "a \<in> set (rs_stakers s)" using st assms(2) by (auto simp: staking_inv_def)
  then show ?thesis
    using assms(2) st stake_sum_update [of "rs_stakers s" a "rs_stakes s" st stake_amount st']
    by (auto simp: s' st' staking_inv_def)
qed

lemma staking_inv_distribute:
  assumes "distribute_staker_rewards env caller R s = Ok s'" "staking_inv s"
  shows "staking_inv s'"
  using assms
proof (rule distribute_OkE)
  fix tok ev
  let ?T = "rs_total_staked s"
  assume pos: "0 < R" "0 < ?T"
    and s': "s' = publish ev (s\<lparr>rc_transfers := rc_transfers s @ [\<lparr>tr_token = tok, tr_from = caller,
            tr_to = current_contract env, tr_amount = R\<rparr>],
          rs_stakes := map_option (rewarded R ?T) \<circ> rs_stakes s\<rparr>)"
  have "stake_sum stake_amount (rs_stakers s) (map_option (rewarded R ?T) \<circ> rs_stakes s)
      = stake_sum stake_amount (rs_stakers s) (rs_stakes s)"
    by (subst stake_sum_map [where h = "rewarded R ?T" and m = "rs_stakes s"]) auto
  moreover have "dom (map_option (rewarded R ?T) \<circ> rs_stakes s) = dom (rs_stakes s)"
    by auto
  ultimately show ?thesis
    using assms(2) rewarded_balance(2) [OF pos] by (auto simp: s' staking_inv_def)
qed

section \<open>Solvency\<close>

text \<open>
  What the contract at address \<open>c\<close> owes in a token, and the invariant that the transfers it made and
  received in that token cover it.  The contract itself never stakes, and all stakes are in the
  configured staking token.
\<close>

definition owed_in :: "address \<Rightarrow> organizer_stake \<Rightarrow> int" where
  "owed_in tok st = (if stake_token st = tok then stake_amount st + stake_reward_balance st else 0)"

definition liabilities :: "address \<Rightarrow> registry \<Rightarrow> int" where
  "liabilities tok s = stake_sum (owed_in tok) (rs_stakers s) (rs_stakes s)"

definition solvent :: "address \<Rightarrow> registry \<Rightarrow> bool" where
  "solvent c s \<longleftrightarrow>
     rs_stakes s c = None
     \<and> (\<forall>a st. rs_stakes s a = Some st \<longrightarrow> rs_staking_token s = Some (stake_token st))
     \<and> (\<forall>tok. liabilities tok s \<le> net_inflow tok c (rc_transfers s))"

lemma transfers_publish [simp]: "rc_transfers (publish ev s) = rc_transfers s"
  by (simp add: publish_def)

lemma solvent_publish [simp]: "solvent c (publish ev s) = solvent c s"
  by (simp add: solvent_def liabilities_def)

lemma solvent_cong:
  "rs_stakers s' = rs_stakers s \<Longrightarrow> rs_stakes s' = rs_stakes s \<Longrightarrow> rs_staking_token s' = rs_staking_token s
   \<Longrightarrow> rc_transfers s' = rc_transfers s \<Longrightarrow> solvent c s' = solvent c s"
  by (simp add: solvent_def liabilities_def)

lemma solvent_stake:
  assumes "stake_collateral env a amount s = Ok s'" "staking_inv s" "solvent c s"
    "current_contract env = c" "\<not> authorised env c"
  shows "solvent c s'"
  using assms(1,2)
proof (rule stake_collateral_OkE)
  fix tok st ev
  assume *: "authorised env a" "rs_stakes s a = None" "rs_staking_token s = Some tok"
    and st: "st = \<lparr>stake_organizer = a, stake_token = tok, stake_amount = amount,
        stake_staked_at = timestamp env, stake_is_verified = (rc_min_stake_amount s \<le> amount),
        stake_reward_balance = 0, stake_total_rewards_claimed = 0\<rparr>"
    and s': "s' = publish ev (s\<lparr>rc_transfers := rc_transfers s @ [\<lparr>tr_token = tok, tr_from = a,
            tr_to = current_contract env, tr_amount = amount\<rparr>],
          rs_stakes := (rs_stakes s)(a \<mapsto> st), rs_total_staked := rs_total_staked s + amount,
          rs_stakers := rs_stakers s @ [a]\<rparr>)"
  have "a \<notin> set (rs_stakers s)" using *(2) assms(2) by (auto simp: staking_inv_def)
  then have "liabilities t s' = liabilities t s + owed_in t st" for t
    by (simp add: s' liabilities_def stake_sum_add)
  moreover have "a \<noteq> c" using *(1) assms(5) by auto
  ultimately show ?thesis
    using assms(3,4) * by (auto simp: solvent_def s' st owed_in_def)
qed

lemma solvent_unstake:
  assumes "unstake_collateral env a s = Ok s'" "staking_inv s" "solvent c s" "current_contract env = c"
  shows "solvent c s'"
  using assms(1,2)
proof (rule unstake_collateral_OkE)
  fix st ev
  assume st: "rs_stakes s a = Some st"
    and s': "s' = publish ev (s\<lparr>rc_transfers := rc_transfers s @ [\<lparr>tr_token = stake_token st,
            tr_from = current_contract env, tr_to = a, tr_amount = stake_amount st\<rparr>],
          rs_total_staked := rs_total_staked s - stake_amount st,
          rs_stakes := (rs_stakes s)(a := None),
          rs_stakers := filter (\<lambda>b. b \<noteq> a) (rs_stakers s)\<rparr>)"
  have inv: "distinct (rs_stakers s)" "a \<in> set (rs_stakers s)" "0 \<le> stake_reward_balance st"
    using st assms(2) by (auto simp: staking_inv_def)
  have "liabilities t s' = liabilities t s - owed_in t st" for t
    using stake_sum_remove [where m = "rs_stakes s", OF inv(1,2) st] by (simp add: s' liabilities_def)
  moreover have "a \<noteq> c" using st assms(3) by (auto simp: solvent_def)
  moreover have "liabilities t s \<le> net_inflow t c (rc_transfers s)" for t
    using assms(3) by (simp add: solvent_def)
  ultimately have "liabilities t s' \<le> net_inflow t c (rc_transfers s')" for t
    using assms(4) inv(3) by (auto simp: s' owed_in_def) (smt (verit))+
  then show ?thesis
    using assms(3) by (auto simp: solvent_def s')
qed

lemma solvent_claim:
  assumes "claim_staker_rewards env a s = Ok (s', r)" "staking_inv s" "solvent c s"
    "current_contract env = c"
  shows "solvent c s'"
  using assms(1,2)
proof (rule claim_staker_rewards_OkE)
  fix st st' ev
  assume st: "rs_stakes s a = Some st" and r: "r = stake_reward_balance st"
    and st': "st' = st\<lparr>stake_total_rewards_claimed := saturating_add_i128 (stake_total_rewards_claimed st) r,
       stake_reward_balance := 0\<rparr>"
    and s': "s' = publish ev (s\<lparr>rc_transfers := rc_transfers s @ [\<lparr>tr_token = stake_token st,
            tr_from = current_contract env, tr_to = a, tr_amount = r\<rparr>],
          rs_stakes := (rs_stakes s)(a \<mapsto> st')\<rparr>)"
  have inv: "distinct (rs_stakers s)" "a \<in> set (rs_stakers s)"
    using st assms(2) by (auto simp: staking_inv_def)
  have "liabilities t s' = liabilities t s + owed_in t st' - owed_in t st" for t
    using stake_sum_update [where m = "rs_stakes s", OF inv st] by (simp add: s' liabilities_def)
  moreover have "a \<noteq> c" using st assms(3) by (auto simp: solvent_def)
  moreover have "liabilities t s \<le> net_inflow t c (rc_transfers s)" for t
    using assms(3) by (simp add: solvent_def)
  ultimately have "liabilities t s' \<le> net_inflow t c (rc_transfers s')" for t
    using assms(4) by (simp add: s' owed_in_def st' r)
  moreover have "stake_token st' = stake_token st" "rs_stakes s' = (rs_stakes s)(a \<mapsto> st')"
    "rs_staking_token s' = rs_staking_token s"
    by (simp_all add: st' s')
  ultimately show ?thesis
    using assms(3) st \<open>a \<noteq> c\<close> unfolding solvent_def by (metis fun_upd_apply option.inject)
qed

lemma solvent_distribute:
  assumes "distribute_staker_rewards env caller R s = Ok s'" "staking_inv s" "solvent c s"
    "current_contract env = c" "\<not> authorised env c"
  shows "solvent c s'"
  using assms(1,2)
proof (rule distribute_OkE)
  fix tok ev
  let ?T = "rs_total_staked s" and ?sum = "\<lambda>f. stake_sum f (rs_stakers s) (rs_stakes s)"
  assume pos: "0 < R" "0 < ?T" and auth: "authorised env caller" and tok: "rs_staking_token s = Some tok"
    and s': "s' = publish ev (s\<lparr>rc_transfers := rc_transfers s @ [\<lparr>tr_token = tok, tr_from = caller,
            tr_to = current_contract env, tr_amount = R\<rparr>],
          rs_stakes := map_option (rewarded R ?T) \<circ> rs_stakes s\<rparr>)"
  let ?share = "\<lambda>st. reward_share R ?T (stake_amount st)"
  have inv: "0 < stake_amount st \<and> 0 \<le> stake_reward_balance st \<and> stake_token st = tok"
    if "rs_stakes s a = Some st" for a st
    using assms(2,3) that tok by (auto simp: staking_inv_def solvent_def)
  have "liabilities t s' = ?sum (\<lambda>st. owed_in t (rewarded R ?T st))" for t
    unfolding s' liabilities_def by (simp, rule stake_sum_map) simp
  also have "?sum (\<lambda>st. owed_in t (rewarded R ?T st))
      \<le> ?sum (\<lambda>st. owed_in t st + (if t = tok then ?share st else 0))" for t
    using inv rewarded_balance(3) [OF pos] by (intro stake_sum_mono) (fastforce simp: owed_in_def)
  finally have "liabilities t s' \<le> liabilities t s + ?sum (\<lambda>st. if t = tok then ?share st else 0)" for t
    by (simp add: stake_sum_plus liabilities_def)
  moreover have "?sum (\<lambda>st. if t = tok then ?share st else 0) \<le> (if t = tok then R else 0)" for t
    using reward_shares_le [OF assms(2) pos] by simp
  moreover have "liabilities t s \<le> net_inflow t c (rc_transfers s)" for t
    using assms(3) by (simp add: solvent_def)
  moreover have "net_inflow t c (rc_transfers s') = net_inflow t c (rc_transfers s) + (if t = tok then R else 0)" for t
    using auth assms(4,5) by (auto simp: s')
  ultimately have "liabilities t s' \<le> net_inflow t c (rc_transfers s')" for t
    by (smt (verit, best))
  then show ?thesis
    using assms(3) by (auto simp: solvent_def s')
qed

section \<open>Loyalty scores\<close>

text \<open>The discount grows with the score and never exceeds ten percent.\<close>

lemma get_loyalty_discount_bps_le: "get_loyalty_discount_bps guest s \<le> 1000"
  by (simp add: get_loyalty_discount_bps_def Let_def)

lemma saturating_add_u_ge: "a < 2 ^ w \<Longrightarrow> a \<le> saturating_add_u w a b"
proof -
  assume "a < 2 ^ w"
  then have "a \<le> 2 ^ w - 1" by linarith
  then show ?thesis unfolding saturating_add_u_def by (simp only: min.bounded_iff) simp
qed

lemma saturating_add_u_32 [simp]: "saturating_add_u 32 a b < 4294967296"
  using saturating_add_u_bound [of 32 a b] by simp

definition profiles_ok :: "registry \<Rightarrow> bool" where
  "profiles_ok s \<longleftrightarrow> (\<forall>g p. rs_profiles s g = Some p \<longrightarrow>
     guest_address p = g \<and> guest_loyalty_score p < 2 ^ 64 \<and> guest_tickets_purchased p < 2 ^ 32)"

definition score_of :: "address \<Rightarrow> registry \<Rightarrow> nat" where
  "score_of g s = (case rs_profiles s g of Some p \<Rightarrow> guest_loyalty_score p | None \<Rightarrow> 0)"

lemma update_loyalty_score_OkE:
  assumes "update_loyalty_score env caller g n amount mult s = Ok s'" "profiles_ok s"
  obtains p ev where "authorised env caller"
    "rc_admin s = Some caller \<or> rc_ticket_payment s = Some caller" "0 < n"
    "guest_address p = g" "guest_loyalty_score p = saturating_add_u 64 (score_of g s)
        (saturating_mul_u 64 (saturating_mul_u 64 n 10) (if mult = 0 then 1 else mult))"
    "guest_tickets_purchased p < 2 ^ 32" "guest_last_updated p = timestamp env"
    "s' = publish ev (s\<lparr>rs_profiles := (rs_profiles s)(g \<mapsto> p)\<rparr>)"
proof -
  let ?old = "unwrap_or (rs_profiles s g) \<lparr>guest_address = g, guest_loyalty_score = 0,
    guest_tickets_purchased = 0, guest_total_spent = 0, guest_last_updated = 0\<rparr>"
  let ?p = "?old\<lparr>guest_loyalty_score := saturating_add_u 64 (guest_loyalty_score ?old)
        (saturating_mul_u 64 (saturating_mul_u 64 n 10) (if mult = 0 then 1 else mult)),
      guest_tickets_purchased := saturating_add_u 32 (guest_tickets_purchased ?old) n,
      guest_total_spent := saturating_add_i128 (guest_total_spent ?old) amount,
      guest_last_updated := timestamp env\<rparr>"
  have p0: "guest_address ?old = g" "guest_loyalty_score ?old = score_of g s"
    using assms(2) by (auto simp: profiles_ok_def score_of_def unwrap_or_def split: option.splits)
  have "authorised env caller \<and> (rc_admin s = Some caller \<or> rc_ticket_payment s = Some caller) \<and> 0 < n
      \<and> (\<exists>ev. s' = publish ev (s\<lparr>rs_profiles := (rs_profiles s)(guest_address ?p \<mapsto> ?p)\<rparr>))"
    using assms(1) unfolding update_loyalty_score_def Let_def
    by (auto simp del: fun_upd_apply cong: if_cong split: if_splits)
  then show thesis
    using that [of ?p] p0 by auto
qed

lemma loyalty_discount_mono:
  "score_of h s \<le> score_of h t \<Longrightarrow> get_loyalty_discount_bps h s \<le> get_loyalty_discount_bps h t"
  by (auto simp: get_loyalty_discount_bps_def score_of_def Let_def)

lemma update_loyalty_score_mono:
  assumes "update_loyalty_score env caller g n amount mult s = Ok s'" "profiles_ok s"
  shows "profiles_ok s' \<and> (\<forall>h. score_of h s \<le> score_of h s')
    \<and> (\<forall>h. get_loyalty_discount_bps h s \<le> get_loyalty_discount_bps h s')"
  using assms
proof (rule update_loyalty_score_OkE)
  fix p ev
  assume p: "guest_address p = g" "guest_tickets_purchased p < 2 ^ 32"
    "guest_loyalty_score p = saturating_add_u 64 (score_of g s)
        (saturating_mul_u 64 (saturating_mul_u 64 n 10) (if mult = 0 then 1 else mult))"
    and s': "s' = publish ev (s\<lparr>rs_profiles := (rs_profiles s)(g \<mapsto> p)\<rparr>)"
  have "score_of g s < 2 ^ 64"
    using assms(2) by (auto simp: profiles_ok_def score_of_def split: option.splits)
  then have ge: "score_of g s \<le> guest_loyalty_score p" "guest_loyalty_score p < 2 ^ 64"
    unfolding p(3) by (rule saturating_add_u_ge) (rule saturating_add_u_bound)
  then have mono: "score_of h s \<le> score_of h s'" for h
    by (simp add: s' score_of_def)
  then have "get_loyalty_discount_bps h s \<le> get_loyalty_discount_bps h s'" for h
    by (rule loyalty_discount_mono)
  moreover have "profiles_ok s'"
    using assms(2) p(1,2) ge(2) by (simp add: profiles_ok_def s')
  ultimately show ?thesis using mono by simp
qed


section \<open>Frames\<close>

text \<open>The parts of the state that staking and loyalty operations can change.\<close>

definition staking_frame :: "registry \<Rightarrow> registry \<Rightarrow> bool" where
  "staking_frame s s' \<longleftrightarrow>
     s'\<lparr>rc_transfers := rc_transfers s, rc_published := rc_published s, rs_stakes := rs_stakes s,
        rs_total_staked := rs_total_staked s, rs_stakers := rs_stakers s\<rparr> = s"

lemma staking_frame_ops:
  assumes "staking_inv s"
  shows "stake_collateral env a n s = Ok s' \<Longrightarrow> staking_frame s s'"
    and "unstake_collateral env a s = Ok s' \<Longrightarrow> staking_frame s s'"
    and "distribute_staker_rewards env a n s = Ok s' \<Longrightarrow> staking_frame s s'"
    and "claim_staker_rewards env a s = Ok (s', r) \<Longrightarrow> staking_frame s s'"
proof -
  show "stake_collateral env a n s = Ok s' \<Longrightarrow> staking_frame s s'"
    by (erule stake_collateral_OkE [OF _ assms]) (simp add: staking_frame_def publish_def)
  show "unstake_collateral env a s = Ok s' \<Longrightarrow> staking_frame s s'"
    by (erule unstake_collateral_OkE [OF _ assms]) (simp add: staking_frame_def publish_def)
  show "distribute_staker_rewards env a n s = Ok s' \<Longrightarrow> staking_frame s s'"
    by (erule distribute_OkE [OF _ assms]) (simp add: staking_frame_def publish_def)
  show "claim_staker_rewards env a s = Ok (s', r) \<Longrightarrow> staking_frame s s'"
    by (erule claim_staker_rewards_OkE [OF _ assms]) (simp add: staking_frame_def publish_def)
qed

end
