(* ===== verification/Registry_Series.thy ===== *)
theory Registry_Series
  imports Registry_State
begin

text \<open>
  Series of events and season passes (\<open>event_registry/src/lib.rs\<close> lines 50 to 151, storage in
  \<open>storage.rs\<close> lines 129 to 216).  A pass is redeemed at most as often as its limit allows, however
  the calls interleave; the index from a holder to a pass, on the other hand, is only as good as the
  pass identifiers the organizers choose.
\<close>

section \<open>Storage\<close>

fun index_series_events :: "string \<Rightarrow> string list \<Rightarrow> registry \<Rightarrow> registry" where
  "index_series_events sid [] s = s"
| "index_series_events sid (event_id # rest) s =
     index_series_events sid rest (s\<lparr>rs_series_event := insert (sid, event_id) (rs_series_event s)\<rparr>)"

definition store_series :: "series_registry \<Rightarrow> registry \<Rightarrow> registry" where
  "store_series series s =
     index_series_events (series_id series) (series_event_ids series)
       (s\<lparr>rs_series := (rs_series s)(series_id series \<mapsto> series)\<rparr>)"

definition series_contains_event :: "string \<Rightarrow> string \<Rightarrow> registry \<Rightarrow> bool" where
  "series_contains_event sid event_id s = ((sid, event_id) \<in> rs_series_event s)"

definition store_series_pass :: "series_pass \<Rightarrow> registry \<Rightarrow> registry" where
  [contract_defs]:
  "store_series_pass pass s =
     s\<lparr>rs_passes := (rs_passes s)(pass_id pass \<mapsto> pass),
       rs_holder_pass := (rs_holder_pass s)((pass_holder pass, pass_series_id pass) \<mapsto> pass_id pass)\<rparr>"

definition get_holder_series_pass :: "address \<Rightarrow> string \<Rightarrow> registry \<Rightarrow> series_pass option" where
  "get_holder_series_pass holder sid s =
     (case rs_holder_pass s (holder, sid) of Some pid \<Rightarrow> rs_passes s pid | None \<Rightarrow> None)"

text \<open>The increment cannot overflow: the count is below the limit, itself a 32-bit number.\<close>

definition storage_increment_series_pass_usage ::
    "string \<Rightarrow> registry \<Rightarrow> (registry \<times> series_pass) option" where
  "storage_increment_series_pass_usage pid s =
     (case rs_passes s pid of
        Some pass \<Rightarrow>
          if pass_usage_count pass < pass_usage_limit pass
          then let pass' = pass\<lparr>pass_usage_count := pass_usage_count pass + 1\<rparr>
               in Some (store_series_pass pass' s, pass')
          else None
      | None \<Rightarrow> None)"


section \<open>Operations\<close>

fun check_series_events :: "address \<Rightarrow> string list \<Rightarrow> registry \<Rightarrow> (registry_error, unit) result" where
  "check_series_events organizer [] s = Ok ()"
| "check_series_events organizer (event_id # rest) s =
     rbind (ok_or (re_events s event_id) EventNotFound) (\<lambda>event.
     if ev_organizer event \<noteq> organizer then Err Unauthorized
     else check_series_events organizer rest s)"

definition register_series ::
    "env \<Rightarrow> string \<Rightarrow> string \<Rightarrow> string list \<Rightarrow> address \<Rightarrow> string option \<Rightarrow> registry
     \<Rightarrow> (registry_error, registry) result" where
  "register_series env sid name event_ids organizer metadata_cid s =
     rbind (require_auth env organizer) (\<lambda>_.
     rbind (check_series_events organizer event_ids s) (\<lambda>_.
     Ok (store_series \<lparr>series_id = sid, series_name = name, series_event_ids = event_ids,
           series_organizer = organizer, series_metadata_cid = metadata_cid\<rparr> s)))"

definition issue_series_pass ::
    "env \<Rightarrow> string \<Rightarrow> string \<Rightarrow> address \<Rightarrow> nat \<Rightarrow> nat \<Rightarrow> registry
     \<Rightarrow> (registry_error, registry) result" where
  "issue_series_pass env pid sid holder usage_limit expires_at s =
     rbind (ok_or (rs_series s sid) EventNotFound) (\<lambda>series.
     rbind (require_auth env (series_organizer series)) (\<lambda>_.
     Ok (store_series_pass \<lparr>pass_id = pid, pass_series_id = sid, pass_holder = holder,
           pass_usage_limit = usage_limit, pass_usage_count = 0, pass_issued_at = timestamp env,
           pass_expires_at = expires_at\<rparr> s)))"

definition has_valid_series_pass :: "env \<Rightarrow> address \<Rightarrow> string \<Rightarrow> registry \<Rightarrow> bool" where
  "has_valid_series_pass env holder sid s =
     (case get_holder_series_pass holder sid s of
        Some pass \<Rightarrow>
          if pass_usage_limit pass > 0 \<and> pass_usage_count pass \<ge> pass_usage_limit pass then False
          else if pass_expires_at pass > 0 \<and> timestamp env \<ge> pass_expires_at pass then False
          else True
      | None \<Rightarrow> False)"

definition increment_series_pass_usage :: "string \<Rightarrow> registry \<Rightarrow> (registry_error, registry) result" where
  "increment_series_pass_usage pid s =
     (case storage_increment_series_pass_usage pid s of
        Some (s', _) \<Rightarrow> Ok s'
      | None \<Rightarrow> Err EventNotFound)"


section \<open>Facts\<close>

lemma index_series_events_eq:
  "index_series_events sid ids s = s\<lparr>rs_series_event := rs_series_event s \<union> {sid} \<times> set ids\<rparr>"
  by (induction ids arbitrary: s) auto

lemma check_series_events_Ok:
  "check_series_events organizer ids s = Ok u \<longleftrightarrow>
     (\<forall>i\<in>set ids. \<exists>e. re_events s i = Some e \<and> ev_organizer e = organizer)"
  by (induction ids) (auto split: if_splits)

lemma register_series_Ok:
  "register_series env sid name ids organizer cid s = Ok s' \<longleftrightarrow>
     authorised env organizer
     \<and> (\<forall>i\<in>set ids. \<exists>e. re_events s i = Some e \<and> ev_organizer e = organizer)
     \<and> s' = s\<lparr>rs_series := (rs_series s)(sid \<mapsto> \<lparr>series_id = sid, series_name = name,
               series_event_ids = ids, series_organizer = organizer, series_metadata_cid = cid\<rparr>),
              rs_series_event := rs_series_event s \<union> {sid} \<times> set ids\<rparr>"
  by (auto simp: register_series_def store_series_def index_series_events_eq check_series_events_Ok)

lemma increment_series_pass_usage_Ok:
  "increment_series_pass_usage pid s = Ok s' \<longleftrightarrow>
     (\<exists>pass. rs_passes s pid = Some pass \<and> pass_usage_count pass < pass_usage_limit pass
       \<and> s' = store_series_pass (pass\<lparr>pass_usage_count := pass_usage_count pass + 1\<rparr>) s)"
  by (auto simp: increment_series_pass_usage_def storage_increment_series_pass_usage_def Let_def
      split: option.splits if_splits)

text \<open>Passes are stored under their id, belong to a series, and are within their limit; a holder's
  entry names a stored pass.  Every event listed in a series is flagged as its member.\<close>

definition series_inv :: "registry \<Rightarrow> bool" where
  "series_inv s \<longleftrightarrow>
     (\<forall>pid p. rs_passes s pid = Some p \<longrightarrow>
        pass_id p = pid \<and> pass_usage_count p \<le> pass_usage_limit p \<and> rs_series s (pass_series_id p) \<noteq> None)
     \<and> (\<forall>h sid pid. rs_holder_pass s (h, sid) = Some pid \<longrightarrow> rs_passes s pid \<noteq> None)
     \<and> (\<forall>sid r. rs_series s sid = Some r \<longrightarrow>
          series_id r = sid \<and> (\<forall>i\<in>set (series_event_ids r). (sid, i) \<in> rs_series_event s))"

lemma series_inv_cong:
  "rs_passes s' = rs_passes s \<Longrightarrow> rs_holder_pass s' = rs_holder_pass s \<Longrightarrow> rs_series s' = rs_series s
   \<Longrightarrow> rs_series_event s' = rs_series_event s \<Longrightarrow> series_inv s' = series_inv s"
  by (simp add: series_inv_def)

lemma series_inv_register:
  "register_series env sid name ids organizer cid s = Ok s' \<Longrightarrow> series_inv s \<Longrightarrow> series_inv s'"
  unfolding register_series_Ok series_inv_def by auto

lemma series_inv_issue:
  "issue_series_pass env pid sid h lim ex s = Ok s' \<Longrightarrow> series_inv s \<Longrightarrow> series_inv s'"
  unfolding issue_series_pass_def series_inv_def by (auto simp: contract_defs split: if_splits)

lemma series_inv_increment:
  "increment_series_pass_usage pid s = Ok s' \<Longrightarrow> series_inv s \<Longrightarrow> series_inv s'"
  unfolding increment_series_pass_usage_Ok series_inv_def
  by (auto simp: store_series_pass_def split: if_splits)

text \<open>The parts of the state that change.\<close>

definition series_frame :: "registry \<Rightarrow> registry \<Rightarrow> bool" where
  "series_frame s s' \<longleftrightarrow>
     s'\<lparr>rs_series := rs_series s, rs_series_event := rs_series_event s, rs_passes := rs_passes s,
        rs_holder_pass := rs_holder_pass s\<rparr> = s"

lemma series_frame_ops:
  shows "register_series env sid name ids organizer cid s = Ok s' \<Longrightarrow> series_frame s s'"
    and "issue_series_pass env pid sid h lim ex s = Ok s' \<Longrightarrow> series_frame s s'"
    and "increment_series_pass_usage pid s = Ok s' \<Longrightarrow> series_frame s s'"
  by (auto simp: register_series_Ok issue_series_pass_def increment_series_pass_usage_Ok contract_defs
      series_frame_def)

text \<open>Redeeming a pass over and over.\<close>

fun redeem_times :: "string \<Rightarrow> nat \<Rightarrow> registry \<Rightarrow> (registry_error, registry) result" where
  "redeem_times pid 0 s = Ok s"
| "redeem_times pid (Suc n) s = rbind (increment_series_pass_usage pid s) (redeem_times pid n)"

lemma redeem_times_iff:
  assumes "series_inv s" "rs_passes s pid = Some pass"
  shows "is_ok (redeem_times pid n s) \<longleftrightarrow> n \<le> pass_usage_limit pass - pass_usage_count pass"
  using assms
proof (induction n arbitrary: s pass)
  case (Suc n)
  have le: "pass_usage_count pass \<le> pass_usage_limit pass" and id: "pass_id pass = pid"
    using Suc.prems by (auto simp: series_inv_def)
  show ?case
  proof (cases "pass_usage_count pass < pass_usage_limit pass")
    case True
    let ?p = "pass\<lparr>pass_usage_count := pass_usage_count pass + 1\<rparr>"
    have inc: "increment_series_pass_usage pid s = Ok (store_series_pass ?p s)"
      using True Suc.prems by (auto simp: increment_series_pass_usage_Ok)
    moreover have "rs_passes (store_series_pass ?p s) pid = Some ?p"
      by (simp add: store_series_pass_def id)
    ultimately show ?thesis
      using Suc.IH [of "store_series_pass ?p s" ?p] series_inv_increment [OF inc] Suc.prems(1) True
      by auto
  next
    case False
    then have "\<not> is_ok (increment_series_pass_usage pid s)"
      using Suc.prems by (auto simp: increment_series_pass_usage_Ok)
    with False le show ?thesis by (cases "increment_series_pass_usage pid s") auto
  qed
qed simp

end
