(* ===== verification/Registry_Dispute.thy ===== *)
theory Registry_Dispute
  imports Registry_State
begin

text \<open>
  Disputes about an event (\<open>event_registry/src/dispute.rs\<close>, storage in \<open>storage.rs\<close> lines 1338 to 1435):
  a ticket holder opens one, addresses vote once each while the voting period runs, and after it anyone
  can resolve.  The counters are exactly the recorded votes, the outcome is the strict majority, and it
  is final.  Whether an address holds a ticket is asked of the ticket contract: the answer is a parameter
  of the operation.
\<close>

section \<open>Storage\<close>

definition DISPUTE_SHARD_SIZE :: nat where "DISPUTE_SHARD_SIZE = 50"
definition DISPUTE_VOTING_DURATION :: nat where "DISPUTE_VOTING_DURATION = 172800"
definition DEFAULT_QUORUM_BPS :: nat where "DEFAULT_QUORUM_BPS = 3000"

definition store_dispute :: "dispute \<Rightarrow> registry \<Rightarrow> registry" where
  [contract_defs]: "store_dispute d s = s\<lparr>rs_disputes := (rs_disputes s)(dsp_event_id d \<mapsto> d)\<rparr>"

definition add_dispute_vote :: "string \<Rightarrow> address \<Rightarrow> registry \<Rightarrow> (registry_error, registry) result" where
  "add_dispute_vote event_id voter s =
     (let count = rs_vote_count s event_id;
          shard_id = count div DISPUTE_SHARD_SIZE;
          shard = rs_vote_shard s event_id shard_id @ [voter]
      in
      rbind (add_u 32 count 1) (\<lambda>count'.
      Ok (s\<lparr>rs_vote_shard := (rs_vote_shard s)(event_id := (rs_vote_shard s event_id)(shard_id := shard)),
            rs_vote_count := (rs_vote_count s)(event_id := count')\<rparr>)))"

definition get_dispute_votes :: "string \<Rightarrow> registry \<Rightarrow> dispute_vote list" where
  "get_dispute_votes event_id s =
     (let count = rs_vote_count s event_id in
      if count = 0 then []
      else concat (map (\<lambda>i. List.map_filter (\<lambda>voter. rs_dispute_votes s (event_id, voter))
                             (rs_vote_shard s event_id i))
                       [0..<div_ceil count DISPUTE_SHARD_SIZE]))"

definition has_voted :: "string \<Rightarrow> address \<Rightarrow> registry \<Rightarrow> bool" where
  "has_voted event_id voter s = (rs_dispute_votes s (event_id, voter) \<noteq> None)"

definition store_dispute_vote :: "string \<Rightarrow> address \<Rightarrow> dispute_vote \<Rightarrow> registry \<Rightarrow> registry" where
  [contract_defs]:
  "store_dispute_vote event_id voter vote s =
     s\<lparr>rs_dispute_votes := (rs_dispute_votes s)((event_id, voter) \<mapsto> vote)\<rparr>"


section \<open>Operations\<close>

definition open_dispute ::
    "(address \<Rightarrow> string \<Rightarrow> address \<Rightarrow> bool) \<Rightarrow> env \<Rightarrow> string \<Rightarrow> address \<Rightarrow> registry
     \<Rightarrow> (registry_error, registry) result" where
  "open_dispute has_confirmed_ticket env event_id opened_by s =
     rbind (require_auth env opened_by) (\<lambda>_.
     rbind (ok_or (re_events s event_id) EventNotFound) (\<lambda>event_info.
     if rs_disputes s event_id \<noteq> None then Err EventAlreadyExists
     else if ev_end_time event_info = 0 then Err EventNotEnded
     else
       rbind (add_u 64 (ev_end_time event_info) 172800) (\<lambda>limit.
       if timestamp env > limit then Err EventNotEnded
       else
         rbind (ok_or (rc_ticket_payment s) NotInitialized) (\<lambda>ticket_payment_addr.
         if \<not> has_confirmed_ticket ticket_payment_addr event_id opened_by then Err NotTicketHolder
         else
           rbind (add_u 64 (timestamp env) DISPUTE_VOTING_DURATION) (\<lambda>closes_at.
           Ok (publish (DisputeOpened_event event_id opened_by (timestamp env))
                (store_dispute
                  \<lparr>dsp_event_id = event_id, dsp_opened_by = opened_by, dsp_opened_at = timestamp env,
                   dsp_closes_at = closes_at, dsp_status = DisputeOpen, dsp_total_votes = 0,
                   dsp_buyer_votes = 0, dsp_organizer_votes = 0,
                   dsp_quorum_threshold_bps = DEFAULT_QUORUM_BPS, dsp_total_eligible_tickets = 0\<rparr> s)))))))"

definition count_vote :: "dispute_vote \<Rightarrow> dispute \<Rightarrow> (registry_error, dispute) result" where
  "count_vote vote d =
     rbind (ok_or (checked_add_u 32 (dsp_total_votes d) 1) SupplyOverflow) (\<lambda>n.
     let d1 = d\<lparr>dsp_total_votes := n\<rparr> in
     case vote of
       BuyerFavor \<Rightarrow>
         rbind (ok_or (checked_add_u 32 (dsp_buyer_votes d1) 1) SupplyOverflow) (\<lambda>m.
         Ok (d1\<lparr>dsp_buyer_votes := m\<rparr>))
     | OrganizerFavor \<Rightarrow>
         rbind (ok_or (checked_add_u 32 (dsp_organizer_votes d1) 1) SupplyOverflow) (\<lambda>m.
         Ok (d1\<lparr>dsp_organizer_votes := m\<rparr>)))"

definition vote_on_dispute ::
    "env \<Rightarrow> string \<Rightarrow> address \<Rightarrow> dispute_vote \<Rightarrow> registry \<Rightarrow> (registry_error, registry) result" where
  "vote_on_dispute env event_id voter vote s =
     rbind (require_auth env voter) (\<lambda>_.
     rbind (ok_or (rs_disputes s event_id) DisputeNotFound) (\<lambda>dispute.
     if dsp_status dispute \<noteq> DisputeOpen \<and> dsp_status dispute \<noteq> DisputeVoting then Err DisputeNotOpen
     else if timestamp env > dsp_closes_at dispute then Err ProposalExpired
     else if has_voted event_id voter s then Err AlreadyVoted
     else
       let dispute1 = (if dsp_status dispute = DisputeOpen
                       then dispute\<lparr>dsp_status := DisputeVoting\<rparr> else dispute)
       in
       rbind (count_vote vote dispute1) (\<lambda>dispute2.
       rbind (add_dispute_vote event_id voter (store_dispute_vote event_id voter vote s)) (\<lambda>s1.
       Ok (publish (DisputeVoted_event event_id voter vote (timestamp env))
            (store_dispute dispute2 s1))))))"

definition resolve_dispute ::
    "env \<Rightarrow> string \<Rightarrow> registry \<Rightarrow> (registry_error, registry \<times> dispute_status) result" where
  "resolve_dispute env event_id s =
     rbind (ok_or (rs_disputes s event_id) DisputeNotFound) (\<lambda>dispute.
     if timestamp env \<le> dsp_closes_at dispute then Err ProposalExpired
     else if dsp_status dispute = ResolvedBuyer \<or> dsp_status dispute = ResolvedOrganizer
     then Ok (s, dsp_status dispute)
     else
       let n = dsp_total_votes dispute in
       rbind (ok_or (checked_mul_u 32 (dsp_buyer_votes dispute) 10000) SupplyOverflow) (\<lambda>buyer_bps.
       let meets_quorum = (if n > 0 then buyer_bps div n \<ge> dsp_quorum_threshold_bps dispute else False);
           status = (if meets_quorum \<and> dsp_buyer_votes dispute > dsp_organizer_votes dispute
                     then ResolvedBuyer else ResolvedOrganizer);
           dispute' = dispute\<lparr>dsp_status := status\<rparr>
       in
       Ok (publish (DisputeResolved_event event_id status (dsp_buyer_votes dispute')
              (dsp_organizer_votes dispute') (dsp_total_votes dispute') (timestamp env))
            (store_dispute dispute' s), status)))"


section \<open>The voter list is a sharded index\<close>

interpretation vote_index: sharded_index DISPUTE_SHARD_SIZE rs_vote_shard rs_vote_count add_dispute_vote
  by unfold_locales (auto simp: DISPUTE_SHARD_SIZE_def add_dispute_vote_def Let_def)

lemma map_filter_concat:
  "concat (map (\<lambda>i. List.map_filter f (g i)) is) = List.map_filter f (concat (map g is))"
  by (induction "is") (simp_all add: List.map_filter_def)

lemma get_dispute_votes_contents:
  "get_dispute_votes i s = List.map_filter (\<lambda>a. rs_dispute_votes s (i, a)) (vote_index.contents s i)"
  by (cases "rs_vote_count s i = 0")
    (simp_all add: get_dispute_votes_def vote_index.contents_def read_shards_def Let_def
      map_filter_concat div_ceil_def map_filter_simps)

text \<open>The invariant: a dispute's counters are its recorded votes, one per voter.\<close>

definition tally :: "dispute_vote \<Rightarrow> string \<Rightarrow> registry \<Rightarrow> nat" where
  "tally v i s = length (filter (\<lambda>a. rs_dispute_votes s (i, a) = Some v) (vote_index.contents s i))"

definition dispute_ok :: "string \<Rightarrow> registry \<Rightarrow> dispute \<Rightarrow> bool" where
  "dispute_ok i s d \<longleftrightarrow>
     dsp_event_id d = i \<and> dsp_quorum_threshold_bps d = DEFAULT_QUORUM_BPS
     \<and> dsp_total_votes d = length (vote_index.contents s i)
     \<and> dsp_buyer_votes d = tally BuyerFavor i s \<and> dsp_organizer_votes d = tally OrganizerFavor i s
     \<and> dsp_status d \<noteq> DisputeExpired"

definition dispute_inv :: "registry \<Rightarrow> bool" where
  "dispute_inv s \<longleftrightarrow>
     (\<forall>i. vote_index.dense s i \<and> distinct (vote_index.contents s i)
        \<and> (\<forall>a. a \<in> set (vote_index.contents s i) \<longleftrightarrow> rs_dispute_votes s (i, a) \<noteq> None))
     \<and> (\<forall>i. rs_disputes s i = None \<longrightarrow> vote_index.contents s i = [])
     \<and> (\<forall>i d. rs_disputes s i = Some d \<longrightarrow> dispute_ok i s d)"

lemma dispute_ok_cong:
  "rs_dispute_votes s' = rs_dispute_votes s \<Longrightarrow> rs_vote_shard s' = rs_vote_shard s
   \<Longrightarrow> rs_vote_count s' = rs_vote_count s \<Longrightarrow> dispute_ok i s' d = dispute_ok i s d"
  by (simp add: dispute_ok_def tally_def vote_index.contents_def)

lemma dispute_inv_cong:
  "rs_disputes s' = rs_disputes s \<Longrightarrow> rs_dispute_votes s' = rs_dispute_votes s
   \<Longrightarrow> rs_vote_shard s' = rs_vote_shard s \<Longrightarrow> rs_vote_count s' = rs_vote_count s
   \<Longrightarrow> dispute_inv s' = dispute_inv s"
  using dispute_ok_cong [of s' s]
  by (simp add: dispute_inv_def vote_index.contents_def vote_index.dense_def)

text \<open>Every vote is for one of the two sides.\<close>

lemma tally_sum:
  assumes "dispute_inv s"
  shows "tally BuyerFavor i s + tally OrganizerFavor i s = length (vote_index.contents s i)"
proof -
  have "\<forall>a\<in>set (vote_index.contents s i). (rs_dispute_votes s (i, a) = Some OrganizerFavor)
      = (rs_dispute_votes s (i, a) \<noteq> Some BuyerFavor)"
    using assms unfolding dispute_inv_def by (metis dispute_vote.exhaust not_None_eq option.inject dispute_vote.distinct(1))
  then have "tally OrganizerFavor i s
      = length (filter (\<lambda>a. rs_dispute_votes s (i, a) \<noteq> Some BuyerFavor) (vote_index.contents s i))"
    unfolding tally_def by (auto intro!: arg_cong [where f = length] filter_cong)
  then show ?thesis
    by (simp add: tally_def sum_length_filter_compl)
qed

text \<open>The counters count the list that the reader returns.\<close>

lemma dispute_counters:
  assumes "dispute_inv s" "rs_disputes s i = Some d"
  shows "dsp_total_votes d = length (get_dispute_votes i s)
    \<and> dsp_buyer_votes d = count_list (get_dispute_votes i s) BuyerFavor
    \<and> dsp_organizer_votes d = count_list (get_dispute_votes i s) OrganizerFavor
    \<and> dsp_total_votes d = card {a. rs_dispute_votes s (i, a) \<noteq> None}"
proof -
  let ?c = "vote_index.contents s i" and ?v = "\<lambda>a. rs_dispute_votes s (i, a)"
  have c: "distinct ?c" "\<And>a. a \<in> set ?c \<longleftrightarrow> ?v a \<noteq> None" and ok: "dispute_ok i s d"
    using assms by (auto simp: dispute_inv_def)
  have votes: "get_dispute_votes i s = map (the \<circ> ?v) ?c"
    using c(2) unfolding get_dispute_votes_contents List.map_filter_def by (simp add: filter_id_conv)
  have "count_list (map (the \<circ> ?v) ?c) u = tally u i s" for u
    unfolding tally_def count_list_eq_length_filter filter_map length_map comp_def
    using c(2) by (intro arg_cong [where f = length] filter_cong) auto
  moreover have "{a. ?v a \<noteq> None} = set ?c" using c(2) by blast
  then have "card {a. ?v a \<noteq> None} = length ?c" using distinct_card [OF c(1)] by simp
  ultimately show ?thesis using ok by (simp add: votes dispute_ok_def)
qed

lemma majority_meets_quorum:
  fixes b n :: nat
  assumes "b > n"
  shows "b * 10000 div (b + n) \<ge> 3000"
proof -
  have "5000 * (b + n) \<le> b * 10000" using assms by simp
  moreover have "0 < b + n" using assms by simp
  ultimately have "5000 \<le> b * 10000 div (b + n)" by (simp add: less_eq_div_iff_mult_less_eq)
  then show ?thesis by simp
qed

lemma open_dispute_OkE:
  assumes "open_dispute holds_ticket env i a s = Ok s'"
  obtains e d tp where "authorised env a" "re_events s i = Some e" "rs_disputes s i = None"
    "ev_end_time e \<noteq> 0" "timestamp env \<le> ev_end_time e + 172800" "rc_ticket_payment s = Some tp"
    "holds_ticket tp i a"
    "d = \<lparr>dsp_event_id = i, dsp_opened_by = a, dsp_opened_at = timestamp env,
       dsp_closes_at = timestamp env + 172800, dsp_status = DisputeOpen, dsp_total_votes = 0,
       dsp_buyer_votes = 0, dsp_organizer_votes = 0,
       dsp_quorum_threshold_bps = DEFAULT_QUORUM_BPS, dsp_total_eligible_tickets = 0\<rparr>"
    "s' = publish (DisputeOpened_event i a (timestamp env)) (s\<lparr>rs_disputes := (rs_disputes s)(i \<mapsto> d)\<rparr>)"
  using assms that
  by (auto simp: open_dispute_def store_dispute_def DISPUTE_VOTING_DURATION_def split: if_splits)

lemma dispute_inv_open:
  assumes "open_dispute holds_ticket env i a s = Ok s'" "dispute_inv s"
  shows "dispute_inv s'"
  using assms(1)
proof (rule open_dispute_OkE)
  fix e d tp
  assume none: "rs_disputes s i = None"
    and d: "d = \<lparr>dsp_event_id = i, dsp_opened_by = a, dsp_opened_at = timestamp env,
       dsp_closes_at = timestamp env + 172800, dsp_status = DisputeOpen, dsp_total_votes = 0,
       dsp_buyer_votes = 0, dsp_organizer_votes = 0,
       dsp_quorum_threshold_bps = DEFAULT_QUORUM_BPS, dsp_total_eligible_tickets = 0\<rparr>"
    and s': "s' = publish (DisputeOpened_event i a (timestamp env)) (s\<lparr>rs_disputes := (rs_disputes s)(i \<mapsto> d)\<rparr>)"
  have "vote_index.contents s i = []" using assms(2) none by (simp add: dispute_inv_def)
  then have ok: "dispute_ok i s d" by (simp add: dispute_ok_def d tally_def)
  have same: "vote_index.contents s' = vote_index.contents s" "vote_index.dense s' = vote_index.dense s"
    by (auto simp: s' vote_index.contents_def vote_index.dense_def)
  have oks: "dispute_ok j s' x = dispute_ok j s x" for j x
    by (rule dispute_ok_cong) (simp_all add: s')
  show ?thesis
    using assms(2) ok unfolding dispute_inv_def same oks by (auto simp: s')
qed

lemma count_vote_Ok:
  "count_vote v d = Ok d' \<longleftrightarrow>
     dsp_total_votes d + 1 < 2 ^ 32
     \<and> (case v of BuyerFavor \<Rightarrow> dsp_buyer_votes d + 1 < 2 ^ 32
              | OrganizerFavor \<Rightarrow> dsp_organizer_votes d + 1 < 2 ^ 32)
     \<and> d' = d\<lparr>dsp_total_votes := dsp_total_votes d + 1,
               dsp_buyer_votes := dsp_buyer_votes d + (if v = BuyerFavor then 1 else 0),
               dsp_organizer_votes := dsp_organizer_votes d + (if v = OrganizerFavor then 1 else 0)\<rparr>"
  by (cases v) (auto simp: count_vote_def Let_def)

lemma vote_on_dispute_OkE:
  assumes "vote_on_dispute env i a v s = Ok s'"
  obtains d s1 where "authorised env a" "rs_disputes s i = Some d"
    "dsp_status d = DisputeOpen \<or> dsp_status d = DisputeVoting" "timestamp env \<le> dsp_closes_at d"
    "rs_dispute_votes s (i, a) = None"
    "add_dispute_vote i a (s\<lparr>rs_dispute_votes := (rs_dispute_votes s)((i, a) \<mapsto> v)\<rparr>) = Ok s1"
    "s' = publish (DisputeVoted_event i a v (timestamp env)) (s1\<lparr>rs_disputes := (rs_disputes s1)
        (dsp_event_id d \<mapsto> d\<lparr>dsp_status := DisputeVoting, dsp_total_votes := dsp_total_votes d + 1,
               dsp_buyer_votes := dsp_buyer_votes d + (if v = BuyerFavor then 1 else 0),
               dsp_organizer_votes := dsp_organizer_votes d + (if v = OrganizerFavor then 1 else 0)\<rparr>)\<rparr>)"
proof -
  obtain d where d: "rs_disputes s i = Some d" using assms by (auto simp: vote_on_dispute_def)
  have st: "(if dsp_status d = DisputeOpen then d\<lparr>dsp_status := DisputeVoting\<rparr> else d)
      = d\<lparr>dsp_status := DisputeVoting\<rparr>" if "dsp_status d = DisputeOpen \<or> dsp_status d = DisputeVoting"
    using that by (cases d) auto
  let ?d1 = "if dsp_status d = DisputeOpen then d\<lparr>dsp_status := DisputeVoting\<rparr> else d"
  obtain d2 s1 where
    *: "authorised env a" "dsp_status d = DisputeOpen \<or> dsp_status d = DisputeVoting"
      "timestamp env \<le> dsp_closes_at d" "rs_dispute_votes s (i, a) = None"
    and d2: "count_vote v ?d1 = Ok d2"
    and s1: "add_dispute_vote i a (s\<lparr>rs_dispute_votes := (rs_dispute_votes s)((i, a) \<mapsto> v)\<rparr>) = Ok s1"
    and s': "s' = publish (DisputeVoted_event i a v (timestamp env)) (store_dispute d2 s1)"
    using assms d
    by (auto simp: vote_on_dispute_def has_voted_def store_dispute_vote_def Let_def not_less
        simp del: fun_upd_apply split: if_splits)
  show thesis
    using d2 unfolding st [OF *(2)] count_vote_Ok
    by (intro that [OF *(1) d *(2-4) s1]) (simp add: s' store_dispute_def)
qed

lemma add_dispute_vote_frame:
  assumes "add_dispute_vote i a s = Ok s1"
  shows "s1\<lparr>rs_vote_shard := rs_vote_shard s, rs_vote_count := rs_vote_count s\<rparr> = s"
    "rs_disputes s1 = rs_disputes s" "rs_dispute_votes s1 = rs_dispute_votes s"
  using assms by (auto simp: add_dispute_vote_def Let_def)

lemma tally_append:
  assumes "vote_index.contents s' i = vote_index.contents s i @ [a]" "a \<notin> set (vote_index.contents s i)"
    "rs_dispute_votes s' = (rs_dispute_votes s)((i, a) \<mapsto> v)"
  shows "tally u i s' = tally u i s + (if u = v then 1 else 0)"
proof -
  have "filter (\<lambda>b. rs_dispute_votes s' (i, b) = Some u) (vote_index.contents s i)
      = filter (\<lambda>b. rs_dispute_votes s (i, b) = Some u) (vote_index.contents s i)"
    using assms(2,3) by (intro filter_cong) auto
  then show ?thesis using assms(1,3) by (simp add: tally_def)
qed

lemma dispute_inv_vote:
  assumes "vote_on_dispute env i a v s = Ok s'" "dispute_inv s"
  shows "dispute_inv s'" "vote_index.contents s' i = vote_index.contents s i @ [a]"
proof -
  obtain d s1 where d: "rs_disputes s i = Some d" and new: "rs_dispute_votes s (i, a) = None"
    and st: "dsp_status d = DisputeOpen \<or> dsp_status d = DisputeVoting"
    and s1: "add_dispute_vote i a (s\<lparr>rs_dispute_votes := (rs_dispute_votes s)((i, a) \<mapsto> v)\<rparr>) = Ok s1"
    and s': "s' = publish (DisputeVoted_event i a v (timestamp env)) (s1\<lparr>rs_disputes := (rs_disputes s1)
        (dsp_event_id d \<mapsto> d\<lparr>dsp_status := DisputeVoting, dsp_total_votes := dsp_total_votes d + 1,
               dsp_buyer_votes := dsp_buyer_votes d + (if v = BuyerFavor then 1 else 0),
               dsp_organizer_votes := dsp_organizer_votes d + (if v = OrganizerFavor then 1 else 0)\<rparr>)\<rparr>)"
    (is "_ = publish _ (s1\<lparr>rs_disputes := (rs_disputes s1)(_ \<mapsto> ?d)\<rparr>)")
    by (rule vote_on_dispute_OkE [OF assms(1)])
  let ?s0 = "s\<lparr>rs_dispute_votes := (rs_dispute_votes s)((i, a) \<mapsto> v)\<rparr>"
  have inv: "vote_index.dense s j" "distinct (vote_index.contents s j)" "dispute_ok i s d"
    "b \<in> set (vote_index.contents s j) \<longleftrightarrow> rs_dispute_votes s (j, b) \<noteq> None"
    "rs_disputes s j = None \<Longrightarrow> vote_index.contents s j = []"
    "rs_disputes s j = Some x \<Longrightarrow> dispute_ok j s x" for j b x
    using assms(2) d by (auto simp: dispute_inv_def)
  have id: "dsp_event_id d = i" using inv(3) by (simp add: dispute_ok_def)
  have c0: "vote_index.contents ?s0 j = vote_index.contents s j" "vote_index.dense ?s0 j = vote_index.dense s j"
    "vote_index.contents s' j = vote_index.contents s1 j" "vote_index.dense s' j = vote_index.dense s1 j" for j
    by (simp_all add: vote_index.contents_def vote_index.dense_def s')
  show ci: "vote_index.contents s' i = vote_index.contents s i @ [a]"
    using vote_index.append_contents [OF s1] inv(1) by (simp add: c0)
  have cj: "vote_index.contents s' j = vote_index.contents s j" if "j \<noteq> i" for j
    using vote_index.append_contents_other [OF s1 that] by (simp add: c0)
  have dense: "vote_index.dense s' j" for j
    using vote_index.append_dense [OF s1] inv(1) by (simp add: c0)
  have votes: "rs_dispute_votes s' = (rs_dispute_votes s)((i, a) \<mapsto> v)"
    "rs_disputes s' = (rs_disputes s)(i \<mapsto> ?d)"
    using add_dispute_vote_frame [OF s1] by (simp_all add: s' id)
  have fresh: "a \<notin> set (vote_index.contents s i)" using inv(4) new by simp
  have ok_i: "dispute_ok i s' ?d"
    using inv(3) tally_append [OF ci fresh votes(1)] ci by (auto simp: dispute_ok_def)
  have ok_j: "dispute_ok j s' x = dispute_ok j s x" if "j \<noteq> i" for j x
    using that by (simp add: dispute_ok_def tally_def cj votes)
  have "distinct (vote_index.contents s' j)"
      "b \<in> set (vote_index.contents s' j) \<longleftrightarrow> rs_dispute_votes s' (j, b) \<noteq> None" for j b
    using inv(2,4) fresh ci cj [of j] by (cases "j = i"; auto simp: votes)+
  then show "dispute_inv s'"
    using dense ok_i ok_j inv(5,6) cj unfolding dispute_inv_def by (auto simp: votes split: if_splits)
qed

text \<open>Resolving: the strict majority decides; the quorum test adds nothing to it.\<close>

lemma resolve_dispute_OkE:
  assumes "resolve_dispute env i s = Ok (s', st)" "dispute_inv s"
  obtains (again) d where "rs_disputes s i = Some d" "dsp_closes_at d < timestamp env"
      "dsp_status d = ResolvedBuyer \<or> dsp_status d = ResolvedOrganizer" "st = dsp_status d" "s' = s"
  | (decide) d where "rs_disputes s i = Some d" "dsp_closes_at d < timestamp env"
      "dsp_status d = DisputeOpen \<or> dsp_status d = DisputeVoting" "dsp_buyer_votes d * 10000 < 2 ^ 32"
      "st = (if dsp_organizer_votes d < dsp_buyer_votes d then ResolvedBuyer else ResolvedOrganizer)"
      "s' = publish (DisputeResolved_event i st (dsp_buyer_votes d) (dsp_organizer_votes d)
              (dsp_total_votes d) (timestamp env))
            (s\<lparr>rs_disputes := (rs_disputes s)(i \<mapsto> d\<lparr>dsp_status := st\<rparr>)\<rparr>)"
proof -
  obtain d where d: "rs_disputes s i = Some d" using assms(1) by (auto simp: resolve_dispute_def)
  then have ok: "dispute_ok i s d" using assms(2) by (simp add: dispute_inv_def)
  let ?b = "dsp_buyer_votes d" and ?o = "dsp_organizer_votes d"
  have n: "dsp_total_votes d = ?b + ?o"
    using ok tally_sum [OF assms(2), of i] by (simp add: dispute_ok_def)
  have "(if dsp_total_votes d > 0 then ?b * 10000 div dsp_total_votes d \<ge> dsp_quorum_threshold_bps d
      else False) \<and> ?b > ?o \<longleftrightarrow> ?b > ?o"
    using majority_meets_quorum [of ?o ?b] ok by (auto simp: n dispute_ok_def DEFAULT_QUORUM_BPS_def)
  moreover have "dsp_event_id d = i" "dsp_status d \<noteq> DisputeExpired" using ok by (auto simp: dispute_ok_def)
  ultimately show thesis
    using assms(1) d again decide
    by (cases "dsp_status d")
      (auto simp: resolve_dispute_def store_dispute_def Let_def not_le split: if_splits)
qed

lemma dispute_inv_resolve:
  assumes "resolve_dispute env i s = Ok (s', st)" "dispute_inv s"
  shows "dispute_inv s'"
  using assms
proof (cases rule: resolve_dispute_OkE)
  case again
  then show ?thesis using assms(2) by simp
next
  case (decide d)
  let ?d = "d\<lparr>dsp_status := st\<rparr>"
  have same: "vote_index.contents s' = vote_index.contents s" "vote_index.dense s' = vote_index.dense s"
    by (auto simp: decide(6) vote_index.contents_def vote_index.dense_def)
  have oks: "dispute_ok j s' x = dispute_ok j s x" for j x
    by (rule dispute_ok_cong) (simp_all add: decide(6))
  have "dispute_ok i s ?d"
    using assms(2) decide(1,5) by (auto simp: dispute_inv_def dispute_ok_def)
  then show ?thesis
    using assms(2) decide(1) unfolding dispute_inv_def same oks by (auto simp: decide(6))
qed

text \<open>The parts of the state that change.\<close>

definition dispute_frame :: "registry \<Rightarrow> registry \<Rightarrow> bool" where
  "dispute_frame s s' \<longleftrightarrow>
     s'\<lparr>rc_published := rc_published s, rs_disputes := rs_disputes s,
        rs_dispute_votes := rs_dispute_votes s, rs_vote_shard := rs_vote_shard s,
        rs_vote_count := rs_vote_count s\<rparr> = s"

lemma dispute_frame_ops:
  shows "open_dispute holds_ticket env i a s = Ok s' \<Longrightarrow> dispute_frame s s'"
    and "vote_on_dispute env i a v s = Ok s' \<Longrightarrow> dispute_frame s s'"
    and "resolve_dispute env i s = Ok (s', st) \<Longrightarrow> dispute_frame s s'"
proof -
  show "open_dispute holds_ticket env i a s = Ok s' \<Longrightarrow> dispute_frame s s'"
    by (erule open_dispute_OkE) (simp add: dispute_frame_def publish_def)
  show "vote_on_dispute env i a v s = Ok s' \<Longrightarrow> dispute_frame s s'"
    by (erule vote_on_dispute_OkE)
      (auto simp: dispute_frame_def publish_def add_dispute_vote_def Let_def)
  show "resolve_dispute env i s = Ok (s', st) \<Longrightarrow> dispute_frame s s'"
    by (auto simp: resolve_dispute_def dispute_frame_def contract_defs Let_def split: if_splits)
qed

end
