(* ===== verification/Registry_Machine.thy ===== *)
theory Registry_Machine
  imports Registry_Inventory Registry_Access Registry_Staking Registry_Series Registry_Dispute
begin

text \<open>
  The event registry as a state machine: one constructor per entry point of
  \<open>event_registry/src/lib.rs\<close> that can change the state, grouped by component, and the states that
  sequences of successful invocations reach from the empty contract.  An invocation that returns an
  error or traps leaves no trace, so only successful ones are steps.  The invariants of the components
  hold together in every reachable state.
\<close>

section \<open>Invocations\<close>

datatype config_call =
    Initialize address address nat address
  | AddToTokenWhitelist address
  | RemoveFromTokenWhitelist address
  | ProposeAdmin address
  | AcceptAdmin
  | CancelAdminProposal
  | SetTicketPaymentContract address
  | Upgrade
  | SetGlobalPromo nat nat

datatype gov_call =
    ProposeParameterChange address parameter_change nat
  | ApproveProposal address nat
  | ExecuteProposal address nat
  | CancelProposal address nat
  | CleanupExpiredProposals
  | SetPlatformFeeCall nat

datatype event_call =
    RegisterEvent registration_args
  | UpdateEventStatus string bool
  | CancelEvent string "string option"
  | ArchiveEvent string
  | UpdateMetadata string string
  | SetFeedbackCid string string
  | StoreEvent event_info
  | SetResaleCapBps string "nat option"
  | SetCustomEventFee string "nat option"
  | PostponeEvent string nat nat
  | BlacklistOrganizer address string
  | RemoveFromBlacklist address string

datatype inventory_call =
    IncrementInventory string string address nat address
  | DecrementInventory string string
  | AddTier string string ticket_tier
  | DeactivateTier string string
  | MintCrossChainTicket string string "string list" string nat

datatype access_call =
    AuthorizeScanner string address
  | RevokeScanner string address
  | JoinWaitlist string address
  | LeaveWaitlist string address

datatype staking_call =
    SetStakingConfig address int
  | StakeCollateral address int
  | UnstakeCollateral address
  | DistributeStakerRewards address int
  | ClaimStakerRewards address
  | UpdateLoyaltyScore address address nat int nat

datatype series_call =
    RegisterSeries string string "string list" address "string option"
  | IssueSeriesPass string string address nat nat
  | IncrementSeriesPassUsage string

text \<open>Opening a dispute asks the ticket contract whether the caller holds a ticket; the answer comes
  with the invocation.\<close>

datatype dispute_call =
    OpenDispute "address \<Rightarrow> string \<Rightarrow> address \<Rightarrow> bool" string address
  | VoteOnDispute string address dispute_vote
  | ResolveDispute string

datatype registry_call =
    ConfigCall config_call
  | GovCall gov_call
  | EventCall event_call
  | InventoryCall inventory_call
  | AccessCall access_call
  | StakingCall staking_call
  | SeriesCall series_call
  | DisputeCall dispute_call

fun config_dispatch :: "env \<Rightarrow> config_call \<Rightarrow> registry \<Rightarrow> (registry_error, registry) result" where
  "config_dispatch env (Initialize a w fee tok) s = initialize env a w fee tok s"
| "config_dispatch env (AddToTokenWhitelist t) s = add_to_token_whitelist env t s"
| "config_dispatch env (RemoveFromTokenWhitelist t) s = remove_from_token_whitelist env t s"
| "config_dispatch env (ProposeAdmin a) s = propose_admin env a s"
| "config_dispatch env AcceptAdmin s = accept_admin env s"
| "config_dispatch env CancelAdminProposal s = cancel_admin_proposal env s"
| "config_dispatch env (SetTicketPaymentContract a) s = set_ticket_payment_contract env a s"
| "config_dispatch env Upgrade s = upgrade env s"
| "config_dispatch env (SetGlobalPromo b e) s = set_global_promo env b e s"

fun gov_dispatch :: "env \<Rightarrow> gov_call \<Rightarrow> registry \<Rightarrow> (registry_error, registry) result" where
  "gov_dispatch env (ProposeParameterChange a ch ex) s = drop_value (propose_parameter_change env a ch ex s)"
| "gov_dispatch env (ApproveProposal a i) s = approve_proposal env a i s"
| "gov_dispatch env (ExecuteProposal a i) s = execute_proposal env a i s"
| "gov_dispatch env (CancelProposal a i) s = cancel_proposal env a i s"
| "gov_dispatch env CleanupExpiredProposals s = drop_value (cleanup_expired_proposals env s)"
| "gov_dispatch env (SetPlatformFeeCall fee) s = set_platform_fee env fee s"

fun event_dispatch :: "env \<Rightarrow> event_call \<Rightarrow> registry \<Rightarrow> (registry_error, registry) result" where
  "event_dispatch env (RegisterEvent args) s = register_event env args s"
| "event_dispatch env (UpdateEventStatus i b) s = update_event_status env i b s"
| "event_dispatch env (CancelEvent i r) s = cancel_event env i r s"
| "event_dispatch env (ArchiveEvent i) s = archive_event env i s"
| "event_dispatch env (UpdateMetadata i cid) s = update_metadata env i cid s"
| "event_dispatch env (SetFeedbackCid i cid) s = set_feedback_cid env i cid s"
| "event_dispatch env (StoreEvent e) s = legacy_store_event env e s"
| "event_dispatch env (SetResaleCapBps i c) s = set_resale_cap_bps env i c s"
| "event_dispatch env (SetCustomEventFee i c) s = set_custom_event_fee env i c s"
| "event_dispatch env (PostponeEvent i t g) s = postpone_event env i t g s"
| "event_dispatch env (BlacklistOrganizer a r) s = blacklist_organizer env a r s"
| "event_dispatch env (RemoveFromBlacklist a r) s = remove_from_blacklist env a r s"

fun inventory_dispatch :: "env \<Rightarrow> inventory_call \<Rightarrow> registry \<Rightarrow> (registry_error, registry) result" where
  "inventory_dispatch env (IncrementInventory i j u q tok) s = increment_inventory env i j u q tok s"
| "inventory_dispatch env (DecrementInventory i j) s = decrement_inventory env i j s"
| "inventory_dispatch env (AddTier i j t) s = add_tier env i j t s"
| "inventory_dispatch env (DeactivateTier i j) s = deactivate_tier env i j s"
| "inventory_dispatch env (MintCrossChainTicket h j sigs i q) s = mint_cross_chain_ticket env h j sigs i q s"

fun access_dispatch :: "env \<Rightarrow> access_call \<Rightarrow> registry \<Rightarrow> (registry_error, registry) result" where
  "access_dispatch env (AuthorizeScanner i a) s = authorize_scanner env i a s"
| "access_dispatch env (RevokeScanner i a) s = revoke_scanner env i a s"
| "access_dispatch env (JoinWaitlist i a) s = join_waitlist env i a s"
| "access_dispatch env (LeaveWaitlist i a) s = leave_waitlist env i a s"

fun staking_dispatch :: "env \<Rightarrow> staking_call \<Rightarrow> registry \<Rightarrow> (registry_error, registry) result" where
  "staking_dispatch env (SetStakingConfig tok m) s = set_staking_config env tok m s"
| "staking_dispatch env (StakeCollateral a n) s = stake_collateral env a n s"
| "staking_dispatch env (UnstakeCollateral a) s = unstake_collateral env a s"
| "staking_dispatch env (DistributeStakerRewards a n) s = distribute_staker_rewards env a n s"
| "staking_dispatch env (ClaimStakerRewards a) s = drop_value (claim_staker_rewards env a s)"
| "staking_dispatch env (UpdateLoyaltyScore c g n amount m) s = update_loyalty_score env c g n amount m s"

fun series_dispatch :: "env \<Rightarrow> series_call \<Rightarrow> registry \<Rightarrow> (registry_error, registry) result" where
  "series_dispatch env (RegisterSeries sid n ids a cid) s = register_series env sid n ids a cid s"
| "series_dispatch env (IssueSeriesPass pid sid h l ex) s = issue_series_pass env pid sid h l ex s"
| "series_dispatch env (IncrementSeriesPassUsage pid) s = increment_series_pass_usage pid s"

fun dispute_dispatch :: "env \<Rightarrow> dispute_call \<Rightarrow> registry \<Rightarrow> (registry_error, registry) result" where
  "dispute_dispatch env (OpenDispute holds i a) s = open_dispute holds env i a s"
| "dispute_dispatch env (VoteOnDispute i a v) s = vote_on_dispute env i a v s"
| "dispute_dispatch env (ResolveDispute i) s = drop_value (resolve_dispute env i s)"

fun dispatch :: "env \<Rightarrow> registry_call \<Rightarrow> registry \<Rightarrow> (registry_error, registry) result" where
  "dispatch env (ConfigCall c) s = config_dispatch env c s"
| "dispatch env (GovCall c) s = gov_dispatch env c s"
| "dispatch env (EventCall c) s = event_dispatch env c s"
| "dispatch env (InventoryCall c) s = inventory_dispatch env c s"
| "dispatch env (AccessCall c) s = access_dispatch env c s"
| "dispatch env (StakingCall c) s = staking_dispatch env c s"
| "dispatch env (SeriesCall c) s = series_dispatch env c s"
| "dispatch env (DisputeCall c) s = dispute_dispatch env c s"

text \<open>Reachability by invocations that satisfy a condition \<open>P\<close>, and its executable counterpart.\<close>

inductive reachable :: "(env \<Rightarrow> registry_call \<Rightarrow> registry \<Rightarrow> bool) \<Rightarrow> registry \<Rightarrow> bool" for P where
  start: "reachable P registry_empty"
| step: "reachable P s \<Longrightarrow> P env c s \<Longrightarrow> dispatch env c s = Ok s' \<Longrightarrow> reachable P s'"

inductive steps :: "(env \<Rightarrow> registry_call \<Rightarrow> registry \<Rightarrow> bool) \<Rightarrow> registry \<Rightarrow> registry \<Rightarrow> bool" for P where
  refl: "steps P s s"
| next_step: "steps P s t \<Longrightarrow> P env c t \<Longrightarrow> dispatch env c t = Ok u \<Longrightarrow> steps P s u"

fun run :: "(env \<times> registry_call) list \<Rightarrow> registry \<Rightarrow> (registry_error, registry) result" where
  "run [] s = Ok s"
| "run ((env, c) # cs) s = rbind (dispatch env c s) (run cs)"

fun run_ok :: "(env \<Rightarrow> registry_call \<Rightarrow> registry \<Rightarrow> bool) \<Rightarrow> (env \<times> registry_call) list \<Rightarrow> registry \<Rightarrow> bool" where
  "run_ok P [] s = True"
| "run_ok P ((env, c) # cs) s =
     (P env c s \<and> (case dispatch env c s of Ok s' \<Rightarrow> run_ok P cs s' | _ \<Rightarrow> False))"

lemma reachable_run:
  "reachable P s \<Longrightarrow> run_ok P cs s \<Longrightarrow> run cs s = Ok s' \<Longrightarrow> reachable P s'"
proof (induction cs arbitrary: s)
  case (Cons c cs)
  then show ?case
    by (cases c) (auto intro: reachable.step split: result.splits)
qed simp

lemma reachable_mono: "reachable P s \<Longrightarrow> (\<And>env c s. P env c s \<Longrightarrow> Q env c s) \<Longrightarrow> reachable Q s"
  by (induction rule: reachable.induct) (auto intro: reachable.intros)

section \<open>The invariant of all components\<close>

text \<open>Every invocation, without a condition.\<close>

definition any_call :: "env \<Rightarrow> registry_call \<Rightarrow> registry \<Rightarrow> bool" where
  "any_call env c s = True"

lemma any_call [simp]: "any_call env c s"
  by (simp add: any_call_def)

lemma reachable_any: "reachable P s \<Longrightarrow> reachable any_call s"
  by (rule reachable_mono) simp_all

text \<open>The legacy entry point \<open>store_event\<close> writes the event that its organizer gives, whatever its counters
  and settings are.  Two things depend on it: the active counter is decremented once too often when the
  call makes a private active event public and inactive, and an event that was overwritten has the values
  its organizer chose.\<close>

fun miscounting_call :: "env \<Rightarrow> registry_call \<Rightarrow> registry \<Rightarrow> bool" where
  "miscounting_call env (EventCall (StoreEvent e)) s = miscounted (re_events s (ev_event_id e)) e"
| "miscounting_call env c s = False"

fun untouched_call :: "string \<Rightarrow> env \<Rightarrow> registry_call \<Rightarrow> registry \<Rightarrow> bool" where
  "untouched_call k env (EventCall (StoreEvent e)) s = (ev_event_id e \<noteq> k)"
| "untouched_call k env c s = True"

definition local_inv :: "registry \<Rightarrow> bool" where
  "local_inv s \<longleftrightarrow> staking_inv s \<and> dispute_inv s \<and> series_inv s \<and> profiles_ok s"

text \<open>In its strict form the invariant says that the active counter is exact.\<close>

definition registry_inv :: "bool \<Rightarrow> registry \<Rightarrow> bool" where
  "registry_inv strict s \<longleftrightarrow> gov_inv s \<and> events_inv strict s \<and> local_inv s"

lemma registry_inv_start: "registry_inv strict registry_empty"
  by (simp add: registry_inv_def local_inv_def gov_inv_defs events_inv_def organizer_flags_def active_set_def
      counter_ok_def staking_inv_def stake_sum_def dispute_inv_def series_inv_def profiles_ok_def
      vote_index.dense_def vote_index.contents_def in_i128_def i128_min_def i128_max_def registry_empty_def)

text \<open>What each frame leaves alone.\<close>

lemma local_inv_cong:
  assumes "rs_stakes s' = rs_stakes s" "rs_stakers s' = rs_stakers s"
    "rs_total_staked s' = rs_total_staked s" "rs_disputes s' = rs_disputes s"
    "rs_dispute_votes s' = rs_dispute_votes s" "rs_vote_shard s' = rs_vote_shard s"
    "rs_vote_count s' = rs_vote_count s" "rs_passes s' = rs_passes s"
    "rs_holder_pass s' = rs_holder_pass s" "rs_series s' = rs_series s"
    "rs_series_event s' = rs_series_event s" "rs_profiles s' = rs_profiles s"
  shows "local_inv s' = local_inv s"
  using staking_inv_cong [of s' s] dispute_inv_cong [of s' s] series_inv_cong [of s' s] assms
  by (simp add: local_inv_def profiles_ok_def)

lemma gov_frame_local: "gov_frame s s' \<Longrightarrow> local_inv s' = local_inv s"
  by (rule local_inv_cong) (simp_all add: gov_frame_registry)

lemma event_frame_local: "event_frame s s' \<Longrightarrow> local_inv s' = local_inv s"
  by (rule local_inv_cong) (simp_all add: event_frame_registry)

lemma inventory_frameE:
  assumes "inventory_frame s s'"
  obtains e p u n t where "s' = s\<lparr>re_events := e, rc_published := p, rs_user_ticket_count := u,
    rs_tickets_sold := n, rs_teleports := t\<rparr>"
proof -
  have "s' = s\<lparr>re_events := re_events s', rc_published := rc_published s',
      rs_user_ticket_count := rs_user_ticket_count s', rs_tickets_sold := rs_tickets_sold s',
      rs_teleports := rs_teleports s'\<rparr>"
    using arg_cong [OF assms [unfolded inventory_frame_def],
      of "\<lambda>x. x\<lparr>re_events := re_events s', rc_published := rc_published s',
      rs_user_ticket_count := rs_user_ticket_count s', rs_tickets_sold := rs_tickets_sold s',
      rs_teleports := rs_teleports s'\<rparr>"] by simp
  then show thesis using that by blast
qed

lemma access_frameE:
  assumes "access_frame s s'"
  obtains a w p where "s' = s\<lparr>rs_scanners := a, rs_waitlist := w, rc_published := p\<rparr>"
proof -
  have "s' = s\<lparr>rs_scanners := rs_scanners s', rs_waitlist := rs_waitlist s',
      rc_published := rc_published s'\<rparr>"
    using arg_cong [OF assms [unfolded access_frame_def],
      of "\<lambda>x. x\<lparr>rs_scanners := rs_scanners s', rs_waitlist := rs_waitlist s',
      rc_published := rc_published s'\<rparr>"] by simp
  then show thesis using that by blast
qed

lemma staking_frameE:
  assumes "staking_frame s s'"
  obtains t p st n l where "s' = s\<lparr>rc_transfers := t, rc_published := p, rs_stakes := st,
    rs_total_staked := n, rs_stakers := l\<rparr>"
proof -
  have "s' = s\<lparr>rc_transfers := rc_transfers s', rc_published := rc_published s', rs_stakes := rs_stakes s',
      rs_total_staked := rs_total_staked s', rs_stakers := rs_stakers s'\<rparr>"
    using arg_cong [OF assms [unfolded staking_frame_def],
      of "\<lambda>x. x\<lparr>rc_transfers := rc_transfers s', rc_published := rc_published s',
      rs_stakes := rs_stakes s', rs_total_staked := rs_total_staked s', rs_stakers := rs_stakers s'\<rparr>"]
    by simp
  then show thesis using that by blast
qed

lemma series_frameE:
  assumes "series_frame s s'"
  obtains a b c d where "s' = s\<lparr>rs_series := a, rs_series_event := b, rs_passes := c, rs_holder_pass := d\<rparr>"
proof -
  have "s' = s\<lparr>rs_series := rs_series s', rs_series_event := rs_series_event s',
      rs_passes := rs_passes s', rs_holder_pass := rs_holder_pass s'\<rparr>"
    using arg_cong [OF assms [unfolded series_frame_def],
      of "\<lambda>x. x\<lparr>rs_series := rs_series s', rs_series_event := rs_series_event s',
      rs_passes := rs_passes s', rs_holder_pass := rs_holder_pass s'\<rparr>"] by simp
  then show thesis using that by blast
qed

lemma dispute_frameE:
  assumes "dispute_frame s s'"
  obtains p a b c d where "s' = s\<lparr>rc_published := p, rs_disputes := a, rs_dispute_votes := b,
    rs_vote_shard := c, rs_vote_count := d\<rparr>"
proof -
  have "s' = s\<lparr>rc_published := rc_published s', rs_disputes := rs_disputes s',
      rs_dispute_votes := rs_dispute_votes s', rs_vote_shard := rs_vote_shard s',
      rs_vote_count := rs_vote_count s'\<rparr>"
    using arg_cong [OF assms [unfolded dispute_frame_def],
      of "\<lambda>x. x\<lparr>rc_published := rc_published s', rs_disputes := rs_disputes s',
      rs_dispute_votes := rs_dispute_votes s', rs_vote_shard := rs_vote_shard s',
      rs_vote_count := rs_vote_count s'\<rparr>"] by simp
  then show thesis using that by blast
qed

lemmas component_frameE = inventory_frameE access_frameE staking_frameE series_frameE dispute_frameE

lemma component_frame_gov:
  assumes "inventory_frame s s' \<or> access_frame s s' \<or> staking_frame s s' \<or> series_frame s s'
    \<or> dispute_frame s s'"
  shows "config_part s' = config_part s"
  using assms by (elim disjE) (erule component_frameE; simp add: config_part_def)+

lemma component_frame_events:
  assumes "access_frame s s' \<or> staking_frame s s' \<or> series_frame s s' \<or> dispute_frame s s'"
  shows "events_inv strict s' = events_inv strict s \<and> re_events s' = re_events s"
  using assms by (elim disjE) (erule component_frameE; simp add: events_inv_def)+

text \<open>One step, component by component.\<close>

lemma gov_frame_step:
  assumes "gov_frame s s'" "gov_inv s'" "registry_inv strict s"
  shows "registry_inv strict s'"
  using assms gov_frame_local [OF assms(1)] events_inv_gov_frame [OF assms(1)]
  by (simp add: registry_inv_def)

lemma registry_inv_config_step:
  assumes "config_dispatch env c s = Ok s'" "registry_inv strict s"
  shows "registry_inv strict s'"
proof (rule gov_frame_step [OF _ _ assms(2)])
  show "gov_frame s s'"
    using assms(1) by (cases c) (auto dest: gov_frame_config_ops)
  have "gov_inv s" using assms(2) by (simp add: registry_inv_def)
  then show "gov_inv s'"
    using assms(1) by (cases c) (auto dest: gov_inv_config_ops)
qed

lemma registry_inv_gov_step:
  assumes "gov_dispatch env c s = Ok s'" "registry_inv strict s"
  shows "registry_inv strict s'"
proof (rule gov_frame_step [OF _ _ assms(2)])
  show "gov_frame s s'"
    using assms(1) by (cases c) (auto dest: gov_frame_gov_ops)
  have "gov_inv s" using assms(2) by (simp add: registry_inv_def)
  then show "gov_inv s'"
    using assms(1)
    by (cases c) (auto dest: gov_inv_propose gov_inv_approve gov_inv_execute gov_inv_cancel gov_inv_cleanup
        gov_inv_set_platform_fee)
qed

lemma event_frame_step:
  assumes "event_frame s s'" "events_inv strict s'" "registry_inv strict s"
  shows "registry_inv strict s'"
proof -
  have "config_part s' = config_part s" using assms(1) by (simp add: event_frame_def)
  then show ?thesis
    using assms event_frame_local [OF assms(1)] gov_inv_config_part by (auto simp: registry_inv_def)
qed

lemma legacy_store_event_OkE:
  assumes "legacy_store_event env e s = Ok s'" "events_inv strict s"
  obtains p where "re_events s (ev_event_id e) = Some p" "ev_organizer e = ev_organizer p"
    "authorised env (ev_organizer p)" "update_event e s = Ok s'"
proof -
  obtain p where p: "re_events s (ev_event_id e) = Some p" "ev_organizer e = ev_organizer p"
      "authorised env (ev_organizer p)" and st: "storage_store_event e s = Ok s'"
    using assms(1) by (auto simp: legacy_store_event_def split: if_splits)
  show thesis
    using that [OF p] st store_existing_event [OF assms(2) p(1,2)] by simp
qed

lemma event_edited_step:
  assumes "event_edited i s s'" "registry_inv strict s"
  shows "registry_inv strict s'"
  using event_frame_step [OF event_edited_frame [OF assms(1)] _ assms(2)] assms
  by (auto simp: registry_inv_def intro: events_inv_edited)

lemma registry_inv_event_step:
  assumes "event_dispatch env c s = Ok s'" "registry_inv strict s"
    "strict \<Longrightarrow> \<not> miscounting_call env (EventCall c) s"
  shows "registry_inv strict s'"
proof -
  have inv: "gov_inv s" "events_inv strict s"
    using assms(2) by (simp_all add: registry_inv_def)
  consider (edit) i where "event_edited i s s'"
    | (register) args where "c = RegisterEvent args"
    | (archive) i where "c = ArchiveEvent i"
    | (store) e where "c = StoreEvent e"
    | (black) a r where "c = BlacklistOrganizer a r"
    | (unblack) a r where "c = RemoveFromBlacklist a r"
    using assms(1) inv(2) by (cases c) (auto dest: edit_ops)
  then show ?thesis
  proof cases
    case edit
    then show ?thesis using assms(2) by (rule event_edited_step)
  next
    case register
    then have op: "register_event env args s = Ok s'" using assms(1) by simp
    show ?thesis
      by (rule event_frame_step [OF event_frame_ops(1) [OF op] events_inv_register [OF inv(2) op] assms(2)])
  next
    case archive
    then have op: "archive_event env i s = Ok s'" using assms(1) by simp
    show ?thesis
      by (rule event_frame_step [OF event_frame_ops(2) [OF op] events_inv_archive [OF inv(2) op] assms(2)])
  next
    case (store e)
    then obtain p where p: "re_events s (ev_event_id e) = Some p" "ev_organizer e = ev_organizer p"
      "update_event e s = Ok s'"
      using assms(1) inv(2) by (auto elim: legacy_store_event_OkE)
    have "events_inv strict s'"
      using events_inv_update_event [OF inv(2) p(1,3) _ p(2)] assms(3) store p(1) by simp
    then show ?thesis
      using event_frame_step [OF update_event_event_frame [OF p(3)] _ assms(2)] by blast
  next
    case black
    then have op: "blacklist_organizer env a r s = Ok s'" using assms(1) by simp
    show ?thesis
      by (rule event_frame_step [OF event_frame_ops(4) [OF op] events_inv_blacklist(1) [OF inv(2) op]
            assms(2)])
  next
    case unblack
    then have op: "remove_from_blacklist env a r s = Ok s'" using assms(1) by simp
    show ?thesis
      by (rule event_frame_step [OF event_frame_ops(5) [OF op] events_inv_blacklist(2) [OF inv(2) op]
            assms(2)])
  qed
qed

lemma component_frame_local:
  shows "inventory_frame s s' \<or> access_frame s s' \<Longrightarrow> local_inv s' = local_inv s"
    and "staking_frame s s' \<Longrightarrow> local_inv s' = (staking_inv s' \<and> dispute_inv s \<and> series_inv s \<and> profiles_ok s)"
    and "series_frame s s' \<Longrightarrow> local_inv s' = (staking_inv s \<and> dispute_inv s \<and> series_inv s' \<and> profiles_ok s)"
    and "dispute_frame s s' \<Longrightarrow> local_inv s' = (staking_inv s \<and> dispute_inv s' \<and> series_inv s \<and> profiles_ok s)"
proof -
  show "inventory_frame s s' \<or> access_frame s s' \<Longrightarrow> local_inv s' = local_inv s"
    by (elim disjE) (erule component_frameE; intro local_inv_cong; simp)+
  have st: "rs_profiles s' = rs_profiles s \<Longrightarrow> profiles_ok s' = profiles_ok s"
    by (simp add: profiles_ok_def)
  show "local_inv s' = (staking_inv s' \<and> dispute_inv s \<and> series_inv s \<and> profiles_ok s)"
    if "staking_frame s s'"
  proof -
    have "dispute_inv s' = dispute_inv s" "series_inv s' = series_inv s" "profiles_ok s' = profiles_ok s"
      by (intro dispute_inv_cong series_inv_cong st; rule staking_frameE [OF that]; simp)+
    then show ?thesis by (simp add: local_inv_def)
  qed
  show "local_inv s' = (staking_inv s \<and> dispute_inv s \<and> series_inv s' \<and> profiles_ok s)"
    if "series_frame s s'"
  proof -
    have "dispute_inv s' = dispute_inv s" "staking_inv s' = staking_inv s" "profiles_ok s' = profiles_ok s"
      by (intro dispute_inv_cong staking_inv_cong st; rule series_frameE [OF that]; simp)+
    then show ?thesis by (simp add: local_inv_def)
  qed
  show "local_inv s' = (staking_inv s \<and> dispute_inv s' \<and> series_inv s \<and> profiles_ok s)"
    if "dispute_frame s s'"
  proof -
    have "staking_inv s' = staking_inv s" "series_inv s' = series_inv s" "profiles_ok s' = profiles_ok s"
      by (intro staking_inv_cong series_inv_cong st; rule dispute_frameE [OF that]; simp)+
    then show ?thesis by (simp add: local_inv_def)
  qed
qed

lemma registry_inv_inventory_step:
  assumes "inventory_dispatch env c s = Ok s'" "registry_inv strict s"
  shows "registry_inv strict s'"
proof -
  have inv: "gov_inv s" "events_inv strict s" "local_inv s"
    using assms(2) by (simp_all add: registry_inv_def)
  have frame: "inventory_frame s s'"
    using assms(1) inv(2) by (cases c) (auto intro: inventory_frame_ops)
  moreover have "events_inv strict s'"
    using assms(1) inv(2) by (cases c) (auto intro: events_inv_inventory_ops)
  ultimately show ?thesis
    using inv gov_inv_config_part [OF component_frame_gov] component_frame_local(1) by (auto simp: registry_inv_def)
qed

lemma component_step:
  assumes "access_frame s s' \<or> staking_frame s s' \<or> series_frame s s' \<or> dispute_frame s s'"
    "registry_inv strict s" "local_inv s'"
  shows "registry_inv strict s'"
proof -
  have "config_part s' = config_part s" using component_frame_gov assms(1) by blast
  then show ?thesis
    using component_frame_events [OF assms(1)] assms(2,3) gov_inv_config_part
    by (auto simp: registry_inv_def)
qed

lemma registry_inv_access_step:
  assumes "access_dispatch env c s = Ok s'" "registry_inv strict s"
  shows "registry_inv strict s'"
proof -
  have frame: "access_frame s s'" using assms(1) by (cases c) (auto intro: access_frame_ops)
  moreover have "local_inv s'" using frame assms(2) component_frame_local(1) by (auto simp: registry_inv_def)
  ultimately show ?thesis using component_step assms(2) by blast
qed

lemma registry_inv_series_step:
  assumes "series_dispatch env c s = Ok s'" "registry_inv strict s"
  shows "registry_inv strict s'"
proof -
  have frame: "series_frame s s'" using assms(1) by (cases c) (auto intro: series_frame_ops)
  have inv: "local_inv s" using assms(2) by (simp add: registry_inv_def)
  have "series_inv s'"
    using assms(1) inv
    by (cases c) (auto simp: local_inv_def intro: series_inv_register series_inv_issue series_inv_increment)
  then have "local_inv s'" using component_frame_local(3) [OF frame] inv by (auto simp: local_inv_def)
  then show ?thesis using component_step frame assms(2) by blast
qed

lemma registry_inv_dispute_step:
  assumes "dispute_dispatch env c s = Ok s'" "registry_inv strict s"
  shows "registry_inv strict s'"
proof -
  have frame: "dispute_frame s s'" using assms(1) by (cases c) (auto intro: dispute_frame_ops)
  have inv: "local_inv s" using assms(2) by (simp add: registry_inv_def)
  have "dispute_inv s'"
    using assms(1) inv
    by (cases c) (auto simp: local_inv_def intro: dispute_inv_open dispute_inv_vote(1) dispute_inv_resolve)
  then have "local_inv s'" using component_frame_local(4) [OF frame] inv by (auto simp: local_inv_def)
  then show ?thesis using component_step frame assms(2) by blast
qed

lemma set_staking_config_OkE:
  assumes "set_staking_config env tok m s = Ok s'"
  obtains p where "0 < m" "s' = s\<lparr>rs_staking_token := Some tok, rc_min_stake_amount := m, rc_published := p\<rparr>"
  using assms that by (auto simp: set_staking_config_def publish_def split: if_splits)

lemma registry_inv_staking_config:
  assumes "set_staking_config env tok m s = Ok s'" "registry_inv strict s"
  shows "registry_inv strict s'"
  using assms(1)
proof (rule set_staking_config_OkE)
  fix p
  assume m: "0 < m" and s': "s' = s\<lparr>rs_staking_token := Some tok, rc_min_stake_amount := m, rc_published := p\<rparr>"
  have "local_inv s' = local_inv s" by (rule local_inv_cong) (simp_all add: s')
  moreover have "gov_inv s'" using assms(2) m by (auto simp: s' registry_inv_def gov_inv_defs)
  ultimately show ?thesis
    using assms(2) by (simp add: registry_inv_def s' events_inv_def)
qed

lemma registry_inv_loyalty:
  assumes "update_loyalty_score env c g n amount m s = Ok s'" "registry_inv strict s"
  shows "registry_inv strict s'"
proof -
  have pr: "profiles_ok s" using assms(2) by (simp add: registry_inv_def local_inv_def)
  then obtain p ev where s': "s' = publish ev (s\<lparr>rs_profiles := (rs_profiles s)(g \<mapsto> p)\<rparr>)"
    using assms(1) by (auto elim: update_loyalty_score_OkE)
  have "config_part s' = config_part s" by (simp add: s')
  moreover have "staking_inv s' = staking_inv s" "dispute_inv s' = dispute_inv s" "series_inv s' = series_inv s"
    by (rule staking_inv_cong dispute_inv_cong series_inv_cong; simp add: s')+
  moreover have "events_inv strict s' = events_inv strict s"
    by (simp add: s' events_inv_def)
  ultimately show ?thesis
    using assms(2) update_loyalty_score_mono [OF assms(1) pr] gov_inv_config_part
    by (auto simp: registry_inv_def local_inv_def)
qed

lemma registry_inv_staking_step:
  assumes "staking_dispatch env c s = Ok s'" "registry_inv strict s"
  shows "registry_inv strict s'"
proof -
  have inv: "local_inv s" "staking_inv s" using assms(2) by (simp_all add: registry_inv_def local_inv_def)
  consider (config) tok m where "set_staking_config env tok m s = Ok s'"
    | (loyalty) a g n amount m where "update_loyalty_score env a g n amount m s = Ok s'"
    | (stake) "staking_frame s s'" "staking_inv s'"
    using assms(1) inv(2)
    by (cases c) (auto intro: staking_frame_ops staking_inv_stake staking_inv_unstake staking_inv_distribute
        staking_inv_claim)
  then show ?thesis
  proof cases
    case config
    then show ?thesis using assms(2) by (rule registry_inv_staking_config)
  next
    case loyalty
    then show ?thesis using assms(2) by (rule registry_inv_loyalty)
  next
    case stake
    then have "local_inv s'" using component_frame_local(2) inv(1) by (auto simp: local_inv_def)
    then show ?thesis using component_step stake(1) assms(2) by blast
  qed
qed

lemma registry_inv_step:
  assumes "dispatch env c s = Ok s'" "registry_inv strict s" "strict \<Longrightarrow> \<not> miscounting_call env c s"
  shows "registry_inv strict s'"
  using assms
  by (cases c) (auto intro: registry_inv_config_step registry_inv_gov_step registry_inv_event_step
      registry_inv_inventory_step registry_inv_access_step registry_inv_staking_step
      registry_inv_series_step registry_inv_dispute_step)

lemma reachable_registry_inv: "reachable P s \<Longrightarrow> registry_inv False s"
  by (induction rule: reachable.induct) (auto intro: registry_inv_start registry_inv_step)

lemma reachable_registry_inv_strict:
  "reachable (\<lambda>env c s. \<not> miscounting_call env c s) s \<Longrightarrow> registry_inv True s"
  by (induction rule: reachable.induct) (auto intro: registry_inv_start registry_inv_step)

section \<open>Monotonicity\<close>

text \<open>Lifting a fact about single steps to sequences of them.\<close>

lemma reachable_steps: "steps P s t \<Longrightarrow> reachable P s \<Longrightarrow> reachable P t"
  by (induction rule: steps.induct) (auto intro: reachable.step)

lemma steps_mono:
  assumes "steps P s t" "registry_inv False s"
    and "\<And>env c u v. registry_inv False u \<Longrightarrow> dispatch env c u = Ok v \<Longrightarrow> R u v"
    and "\<And>x. R x x" "\<And>x y z. R x y \<Longrightarrow> R y z \<Longrightarrow> R x z"
  shows "R s t \<and> registry_inv False t"
  using assms(1,2)
proof (induction rule: steps.induct)
  case (next_step s t env c u)
  then show ?case using assms(3) [of t env c u] assms(5) registry_inv_step [of env c t u False] by blast
qed (use assms(4) in auto)

text \<open>Every invocation stays within the frame of its component.\<close>

definition settings_frame :: "registry \<Rightarrow> registry \<Rightarrow> bool" where
  "settings_frame s s' \<longleftrightarrow> (\<exists>tok m p pr.
     s' = s\<lparr>rs_staking_token := tok, rc_min_stake_amount := m, rc_published := p, rs_profiles := pr\<rparr>)"

fun step_frame :: "registry_call \<Rightarrow> registry \<Rightarrow> registry \<Rightarrow> bool" where
  "step_frame (ConfigCall c) s s' = gov_frame s s'"
| "step_frame (GovCall c) s s' = gov_frame s s'"
| "step_frame (EventCall c) s s' = event_frame s s'"
| "step_frame (InventoryCall c) s s' = inventory_frame s s'"
| "step_frame (AccessCall c) s s' = access_frame s s'"
| "step_frame (StakingCall c) s s' = (staking_frame s s' \<or> settings_frame s s')"
| "step_frame (SeriesCall c) s s' = series_frame s s'"
| "step_frame (DisputeCall c) s s' = dispute_frame s s'"

lemma settings_frameI:
  "s' = s\<lparr>rs_staking_token := tok, rc_min_stake_amount := m, rc_published := p, rs_profiles := pr\<rparr>
   \<Longrightarrow> settings_frame s s'"
  unfolding settings_frame_def by blast

lemma settings_frame_ops:
  shows "set_staking_config env tok m s = Ok s' \<Longrightarrow> settings_frame s s'"
    and "profiles_ok s \<Longrightarrow> update_loyalty_score env a g n amount k s = Ok s' \<Longrightarrow> settings_frame s s'"
proof -
  show "set_staking_config env tok m s = Ok s' \<Longrightarrow> settings_frame s s'"
    by (erule set_staking_config_OkE) (rule settings_frameI [where pr = "rs_profiles s"], simp)
  show "profiles_ok s \<Longrightarrow> update_loyalty_score env a g n amount k s = Ok s' \<Longrightarrow> settings_frame s s'"
  proof (erule (1) update_loyalty_score_OkE)
    fix p ev
    assume s': "s' = publish ev (s\<lparr>rs_profiles := (rs_profiles s)(g \<mapsto> p)\<rparr>)"
    show ?thesis
      by (rule settings_frameI [where tok = "rs_staking_token s" and m = "rc_min_stake_amount s"
            and p = "rc_published s @ [ev]" and pr = "(rs_profiles s)(g \<mapsto> p)"])
        (simp add: s' publish_def)
  qed
qed

lemma step_frames:
  assumes "registry_inv strict s" "dispatch env c s = Ok s'"
  shows "step_frame c s s'"
proof -
  have inv: "events_inv strict s" "staking_inv s" "profiles_ok s"
    using assms(1) by (simp_all add: registry_inv_def local_inv_def)
  show ?thesis
  proof (cases c)
    case (ConfigCall x)
    then show ?thesis using assms(2) by (cases x) (auto dest: gov_frame_config_ops)
  next
    case (GovCall x)
    then show ?thesis using assms(2) by (cases x) (auto dest: gov_frame_gov_ops)
  next
    case (EventCall x)
    then show ?thesis
      using assms(2) by (cases x) (auto dest: edit_ops event_frame_ops intro: event_edited_frame inv)
  next
    case (InventoryCall x)
    then show ?thesis using assms(2) inv(1) by (cases x) (auto intro: inventory_frame_ops)
  next
    case (AccessCall x)
    then show ?thesis using assms(2) by (cases x) (auto intro: access_frame_ops)
  next
    case (SeriesCall x)
    then show ?thesis using assms(2) by (cases x) (auto intro: series_frame_ops)
  next
    case (DisputeCall x)
    then show ?thesis using assms(2) by (cases x) (auto intro: dispute_frame_ops)
  next
    case (StakingCall x)
    then show ?thesis
      using assms(2) inv(2,3) by (cases x) (auto intro: staking_frame_ops settings_frame_ops)
  qed
qed

text \<open>No component but governance touches the proposals.\<close>

lemma proposals_le_step:
  assumes "registry_inv strict s" "dispatch env c s = Ok s'"
  shows "proposals_le s s'"
proof -
  have inv: "gov_inv s" using assms(1) by (simp add: registry_inv_def)
  note frame = step_frames [OF assms]
  show ?thesis
  proof (cases c)
    case (ConfigCall x)
    then show ?thesis using assms(2) by (cases x) (auto dest: proposals_le_config_ops)
  next
    case (GovCall x)
    then show ?thesis using assms(2) inv by (cases x) (auto dest: proposals_le_gov_ops)
  qed (use frame component_frame_gov proposals_le_config_part in
      \<open>auto simp: event_frame_def settings_frame_def intro: proposals_le_same\<close>)
qed

text \<open>No component but disputes touches the disputes; a resolved one is final, a vote stands, and the
  set of minted cross-chain transactions only grows.\<close>

definition dispute_le :: "registry \<Rightarrow> registry \<Rightarrow> bool" where
  "dispute_le s s' \<longleftrightarrow>
     (\<forall>i d. rs_disputes s i = Some d \<longrightarrow> (\<exists>d'. rs_disputes s' i = Some d'
        \<and> (dsp_status d = ResolvedBuyer \<or> dsp_status d = ResolvedOrganizer \<longrightarrow> d' = d)))
     \<and> (\<forall>k v. rs_dispute_votes s k = Some v \<longrightarrow> rs_dispute_votes s' k = Some v)"

lemma dispute_le_same:
  "rs_disputes s' = rs_disputes s \<Longrightarrow> rs_dispute_votes s' = rs_dispute_votes s \<Longrightarrow> dispute_le s s'"
  by (simp add: dispute_le_def)

lemma dispute_le_trans:
  assumes "dispute_le s t" "dispute_le t u"
  shows "dispute_le s u"
proof -
  have "\<exists>d'. rs_disputes u i = Some d' \<and> (dsp_status d = ResolvedBuyer \<or> dsp_status d = ResolvedOrganizer \<longrightarrow> d' = d)"
    if d: "rs_disputes s i = Some d" for i d
  proof -
    obtain d1 where d1: "rs_disputes t i = Some d1"
        "dsp_status d = ResolvedBuyer \<or> dsp_status d = ResolvedOrganizer \<longrightarrow> d1 = d"
      using assms(1) d unfolding dispute_le_def by blast
    moreover obtain d2 where "rs_disputes u i = Some d2"
        "dsp_status d1 = ResolvedBuyer \<or> dsp_status d1 = ResolvedOrganizer \<longrightarrow> d2 = d1"
      using assms(2) d1(1) unfolding dispute_le_def by blast
    ultimately show ?thesis by auto
  qed
  then show ?thesis using assms by (simp add: dispute_le_def)
qed

lemma dispute_le_ops:
  assumes "dispute_inv s"
  shows "open_dispute h env i a s = Ok s' \<Longrightarrow> dispute_le s s'"
    and "vote_on_dispute env i a v s = Ok s' \<Longrightarrow> dispute_le s s'"
    and "resolve_dispute env i s = Ok (s', st) \<Longrightarrow> dispute_le s s'"
proof -
  show "open_dispute h env i a s = Ok s' \<Longrightarrow> dispute_le s s'"
    by (erule open_dispute_OkE) (auto simp: dispute_le_def)
  show "resolve_dispute env i s = Ok (s', st) \<Longrightarrow> dispute_le s s'"
    by (erule resolve_dispute_OkE [OF _ assms]) (auto simp: dispute_le_def)
  show "vote_on_dispute env i a v s = Ok s' \<Longrightarrow> dispute_le s s'"
  proof (erule vote_on_dispute_OkE)
    fix d s1
    let ?s0 = "s\<lparr>rs_dispute_votes := (rs_dispute_votes s)((i, a) \<mapsto> v)\<rparr>"
    assume d: "rs_disputes s i = Some d" "dsp_status d = DisputeOpen \<or> dsp_status d = DisputeVoting"
      "rs_dispute_votes s (i, a) = None" and s1: "add_dispute_vote i a ?s0 = Ok s1"
      and s': "s' = publish (DisputeVoted_event i a v (timestamp env)) (s1\<lparr>rs_disputes := (rs_disputes s1)
        (dsp_event_id d \<mapsto> d\<lparr>dsp_status := DisputeVoting, dsp_total_votes := dsp_total_votes d + 1,
               dsp_buyer_votes := dsp_buyer_votes d + (if v = BuyerFavor then 1 else 0),
               dsp_organizer_votes := dsp_organizer_votes d + (if v = OrganizerFavor then 1 else 0)\<rparr>)\<rparr>)"
    have "dsp_event_id d = i" using assms d(1) by (auto simp: dispute_inv_def dispute_ok_def)
    then show ?thesis
      using d add_dispute_vote_frame [OF s1] by (auto simp: s' dispute_le_def)
  qed
qed

lemma dispute_le_step:
  assumes "registry_inv strict s" "dispatch env c s = Ok s'"
  shows "dispute_le s s'"
proof -
  have inv: "dispute_inv s" using assms(1) by (simp add: registry_inv_def local_inv_def)
  note frame = step_frames [OF assms]
  show ?thesis
  proof (cases c)
    case (DisputeCall x)
    then show ?thesis using assms(2) inv by (cases x) (auto dest: dispute_le_ops)
  qed (use frame gov_frame_registry [of s s'] event_frame_registry [of s s'] in
      \<open>auto simp: settings_frame_def intro!: dispute_le_same elim!: component_frameE\<close>)
qed

lemma teleports_step:
  assumes "registry_inv strict s" "dispatch env c s = Ok s'"
  shows "rs_teleports s \<subseteq> rs_teleports s'"
proof -
  have inv: "events_inv strict s" using assms(1) by (simp add: registry_inv_def)
  note frame = step_frames [OF assms]
  show ?thesis
  proof (cases c)
    case (InventoryCall x)
    show ?thesis
    proof (cases x)
      case (IncrementInventory i j u q tok)
      then have inc: "increment_inventory env i j u q tok s = Ok s'" using assms(2) InventoryCall by simp
      obtain e t where ok: "sale_ok env i j u q tok s e t"
        using increment_inventory_sale_ok [OF inc] by blast
      then show ?thesis
        using increment_inventory_Ok [OF inv ok] inc by (auto simp: sale_counters_def)
    next
      case (DecrementInventory i j)
      then show ?thesis
        using assms(2) InventoryCall by (auto elim!: decrement_inventory_OkE [OF _ inv])
    next
      case (MintCrossChainTicket h j sigs i q)
      then show ?thesis
        using assms(2) InventoryCall by (auto elim!: mint_cross_chain_ticket_OkE [OF _ inv])
    next
      case (AddTier i j t)
      then show ?thesis
        using assms(2) InventoryCall by (auto intro: tier_ops_OkE [OF _ inv])
    next
      case (DeactivateTier i j)
      then show ?thesis
        using assms(2) InventoryCall by (auto intro: tier_ops_OkE [OF _ inv])
    qed
  qed (use frame gov_frame_registry [of s s'] event_frame_registry [of s s'] in
      \<open>auto simp: settings_frame_def elim!: component_frameE\<close>)
qed


section \<open>Solvency of the staking pool\<close>

text \<open>The contract runs at one address, never authorises calls itself, and its staking token changes
  only while nobody stakes.\<close>

fun solvent_call :: "address \<Rightarrow> env \<Rightarrow> registry_call \<Rightarrow> registry \<Rightarrow> bool" where
  "solvent_call a env c s \<longleftrightarrow>
     current_contract env = a \<and> \<not> authorised env a
     \<and> (case c of StakingCall (SetStakingConfig tok m) \<Rightarrow> rs_stakers s = [] \<or> rs_staking_token s = Some tok
        | _ \<Rightarrow> True)"

lemma solvent_step:
  assumes "registry_inv strict s" "solvent_call a env c s" "dispatch env c s = Ok s'" "solvent a s"
  shows "solvent a s'"
proof -
  have inv: "staking_inv s" "profiles_ok s" using assms(1) by (simp_all add: registry_inv_def local_inv_def)
  have env: "current_contract env = a" "\<not> authorised env a" using assms(2) by simp_all
  note frame = step_frames [OF assms(1,3)]
  have gov: "gov_frame s s' \<Longrightarrow> solvent a s'"
    using assms(4) solvent_cong [of s' s a] by (simp add: gov_frame_registry) (simp add: gov_frame_def)
  have ev: "event_frame s s' \<Longrightarrow> solvent a s'"
    using assms(4) solvent_cong [of s' s a] by (simp add: event_frame_registry) (simp add: event_frame_def)
  show ?thesis
  proof (cases c)
    case (StakingCall x)
    show ?thesis
    proof (cases x)
      case (SetStakingConfig tok m)
      then have "set_staking_config env tok m s = Ok s'" using assms(3) StakingCall by simp
      moreover have "rs_stakers s = [] \<or> rs_staking_token s = Some tok"
        using assms(2) StakingCall SetStakingConfig by simp
      moreover have "rs_stakers s = [] \<Longrightarrow> rs_stakes s = Map.empty"
        using inv(1) by (auto simp: staking_inv_def)
      ultimately show ?thesis
        using assms(4) by (auto elim!: set_staking_config_OkE simp: solvent_def liabilities_def)
    next
      case (UpdateLoyaltyScore b g n amount m)
      then have "update_loyalty_score env b g n amount m s = Ok s'" using assms(3) StakingCall by simp
      then show ?thesis
        using assms(4) inv(2) by (auto elim!: update_loyalty_score_OkE simp: solvent_def liabilities_def)
    qed (use assms(3,4) StakingCall inv(1) env in
        \<open>auto intro: solvent_stake solvent_unstake solvent_distribute solvent_claim\<close>)
  qed (use frame gov ev assms(4) solvent_cong [of s' s a] in \<open>auto elim!: component_frameE\<close>)
qed

lemma reachable_solvent:
  assumes "reachable (solvent_call a) s"
  shows "solvent a s \<and> registry_inv False s"
  using assms
proof (induction rule: reachable.induct)
  case start
  have "solvent a registry_empty"
    by (simp add: solvent_def liabilities_def stake_sum_def registry_empty_def)
  then show ?case using registry_inv_start by simp
next
  case (step s env c s')
  then show ?case using solvent_step registry_inv_step [of env c s s' False] by blast
qed


section \<open>The event stored under one id\<close>

text \<open>One case analysis serves every predicate of the stored event that the editing operations and the
  inventory operations keep and that a new event satisfies.\<close>

lemma event_at_step:
  assumes "registry_inv strict s" "untouched_call k env c s" "dispatch env c s = Ok s'" "event_at k P s"
    and "\<And>p e. P p \<Longrightarrow> benign_edit p e \<Longrightarrow> P e" "\<And>e. P e \<Longrightarrow> P (e\<lparr>ev_is_active := False\<rparr>)"
    and "\<And>args. c = EventCall (RegisterEvent args) \<Longrightarrow> args_event_id args = k
           \<Longrightarrow> validate_registration args s = Ok () \<Longrightarrow> P (event_of_args env (rc_platform_fee s) args)"
    and "\<And>x. c = InventoryCall x \<Longrightarrow> event_at k P s'"
  shows "event_at k P s'"
proof -
  have inv: "events_inv strict s" using assms(1) by (simp add: registry_inv_def)
  note frame = step_frames [OF assms(1,3)]
  show ?thesis
  proof (cases c)
    case (EventCall x)
    show ?thesis
    proof (cases x)
      case (RegisterEvent args)
      then have op: "register_event env args s = Ok s'" using assms(3) EventCall by simp
      show ?thesis
        using assms(7) [of args] EventCall RegisterEvent register_event_events(2) [OF inv op]
        by (intro event_at_update [OF assms(4) register_event_events(1) [OF inv op]]) auto
    next
      case (StoreEvent e)
      then have "legacy_store_event env e s = Ok s'" using assms(3) EventCall by simp
      then obtain p where "update_event e s = Ok s'" using inv by (auto elim: legacy_store_event_OkE)
      then show ?thesis
        using event_at_update_event [OF assms(4)] assms(2) EventCall StoreEvent by simp
    next
      case (BlacklistOrganizer b r)
      then show ?thesis
        using assms(3) EventCall event_at_ops(3) [OF inv assms(4)] assms(6) by auto
    qed (use assms(3) EventCall event_at_ops(1,2) [OF inv assms(4)]
          event_at_edited [OF inv assms(4) _ assms(5)] in \<open>auto dest: edit_ops\<close>)
  next
    case (InventoryCall x)
    then show ?thesis by (rule assms(8))
  qed (use frame assms(4) component_frame_events [of s s'] gov_frame_events(1) [of s s'] in
      \<open>auto simp: settings_frame_def event_at_def\<close>)
qed

lemma event_ok_step:
  assumes "registry_inv strict s" "untouched_call k env c s" "dispatch env c s = Ok s'" "event_at k event_ok s"
  shows "event_at k event_ok s'"
proof (rule event_at_step [OF assms event_ok_benign_edit event_ok_deactivate])
  have inv: "gov_inv s" "events_inv strict s" using assms(1) by (simp_all add: registry_inv_def)
  show "validate_registration args s = Ok () \<Longrightarrow> event_ok (event_of_args env (rc_platform_fee s) args)" for args
    using event_ok_event_of_args inv(1) by (auto simp: gov_inv_def config_inv_def)
  show "c = InventoryCall x \<Longrightarrow> event_at k event_ok s'" for x
    using assms(3) event_ok_inventory_ops [OF inv(2) assms(4)] by (cases x) auto
qed

lemma reachable_event_ok:
  assumes "reachable (untouched_call k) s"
  shows "event_at k event_ok s"
proof -
  have "event_at k event_ok s \<and> registry_inv False s"
    using assms
  proof (induction rule: reachable.induct)
    case start
    have "event_at k event_ok registry_empty" by (simp add: event_at_def registry_empty_def)
    then show ?case using registry_inv_start by simp
  next
    case (step s env c s')
    then show ?case using event_ok_step [of False s k env c s'] registry_inv_step [of env c s s' False] by blast
  qed
  then show ?thesis ..
qed

text \<open>Tiers start unsold and a tier id is not added twice.\<close>

fun exact_call :: "string \<Rightarrow> env \<Rightarrow> registry_call \<Rightarrow> registry \<Rightarrow> bool" where
  "exact_call k env (EventCall (RegisterEvent args)) s =
     (args_event_id args = k \<longrightarrow> map_wf (args_tiers args) \<and> (\<forall>t\<in>set (map snd (args_tiers args)). fresh_tier t))"
| "exact_call k env (InventoryCall (AddTier i j t)) s =
     (i = k \<longrightarrow> fresh_tier t \<and> (case re_events s i of Some e \<Rightarrow> map_of (ev_tiers e) j = None | None \<Rightarrow> True))"
| "exact_call k env c s = untouched_call k env c s"

lemma exact_call_untouched: "exact_call k env c s \<Longrightarrow> untouched_call k env c s"
  by (cases "(k, env, c, s)" rule: exact_call.cases) auto

lemma exact_step:
  assumes "registry_inv strict s" "exact_call k env c s" "dispatch env c s = Ok s'" "event_at k inventory_exact s"
  shows "event_at k inventory_exact s'"
proof (rule event_at_step [OF assms(1) exact_call_untouched [OF assms(2)] assms(3,4)
      inventory_exact_benign_edit inventory_exact_deactivate])
  have inv: "events_inv strict s" using assms(1) by (simp add: registry_inv_def)
  show "inventory_exact (event_of_args env (rc_platform_fee s) args)"
    if "c = EventCall (RegisterEvent args)" "args_event_id args = k" "validate_registration args s = Ok ()" for args
    using inventory_exact_event_of_args [OF that(3)] assms(2) that(1,2) by simp
  show "event_at k inventory_exact s'" if "c = InventoryCall x" for x
  proof (cases x)
    case (AddTier i j t)
    then show ?thesis
      using assms(2,3) that
      by (intro inventory_exact_add [OF inv assms(4), of env i j t s']) (auto split: option.splits)
  qed (use assms(3) that inventory_exact_ops [OF inv assms(4)] in auto)
qed

lemma reachable_exact:
  assumes "reachable (exact_call k) s"
  shows "event_at k inventory_exact s"
proof -
  have "event_at k inventory_exact s \<and> registry_inv False s"
    using assms
  proof (induction rule: reachable.induct)
    case start
    have "event_at k inventory_exact registry_empty" by (simp add: event_at_def registry_empty_def)
    then show ?case using registry_inv_start by simp
  next
    case (step s env c s')
    then show ?case using exact_step [of False s k env c s'] registry_inv_step [of env c s s' False] by blast
  qed
  then show ?thesis ..
qed

end
