(* ===== verification/Registry_Index.thy ===== *)
theory Registry_Index
  imports Registry_Machine
begin

text \<open>
  The organizer's event list (\<open>event_registry/src/storage.rs\<close>, \<open>store_event\<close>, \<open>get_organizer_events\<close>,
  \<open>remove_from_organizer_index\<close>) over whole runs.  While no event is archived the list is exactly the
  organizer's events, in the order of registration, so that suspending a blacklisted organizer reaches
  all of them.  Archiving takes an element out of a bucket without closing the gap; the reader then stops
  one bucket early.
\<close>

section \<open>Without archiving\<close>

definition index_part :: "'a reg_events_scheme \<Rightarrow>
    (address \<Rightarrow> nat \<Rightarrow> string list) \<times> (address \<Rightarrow> nat) \<times> (address \<times> string) set" where
  "index_part s = (re_organizer_shard s, re_organizer_count s, re_organizer_event s)"

definition index_inv :: "'a reg_events_scheme \<Rightarrow> bool" where
  "index_inv s \<longleftrightarrow> (\<forall>a.
     dense_shards SHARD_SIZE (re_organizer_shard s a) (re_organizer_count s a)
     \<and> distinct (get_organizer_events a a s)
     \<and> (\<forall>i. i \<in> set (get_organizer_events a a s) \<longleftrightarrow> (a, i) \<in> re_organizer_event s))"

lemma get_organizer_events_read:
  "get_organizer_events a a s = read_shards SHARD_SIZE (re_organizer_shard s a) (re_organizer_count s a)"
  by (simp add: get_organizer_events_contents organizer_index.contents_def)

lemma index_inv_cong: "index_part s' = index_part s \<Longrightarrow> index_inv s' = index_inv s"
  by (simp add: index_part_def index_inv_def get_organizer_events_read)

lemma index_part_publish [simp]: "index_part (publish ev s) = index_part s"
  by (simp add: index_part_def)

lemma index_part_update_event: "update_event e s = Ok s' \<Longrightarrow> index_part s' = index_part s"
  by (auto simp: index_part_def dest!: update_event_frame)

lemma index_part_edited: "event_edited i s s' \<Longrightarrow> index_part s' = index_part s"
  by (auto simp: event_edited_def dest: index_part_update_event)

lemma index_part_suspend:
  "suspend_organizer_events env a s = Ok s' \<Longrightarrow> events_inv strict s \<Longrightarrow> index_part s' = index_part s"
proof -
  assume asm: "suspend_organizer_events env a s = Ok s'" "events_inv strict s"
  obtain s1 n where s1: "suspend_loop (get_organizer_events a a s) s 0 = Ok (s1, n)"
    and s': "s' = s1 \<or> (\<exists>ev. s' = publish ev s1)"
    using asm(1) by (auto simp: suspend_organizer_events_def split: if_splits)
  obtain c evs where "s1 = s\<lparr>re_active_count := c, re_events := evs\<rparr>"
    using suspend_loop_inv [OF s1 asm(2)] by blast
  then have "index_part s1 = index_part s" by (simp add: index_part_def)
  then show ?thesis using s' by auto
qed

lemma index_part_blacklist:
  assumes "events_inv strict s"
  shows "blacklist_organizer env a r s = Ok s' \<Longrightarrow> index_part s' = index_part s"
    and "remove_from_blacklist env a r s = Ok s' \<Longrightarrow> index_part s' = index_part s"
proof -
  show "blacklist_organizer env a r s = Ok s' \<Longrightarrow> index_part s' = index_part s"
    using assms
    by (auto simp: blacklist_organizer_def Let_def split: if_splits dest!: index_part_suspend)
      (auto simp: index_part_def)
  show "remove_from_blacklist env a r s = Ok s' \<Longrightarrow> index_part s' = index_part s"
    by (auto simp: remove_from_blacklist_def Let_def index_part_def split: if_splits)
qed

lemma blacklist_organizer_blacklists:
  assumes "blacklist_organizer env a r s = Ok s'" "events_inv strict s"
  shows "a \<in> re_blacklisted s'"
proof (cases "a \<in> re_blacklisted s")
  case False
  then obtain t where sus: "suspend_organizer_events env a t = Ok s'" and t: "a \<in> re_blacklisted t" "events_inv strict t"
    using assms by (auto simp: blacklist_organizer_def Let_def split: if_splits)
  obtain s1 n where s1: "suspend_loop (get_organizer_events a a t) t 0 = Ok (s1, n)"
    and s': "s' = s1 \<or> (\<exists>ev. s' = publish ev s1)"
    using sus by (auto simp: suspend_organizer_events_def split: if_splits)
  obtain c evs where "s1 = t\<lparr>re_active_count := c, re_events := evs\<rparr>"
    using suspend_loop_inv [OF s1 t(2)] by blast
  then show ?thesis using s' t(1) by auto
qed (use assms in \<open>auto simp: blacklist_organizer_def\<close>)

lemma index_inv_register:
  assumes "register_event env args s = Ok s'" "events_inv strict s" "index_inv s"
  shows "index_inv s'"
    and "get_organizer_events a a s' = (if a = args_organizer args
           then get_organizer_events a a s @ [args_event_id args] else get_organizer_events a a s)"
proof -
  let ?o = "args_organizer args" and ?i = "args_event_id args"
  have dense: "organizer_index.dense s b" for b
    using assms(3) by (simp add: index_inv_def organizer_index.dense_def)
  note reg = register_event_index [OF assms(2,1) dense]
  show list: "get_organizer_events a a s' = (if a = ?o
           then get_organizer_events a a s @ [?i] else get_organizer_events a a s)" for a
    using reg(1) reg(3) [of a] by auto
  have new: "re_events s ?i = None"
    using validate_registration_Ok(1) register_event_events(2) [OF assms(2,1)] by blast
  let ?e = "event_of_args env (rc_platform_fee s) args"
  have e: "ev_organizer ?e = ?o" by (simp add: event_of_args_def)
  have "re_organizer_event s' = organizer_flags ((re_events s)(?i \<mapsto> ?e))"
    using events_inv_register [OF assms(2,1)] register_event_events(1) [OF assms(2,1)]
    by (simp add: events_inv_def)
  then have flags: "re_organizer_event s' = insert (?o, ?i) (re_organizer_event s)"
    using organizer_flags_update [of "re_events s" ?i ?e] new assms(2) by (simp add: e events_inv_def)
  have "(?o, ?i) \<notin> re_organizer_event s"
    using assms(2) new by (simp add: events_inv_def organizer_flags_mem)
  moreover have "distinct (get_organizer_events b b s)"
    "j \<in> set (get_organizer_events b b s) \<longleftrightarrow> (b, j) \<in> re_organizer_event s" for b j
    using assms(3) by (auto simp: index_inv_def)
  ultimately have "distinct (get_organizer_events b b s')"
    "j \<in> set (get_organizer_events b b s') \<longleftrightarrow> (b, j) \<in> re_organizer_event s'" for b j
    by (auto simp: list flags)
  moreover have "organizer_index.dense s' b" for b using reg(2) dense by blast
  ultimately show "index_inv s'"
    unfolding index_inv_def by (simp add: organizer_index.dense_def)
qed

text \<open>Invocations other than archiving.\<close>

fun keeping_call :: "env \<Rightarrow> registry_call \<Rightarrow> registry \<Rightarrow> bool" where
  "keeping_call env (EventCall (ArchiveEvent i)) s = False"
| "keeping_call env c s = True"

lemma index_inv_step:
  assumes "registry_inv strict s" "keeping_call env c s" "dispatch env c s = Ok s'" "index_inv s"
  shows "index_inv s'"
proof -
  have inv: "events_inv strict s" using assms(1) by (simp add: registry_inv_def)
  note frame = step_frames [OF assms(1,3)]
  show ?thesis
  proof (cases c)
    case (EventCall x)
    show ?thesis
    proof (cases x)
      case (RegisterEvent args)
      then show ?thesis using assms(3,4) EventCall inv index_inv_register(1) by auto
    next
      case (StoreEvent e)
      then have "legacy_store_event env e s = Ok s'" using assms(3) EventCall by simp
      then obtain p where "update_event e s = Ok s'" using inv by (auto elim: legacy_store_event_OkE)
      then show ?thesis using assms(4) index_inv_cong index_part_update_event by blast
    next
      case (BlacklistOrganizer b r)
      then show ?thesis
        using assms(3,4) EventCall index_part_blacklist(1) [OF inv] index_inv_cong [of s' s] by auto
    next
      case (RemoveFromBlacklist b r)
      then show ?thesis
        using assms(3,4) EventCall index_part_blacklist(2) [OF inv] index_inv_cong [of s' s] by auto
    next
      case (ArchiveEvent i)
      then show ?thesis using assms(2) EventCall by simp
    qed (use assms(3,4) EventCall inv index_inv_cong [of s' s] index_part_edited in \<open>auto dest!: edit_ops\<close>)
  qed (use frame assms(4) index_inv_cong [of s' s] gov_frame_events [of s s'] in
      \<open>auto simp: settings_frame_def index_part_def elim!: component_frameE\<close>)
qed

lemma reachable_index_inv:
  assumes "reachable keeping_call s"
  shows "index_inv s \<and> registry_inv False s"
  using assms
proof (induction rule: reachable.induct)
  case start
  have "index_inv registry_empty"
    by (simp add: index_inv_def get_organizer_events_read registry_empty_def)
  then show ?case using registry_inv_start by simp
next
  case (step s env c s')
  then show ?case using index_inv_step registry_inv_step [of env c s s' False] by blast
qed

text \<open>The list is exactly the stored events of the organizer.\<close>

lemma index_exact:
  assumes "index_inv s" "events_inv strict s"
  shows "set (get_organizer_events a a s) = {i. \<exists>e. re_events s i = Some e \<and> ev_organizer e = a}"
  using assms unfolding index_inv_def by (auto simp: events_inv_def organizer_flags_def)


section \<open>With archiving\<close>

text \<open>Removing an element from bucket \<open>k\<close>: the bucket shrinks, the others stay, the count drops.\<close>

lemma remove_id_loop_first:
  assumes "k \<in> set ks" "sorted ks" "i \<in> set (re_organizer_shard s a k)"
    and "\<And>j. j < k \<Longrightarrow> i \<notin> set (re_organizer_shard s a j)"
  shows "remove_id_loop a i ks s =
    (s\<lparr>re_organizer_shard := (re_organizer_shard s)(a := (re_organizer_shard s a)
        (k := filter (\<lambda>j. j \<noteq> i) (re_organizer_shard s a k)))\<rparr>, True)"
  using assms(1,2)
proof (induction ks)
  case Nil
  then have False by simp
  then show ?case ..
next
  case (Cons l ks)
  show ?case
  proof (cases "l = k")
    case True
    then have "i \<in> set (re_organizer_shard s a l)" using assms(3) by simp
    then show ?thesis unfolding True remove_id_loop.simps Let_def by (rule if_P)
  next
    case False
    then have "k \<in> set ks" "l \<le> k" using Cons.prems by auto
    with False have l: "l < k" "k \<in> set ks" by auto
    have "remove_id_loop a i (l # ks) s = remove_id_loop a i ks s"
      unfolding remove_id_loop.simps(2) [of a i l ks] Let_def using assms(4) [OF l(1)] by (rule if_not_P)
    moreover have "sorted ks" using Cons.prems(2) by simp
    ultimately show ?thesis using Cons.IH [OF l(2)] by argo
  qed
qed

lemma remove_from_organizer_index_bucket:
  assumes "k < div_ceil (re_organizer_count s a) SHARD_SIZE" "i \<in> set (re_organizer_shard s a k)"
    and "\<And>j. j < k \<Longrightarrow> i \<notin> set (re_organizer_shard s a j)"
  shows "remove_from_organizer_index a i s =
    s\<lparr>re_organizer_shard := (re_organizer_shard s)(a := (re_organizer_shard s a)
        (k := filter (\<lambda>j. j \<noteq> i) (re_organizer_shard s a k))),
      re_organizer_count := (re_organizer_count s)(a := re_organizer_count s a - 1)\<rparr>"
proof -
  have "re_organizer_count s a \<noteq> 0"
  proof
    assume "re_organizer_count s a = 0"
    then show False using assms(1) by (simp add: div_ceil_def)
  qed
  then show ?thesis
    using remove_id_loop_first [of k "[0..<div_ceil (re_organizer_count s a) SHARD_SIZE]" i s a] assms
    by (simp add: remove_from_organizer_index_def)
qed

text \<open>When the last bucket holds one element and another bucket loses one, the reader no longer reaches
  the last bucket.\<close>

lemma remove_loses_last:
  assumes "dense_shards SHARD_SIZE (re_organizer_shard s a) (re_organizer_count s a)"
    "re_organizer_count s a = SHARD_SIZE * n + 1" "k < n" "i \<in> set (re_organizer_shard s a k)"
    and "\<And>j. j < k \<Longrightarrow> i \<notin> set (re_organizer_shard s a j)"
  shows "get_organizer_events a a (remove_from_organizer_index a i s)
    = concat (map ((re_organizer_shard s a)(k := filter (\<lambda>j. j \<noteq> i) (re_organizer_shard s a k))) [0..<n])"
proof -
  have sz: "0 < SHARD_SIZE" by (simp add: SHARD_SIZE_def)
  have ceil: "div_ceil (SHARD_SIZE * n + 1) SHARD_SIZE = n + 1"
    using div_ceil_Suc [OF sz, of "SHARD_SIZE * n"] sz by simp
  have ceil': "div_ceil (SHARD_SIZE * n) SHARD_SIZE = n"
    using sz by (simp add: div_ceil_def)
  have k: "k < div_ceil (re_organizer_count s a) SHARD_SIZE" using assms(2,3) ceil by simp
  have "remove_from_organizer_index a i s =
    s\<lparr>re_organizer_shard := (re_organizer_shard s)(a := (re_organizer_shard s a)
        (k := filter (\<lambda>j. j \<noteq> i) (re_organizer_shard s a k))),
      re_organizer_count := (re_organizer_count s)(a := re_organizer_count s a - 1)\<rparr>"
    by (rule remove_from_organizer_index_bucket) (use k assms(4,5) in auto)
  then show ?thesis
    using assms(2) ceil' by (simp add: get_organizer_events_read read_shards_def)
qed

end
