(* ===== verification/Registry_Demo.thy ===== *)
theory Registry_Demo
  imports Registry_Machine
begin

text \<open>
  Concrete runs of the event registry, used to show that the hypotheses of the properties can hold: an
  initialized contract with an event, a sale, two stakers and a distribution, and a dispute with two
  votes.  Every state is the result of running invocations from the empty contract.
\<close>

section \<open>Environment and arguments\<close>

text \<open>Everyone but the contract itself authorises; token transfers are accepted.\<close>

definition demo_env :: "nat \<Rightarrow> env" where
  "demo_env t = \<lparr>current_contract = ''contract'', timestamp = t, authorised = (\<lambda>a. a \<noteq> ''contract''),
     token_accepts = (\<lambda>_ _. True)\<rparr>"

definition demo_tier :: ticket_tier where
  "demo_tier = \<lparr>tier_name = ''general'', tier_price = 100, tier_limit = 10, tier_current_sold = 0,
     tier_is_refundable = True, tier_auction_config = [], tier_loyalty_multiplier = 1,
     tier_max_per_user = 4\<rparr>"

definition demo_args :: registration_args where
  "demo_args = \<lparr>args_event_id = ''e1'', args_name = ''Concert'', args_organizer = ''olga'',
     args_payment_address = ''olga'', args_metadata_cid = ''Qmaaaaaaaaaaaaaaaaaaaaaaaaaaaaaaaaaaaaaaaaaaaa'',
     args_max_supply = 20, args_milestone_plan = None, args_tiers = [(''ga'', demo_tier)],
     args_refund_deadline = 1000, args_restocking_fee = 0, args_resale_cap_bps = Some 1000,
     args_min_sales_target = Some 3, args_target_deadline = None, args_banner_cid = None, args_tags = None,
     args_category_ids = None, args_start_time = 2000, args_is_private = False, args_end_time = 3000,
     args_transfer_lock_duration = 0, args_accepted_tokens = [''usdc''], args_use_global_whitelist = False,
     args_referral_rate_bps = None\<rparr>"

section \<open>Runs\<close>

definition demo_setup :: "(env \<times> registry_call) list" where
  "demo_setup =
     [(demo_env 1, ConfigCall (Initialize ''admin'' ''wallet'' 500 ''usdc'')),
      (demo_env 2, ConfigCall (SetTicketPaymentContract ''tickets'')),
      (demo_env 3, EventCall (RegisterEvent demo_args)),
      (demo_env 4, InventoryCall (IncrementInventory ''e1'' ''ga'' ''bob'' 2 ''usdc''))]"

definition result_state :: "('e, registry) result \<Rightarrow> registry" where
  "result_state r = (case r of Ok s \<Rightarrow> s | _ \<Rightarrow> registry_empty)"

definition demo_state :: registry where
  "demo_state = result_state (run demo_setup registry_empty)"

lemmas demo_eval_defs =
  registry_empty_def require_admin_def demo_env_def demo_tier_def demo_args_def result_state_def config_op_defs contract_defs
  require_auth_def token_transfer_def ok_or_def validate_address_def validate_metadata_cid_def byte_at_def
  checked_mul_i128_def checked_add_i128_def checked_sub_i128_def checked_div_i128_def checked_i128_def
  in_i128_def i128_min_def i128_max_def saturating_add_i128_def saturating_sub_i128_def clamp_i128_def
  trunc_div_def checked_add_u_def checked_mul_u_def mul_u_def add_u_def add_i128_def saturating_add_u_def
  saturating_mul_u_def drop_value_def unwrap_or_def div_ceil_def Let_def

lemmas event_eval_defs =
  register_event_def validate_registration_def event_of_args_def storage_store_event_def
  sync_active_event_count_def increment_active_count_def append_organizer_event_def
  increment_event_count_def update_event_def MAX_TIERS_PER_EVENT_def SHARD_SIZE_def

lemmas inventory_eval_defs = increment_inventory_def record_sale_def

lemma demo_setup_ok: "run_ok (exact_call ''e1'') demo_setup registry_empty"
  by (simp add: demo_setup_def demo_eval_defs event_eval_defs inventory_eval_defs map_wf_def fresh_tier_def)

lemma run_ok_Ok: "run_ok P cs s \<Longrightarrow> \<exists>s'. run cs s = Ok s'"
  by (induction cs arbitrary: s) (auto split: result.splits)

lemma run_ok_result: "run_ok P cs s \<Longrightarrow> run cs s = Ok (result_state (run cs s))"
  using run_ok_Ok [of P cs s] by (auto simp: result_state_def)

lemma reachable_result:
  "run_ok P cs registry_empty \<Longrightarrow> reachable P (result_state (run cs registry_empty))"
  using reachable_run [OF reachable.start _ run_ok_result] by blast

lemma demo_reachable: "reachable (exact_call ''e1'') demo_state" "reachable any_call demo_state"
    "reachable (untouched_call ''e1'') demo_state"
proof -
  show exact: "reachable (exact_call ''e1'') demo_state"
    unfolding demo_state_def by (rule reachable_result [OF demo_setup_ok])
  show "reachable any_call demo_state" by (rule reachable_any [OF exact])
  show "reachable (untouched_call ''e1'') demo_state"
    by (rule reachable_mono [OF exact]) (rule exact_call_untouched)
qed

lemmas demo_state_eval = demo_state_def demo_setup_def demo_eval_defs event_eval_defs inventory_eval_defs

text \<open>Two stakers and one distribution.\<close>

definition demo_staking :: "(env \<times> registry_call) list" where
  "demo_staking =
     [(demo_env 1, ConfigCall (Initialize ''admin'' ''wallet'' 500 ''usdc'')),
      (demo_env 2, StakingCall (SetStakingConfig ''usdc'' 80)),
      (demo_env 3, StakingCall (StakeCollateral ''olga'' 100)),
      (demo_env 4, StakingCall (StakeCollateral ''otto'' 50)),
      (demo_env 5, StakingCall (DistributeStakerRewards ''admin'' 31))]"

definition demo_staking_state :: registry where
  "demo_staking_state = result_state (run demo_staking registry_empty)"

lemmas staking_eval_defs =
  set_staking_config_def stake_collateral_def add_to_total_staked_def distribute_staker_rewards_def
  reward_share_def claim_staker_rewards_def unstake_collateral_def

lemma demo_staking_ok: "run_ok (solvent_call ''contract'') demo_staking registry_empty"
  by (simp add: demo_staking_def demo_eval_defs staking_eval_defs)

lemma demo_staking_reachable: "reachable (solvent_call ''contract'') demo_staking_state"
  unfolding demo_staking_state_def by (rule reachable_result [OF demo_staking_ok])

lemma demo_staking_any: "reachable any_call demo_staking_state"
  by (rule reachable_any [OF demo_staking_reachable])

lemmas demo_staking_eval = demo_staking_state_def demo_staking_def demo_eval_defs staking_eval_defs

text \<open>A dispute with two votes for the buyer.\<close>

definition demo_dispute :: "(env \<times> registry_call) list" where
  "demo_dispute = demo_setup @
     [(demo_env 3500, DisputeCall (OpenDispute (\<lambda>_ _ _. True) ''e1'' ''bob'')),
      (demo_env 3600, DisputeCall (VoteOnDispute ''e1'' ''bob'' BuyerFavor)),
      (demo_env 3700, DisputeCall (VoteOnDispute ''e1'' ''eve'' BuyerFavor)),
      (demo_env 3800, DisputeCall (VoteOnDispute ''e1'' ''olga'' OrganizerFavor))]"

definition demo_dispute_state :: registry where
  "demo_dispute_state = result_state (run demo_dispute registry_empty)"

lemmas dispute_eval_defs =
  open_dispute_def vote_on_dispute_def count_vote_def add_dispute_vote_def has_voted_def resolve_dispute_def
  DISPUTE_SHARD_SIZE_def DISPUTE_VOTING_DURATION_def DEFAULT_QUORUM_BPS_def

lemma demo_dispute_ok: "run_ok any_call demo_dispute registry_empty"
  by (simp add: demo_dispute_def demo_setup_def demo_eval_defs event_eval_defs inventory_eval_defs
      dispute_eval_defs)

lemma demo_dispute_reachable: "reachable any_call demo_dispute_state"
  unfolding demo_dispute_state_def by (rule reachable_result [OF demo_dispute_ok])

lemmas demo_dispute_eval = demo_dispute_state_def demo_dispute_def demo_setup_def demo_eval_defs
  event_eval_defs inventory_eval_defs dispute_eval_defs

text \<open>Two administrators, and a proposal to raise the threshold executed after one of them left.\<close>

definition demo_deadlock :: "(env \<times> registry_call) list" where
  "demo_deadlock =
     [(demo_env 1, ConfigCall (Initialize ''admin'' ''wallet'' 500 ''usdc'')),
      (demo_env 2, GovCall (ProposeParameterChange ''admin'' (AddAdmin ''ann'') 0)),
      (demo_env 3, GovCall (ExecuteProposal ''admin'' 0)),
      (demo_env 4, GovCall (ProposeParameterChange ''admin'' (SetThreshold 2) 0)),
      (demo_env 5, GovCall (ProposeParameterChange ''admin'' (RemoveAdmin ''ann'') 0)),
      (demo_env 6, GovCall (ExecuteProposal ''admin'' 2)),
      (demo_env 7, GovCall (ExecuteProposal ''admin'' 1))]"

definition demo_deadlock_state :: registry where
  "demo_deadlock_state = result_state (run demo_deadlock registry_empty)"

lemmas gov_eval_defs =
  propose_parameter_change_def validate_change_def approve_proposal_def execute_proposal_def
  apply_change_def cancel_proposal_def set_platform_fee_def

lemma demo_deadlock_ok: "run_ok any_call demo_deadlock registry_empty"
  by (simp add: demo_deadlock_def demo_eval_defs gov_eval_defs)

lemma demo_deadlock_reachable: "reachable any_call demo_deadlock_state"
  unfolding demo_deadlock_state_def by (rule reachable_result [OF demo_deadlock_ok])

lemmas demo_deadlock_eval = demo_deadlock_state_def demo_deadlock_def demo_eval_defs gov_eval_defs

end
