(* ===== verification/Registry_Correct.thy ===== *)
theory Registry_Correct
  imports Registry_Index Registry_Demo
begin

text \<open>
  The correctness properties of the event registry, stated over its entry points and its reachable
  states, each with an instance on a concrete run.
\<close>

section \<open>Inventory\<close>

text \<open>C4: in every reachable state, selling tickets of an event with its own list of payment tokens succeeds
  exactly when all conditions of a sale hold: the ticket contract authorises, the quantity is positive, the
  event is active and not cancelled, the token is on its list, and the supply, tier and per-user limits and
  the integer range allow it.  Whenever a sale succeeds, these conditions held, it raises the tier's and the
  event's counters by the quantity, marks the goal as met when it is reached and counts the user's tickets
  where the tier limits them; nothing else of the events changes.  The sale of a public event adds the
  quantity to the global total.\<close>

theorem increment_inventory_correct:
  assumes "reachable any_call s"
  shows "(\<forall>e. re_events s i = Some e \<and> ev_accepted_tokens e \<noteq> [] \<and> \<not> ev_use_global_whitelist e \<longrightarrow>
         (is_ok (increment_inventory env i j user q tok s) \<longleftrightarrow> (\<exists>t. sale_ok env i j user q tok s e t)))
    \<and> (\<forall>s'. increment_inventory env i j user q tok s = Ok s' \<longrightarrow>
         (\<exists>e t. sale_ok env i j user q tok s e t
            \<and> re_events s' = (re_events s)(i \<mapsto> sold_event j q e t)
            \<and> rs_user_ticket_count s' = (if 0 < tier_max_per_user t
                 then (rs_user_ticket_count s)((i, j, user) := rs_user_ticket_count s (i, j, user) + q)
                 else rs_user_ticket_count s)
            \<and> (\<not> ev_is_private e \<longrightarrow> rs_tickets_sold s' = saturating_add_i128 (rs_tickets_sold s) (int q))))"
proof -
  have inv: "events_inv False s" using reachable_registry_inv [OF assms] by (simp add: registry_inv_def)
  have ok: "\<exists>evs. increment_inventory env i j user q tok s =
      Ok ((sale_counters i j user q t s)\<lparr>re_events := (re_events s)(i \<mapsto> sold_event j q e t),
            rc_published := rc_published s @ evs\<rparr>)" if "sale_ok env i j user q tok s e t" for e t
    using increment_inventory_Ok [OF inv that] .
  have "is_ok (increment_inventory env i j user q tok s) \<longleftrightarrow> (\<exists>t. sale_ok env i j user q tok s e t)"
    if "re_events s i = Some e" for e
  proof
    assume "is_ok (increment_inventory env i j user q tok s)"
    then obtain e' t where "sale_ok env i j user q tok s e' t" using increment_inventory_sale_ok by fastforce
    then show "\<exists>t. sale_ok env i j user q tok s e t" using that by (auto simp: sale_ok_def)
  qed (use ok in fastforce)
  moreover have "\<exists>e t. sale_ok env i j user q tok s e t
      \<and> re_events s' = (re_events s)(i \<mapsto> sold_event j q e t)
      \<and> rs_user_ticket_count s' = (if 0 < tier_max_per_user t
           then (rs_user_ticket_count s)((i, j, user) := rs_user_ticket_count s (i, j, user) + q)
           else rs_user_ticket_count s)
      \<and> (\<not> ev_is_private e \<longrightarrow> rs_tickets_sold s' = saturating_add_i128 (rs_tickets_sold s) (int q))"
    if inc: "increment_inventory env i j user q tok s = Ok s'" for s'
  proof -
    obtain e t where et: "sale_ok env i j user q tok s e t" using increment_inventory_sale_ok [OF inc] by blast
    then show ?thesis
      using ok [OF et] inc by (intro exI [of _ e] exI [of _ t]) (auto simp: sale_counters_def)
  qed
  ultimately show ?thesis by blast
qed

theorem increment_inventory_correct_witness:
  "\<exists>e t. re_events demo_state ''e1'' = Some e \<and> ev_accepted_tokens e = [''usdc'']
     \<and> sale_ok (demo_env 5) ''e1'' ''ga'' ''bob'' 2 ''usdc'' demo_state e t
     \<and> \<not> is_ok (increment_inventory (demo_env 5) ''e1'' ''ga'' ''bob'' 2 ''junk'' demo_state)"
proof -
  obtain e where e: "re_events demo_state ''e1'' = Some e" "ev_accepted_tokens e = [''usdc'']" "\<not> ev_use_global_whitelist e"
    and ok: "is_ok (increment_inventory (demo_env 5) ''e1'' ''ga'' ''bob'' 2 ''usdc'' demo_state)"
    by (simp add: demo_state_eval)
  note sale = increment_inventory_correct [OF demo_reachable(2), of "''e1''" "demo_env 5" "''ga''" "''bob''" 2]
  obtain t where "sale_ok (demo_env 5) ''e1'' ''ga'' ''bob'' 2 ''usdc'' demo_state e t"
    using sale [of "''usdc''"] e ok by auto
  moreover have "\<not> sale_ok (demo_env 5) ''e1'' ''ga'' ''bob'' 2 ''junk'' demo_state e t" for t
    using e(2) by (simp add: sale_ok_def)
  ultimately show ?thesis using sale [of "''junk''"] e by auto
qed

text \<open>The global total of sold tickets also counts the tickets of private events.\<close>

lemma private_sale_counted:
  assumes "reachable any_call s" "increment_inventory env i j user q tok s = Ok s'"
  shows "rs_tickets_sold s' = saturating_add_i128 (rs_tickets_sold s) (int q)"
proof -
  have inv: "events_inv False s" using reachable_registry_inv [OF assms(1)] by (simp add: registry_inv_def)
  obtain e t where "sale_ok env i j user q tok s e t" using increment_inventory_sale_ok [OF assms(2)] by blast
  then show ?thesis using increment_inventory_Ok [OF inv] assms(2) by (fastforce simp: sale_counters_def)
qed

text \<open>C19: whatever else happens, an event that its organizer never overwrote through the legacy \<open>store_event\<close>
  has a supply between zero and its maximum (when it has one), platform fee, custom fee, resale cap and
  milestone releases of at most 100 percent, and is inactive if it is cancelled.\<close>

theorem event_bounds:
  assumes "reachable (untouched_call i) s" "re_events s i = Some e"
  shows "ev_event_id e = i \<and> 0 \<le> ev_current_supply e
    \<and> (0 < ev_max_supply e \<longrightarrow> ev_current_supply e \<le> ev_max_supply e)
    \<and> ev_platform_fee_percent e \<le> 10000 \<and> release_total e \<le> 10000
    \<and> (\<forall>fee. ev_custom_fee_bps e = Some fee \<longrightarrow> fee \<le> 10000)
    \<and> (\<forall>cap. ev_resale_cap_bps e = Some cap \<longrightarrow> cap \<le> 10000)
    \<and> (ev_status e = Cancelled \<longrightarrow> \<not> ev_is_active e)"
proof -
  have "event_ok e" using reachable_event_ok [OF assms(1)] assms(2) by (simp add: event_at_def)
  moreover have "ev_event_id e = i"
    using reachable_registry_inv [OF assms(1)] assms(2) by (auto simp: registry_inv_def dest: events_inv_id)
  ultimately show ?thesis by (auto simp: event_ok_def bps_ok_def)
qed

theorem event_bounds_witness:
  "\<exists>e. re_events demo_state ''e1'' = Some e \<and> ev_current_supply e = 2 \<and> ev_max_supply e = 20
     \<and> ev_current_supply e \<le> ev_max_supply e"
proof -
  obtain e where e: "re_events demo_state ''e1'' = Some e" "ev_current_supply e = 2" "ev_max_supply e = 20"
    by (simp add: demo_state_eval)
  then show ?thesis using event_bounds [OF demo_reachable(3) e(1)] by auto
qed

text \<open>C16: when the tiers of an event are registered and added unsold, with limits that are not negative and
  under new names, and the organizer does not overwrite the event through the legacy \<open>store_event\<close>, then
  whatever else happens the supply of the event is exactly the sum of what its tiers sold, no tier sells
  more than its limit, and the tier limits fit the maximum supply.\<close>

theorem inventory_is_exact:
  assumes "reachable (exact_call i) s" "re_events s i = Some e"
  shows "ev_current_supply e = sold_total (ev_tiers e)
    \<and> (\<forall>j t. map_of (ev_tiers e) j = Some t \<longrightarrow> 0 \<le> tier_current_sold t \<and> tier_current_sold t \<le> tier_limit t)
    \<and> (0 < ev_max_supply e \<longrightarrow> limit_total (ev_tiers e) \<le> ev_max_supply e)"
  using reachable_exact [OF assms(1)] assms(2) by (auto simp: event_at_def inventory_exact_def)

theorem inventory_is_exact_witness:
  "\<exists>e. re_events demo_state ''e1'' = Some e \<and> ev_current_supply e = 2 \<and> sold_total (ev_tiers e) = 2"
proof -
  obtain e where e: "re_events demo_state ''e1'' = Some e" "ev_current_supply e = 2"
    by (simp add: demo_state_eval)
  then show ?thesis using inventory_is_exact [OF demo_reachable(1) e(1)] by simp
qed

text \<open>What the counter does wrong: an overwriting that makes a private active event public and inactive
  takes one off although the event was never counted.\<close>

lemma miscounting_step:
  assumes "events_inv strict s" "dispatch env c s = Ok s'" "miscounting_call env c s"
  shows "re_active_count s' = re_active_count s - 1 \<and> active_set (re_events s') = active_set (re_events s)"
proof -
  obtain e where c: "c = EventCall (StoreEvent e)" and mis: "miscounted (re_events s (ev_event_id e)) e"
    using assms(3) by (cases "(env, c, s)" rule: miscounting_call.cases) auto
  then have "legacy_store_event env e s = Ok s'" using assms(2) by simp
  then obtain p where p: "re_events s (ev_event_id e) = Some p" "update_event e s = Ok s'"
    using assms(1) by (elim legacy_store_event_OkE)
  have "re_active_count s' = re_active_count s - 1" "re_events s' = (re_events s)(ev_event_id e \<mapsto> e)"
    using p mis by (auto simp: miscounted_def update_event_def sync_active_event_count_def decrement_active_count_def)
  then show ?thesis
    using p(1) mis by (auto simp: active_set_update miscounted_def counted_def active_set_def)
qed

text \<open>C20: the global counter of active events never exceeds the number of stored events that are active and
  public, and the organizer flags are exactly the stored events with their organizers.  The counter is
  exact as long as no organizer makes an active private event public and inactive in one call of the legacy
  \<open>store_event\<close>; while it is exact that call is the only one that makes it wrong, unless no event is active
  and public.\<close>

theorem active_counter_exact:
  assumes "reachable any_call s"
  shows "re_active_count s \<le> card (active_set (re_events s)) \<and> finite (active_set (re_events s))
    \<and> (\<forall>a i. (a, i) \<in> re_organizer_event s \<longleftrightarrow> (\<exists>e. re_events s i = Some e \<and> ev_organizer e = a))
    \<and> (reachable (\<lambda>env c s. \<not> miscounting_call env c s) s \<longrightarrow> re_active_count s = card (active_set (re_events s)))
    \<and> (\<forall>env c s'. re_active_count s = card (active_set (re_events s)) \<and> dispatch env c s = Ok s' \<longrightarrow>
         (re_active_count s' = card (active_set (re_events s'))
            \<longleftrightarrow> \<not> miscounting_call env c s \<or> active_set (re_events s) = {}))"
proof -
  have reg: "registry_inv False s" by (rule reachable_registry_inv [OF assms])
  then have inv: "events_inv False s" by (simp add: registry_inv_def)
  have fin: "finite (active_set (re_events s))" using inv by (simp add: events_inv_def)
  have "re_active_count s = card (active_set (re_events s))"
    if "reachable (\<lambda>env c s. \<not> miscounting_call env c s) s"
    using reachable_registry_inv_strict [OF that] by (simp add: registry_inv_def events_inv_def counter_ok_def)
  moreover have "re_active_count s' = card (active_set (re_events s'))
      \<longleftrightarrow> \<not> miscounting_call env c s \<or> active_set (re_events s) = {}"
    if exact: "re_active_count s = card (active_set (re_events s))" and step: "dispatch env c s = Ok s'" for env c s'
  proof (cases "miscounting_call env c s")
    case True
    have "n - 1 = n \<longleftrightarrow> n = 0" for n :: nat by auto
    then show ?thesis
      using miscounting_step [OF inv step True] True exact fin by simp
  next
    case False
    have "registry_inv True s" using reg exact by (simp add: registry_inv_def events_inv_def counter_ok_def)
    then have "registry_inv True s'" using registry_inv_step [OF step] False by blast
    then show ?thesis using False by (simp add: registry_inv_def events_inv_def counter_ok_def)
  qed
  ultimately show ?thesis
    using inv fin by (auto simp: events_inv_def counter_ok_def organizer_flags_mem)
qed

theorem active_counter_exact_witness:
  "re_active_count demo_state = 1 \<and> card (active_set (re_events demo_state)) = 1"
proof -
  have "run_ok (\<lambda>env c s. \<not> miscounting_call env c s) demo_setup registry_empty"
    by (simp add: demo_setup_def demo_eval_defs event_eval_defs inventory_eval_defs)
  then have "reachable (\<lambda>env c s. \<not> miscounting_call env c s) demo_state"
    unfolding demo_state_def by (rule reachable_result)
  moreover have "re_active_count demo_state = 1" by (simp add: demo_state_eval)
  ultimately show ?thesis using active_counter_exact [OF demo_reachable(2)] by simp
qed

text \<open>C29: a cross-chain transaction is minted at most once: after a mint has succeeded on a contract that
  satisfies the invariant, no later mint with the same transaction hash succeeds, whatever happens in
  between.\<close>

theorem mint_at_most_once:
  assumes "registry_inv False s" "mint_cross_chain_ticket env h j sigs i q s = Ok s'"
    and "steps any_call s' t"
  shows "\<not> is_ok (mint_cross_chain_ticket env' h j' sigs' i' q' t)"
proof -
  have evs: "events_inv False s" using assms(1) by (simp add: registry_inv_def)
  have "h \<in> rs_teleports s'"
    using assms(2) by (auto elim!: mint_cross_chain_ticket_OkE [OF _ evs])
  moreover have "registry_inv False s'"
    using registry_inv_inventory_step [OF _ assms(1), of env "MintCrossChainTicket h j sigs i q"] assms(2) by simp
  then have "rs_teleports s' \<subseteq> rs_teleports t \<and> registry_inv False t"
    using steps_mono [OF assms(3), of "\<lambda>u v. rs_teleports u \<subseteq> rs_teleports v"] teleports_step by blast
  ultimately have h: "h \<in> rs_teleports t" and "events_inv False t" by (auto simp: registry_inv_def)
  then show ?thesis
    by (auto elim!: mint_cross_chain_ticket_OkE)
qed

lemma registry_inv_set_bridge: "registry_inv False s \<Longrightarrow> registry_inv False (set_bridge_config b s)"
proof -
  assume inv: "registry_inv False s"
  have "local_inv (set_bridge_config b s) = local_inv s"
    by (rule local_inv_cong) (simp_all add: set_bridge_config_def)
  moreover have "gov_inv (set_bridge_config b s) = gov_inv s"
    by (rule gov_inv_config_part) (simp add: set_bridge_config_def)
  moreover have "events_inv False (set_bridge_config b s) = events_inv False s"
    "re_events (set_bridge_config b s) = re_events s"
    by (simp_all add: set_bridge_config_def)
  ultimately show ?thesis
    using inv by (auto simp: registry_inv_def)
qed

definition demo_bridge_state :: registry where
  "demo_bridge_state =
     set_bridge_config \<lparr>bridge_relayer_pubkeys = [''r1'', ''r2''], bridge_threshold = 2, bridge_nonce = 0\<rparr> demo_state"

theorem mint_at_most_once_witness:
  "\<exists>s'. mint_cross_chain_ticket (demo_env 9) ''tx'' ''ga'' [''x'', ''y''] ''e1'' 1 demo_bridge_state = Ok s'
     \<and> \<not> is_ok (mint_cross_chain_ticket (demo_env 10) ''tx'' ''ga'' [''x'', ''y''] ''e1'' 1 s')"
proof -
  have inv: "registry_inv False demo_bridge_state"
    unfolding demo_bridge_state_def
    by (rule registry_inv_set_bridge [OF reachable_registry_inv [OF demo_reachable(2)]])
  obtain s' where s': "mint_cross_chain_ticket (demo_env 9) ''tx'' ''ga'' [''x'', ''y''] ''e1'' 1 demo_bridge_state = Ok s'"
    by (simp add: demo_bridge_state_def set_bridge_config_def demo_state_eval mint_cross_chain_ticket_def
        execute_teleport_mint_def)
  then show ?thesis using mint_at_most_once [OF inv s' steps.refl] by blast
qed

text \<open>C32: no entry point configures the bridge: in every state that invocations reach, minting a
  cross-chain ticket fails.\<close>

theorem mint_never_configured:
  assumes "reachable any_call s"
  shows "mint_cross_chain_ticket env h j sigs i q s =
    (if h \<in> rs_teleports s then Err ReplayAttackDetected else Err NotInitialized)"
proof -
  have "rs_bridge s = None \<and> registry_inv False s"
    using assms
  proof (induction rule: reachable.induct)
    case start
    have "rs_bridge registry_empty = None" by (simp add: registry_empty_def)
    then show ?case using registry_inv_start by simp
  next
    case (step s env c s')
    then have "step_frame c s s'" using step_frames by blast
    then have "rs_bridge s' = rs_bridge s"
      using gov_frame_registry [of s s'] event_frame_registry [of s s']
      by (cases c) (auto simp: settings_frame_def elim!: component_frameE)
    then show ?case using step registry_inv_step by auto
  qed
  then show ?thesis by (simp add: mint_cross_chain_ticket_def)
qed

theorem mint_never_configured_witness:
  "mint_cross_chain_ticket (demo_env 9) ''tx'' ''ga'' [''x'', ''y''] ''e1'' 1 demo_state = Err NotInitialized"
proof -
  have "''tx'' \<notin> rs_teleports demo_state" by (simp add: demo_state_eval)
  then show ?thesis
    using mint_never_configured [OF demo_reachable(2), of "demo_env 9" "''tx''" "''ga''" "[''x'', ''y'']" "''e1''" 1]
    by simp
qed

section \<open>The organizer index and suspension\<close>

lemma demo_keeping: "reachable keeping_call demo_state"
proof -
  have "run_ok keeping_call demo_setup registry_empty"
    by (simp add: demo_setup_def demo_eval_defs event_eval_defs inventory_eval_defs)
  then show ?thesis unfolding demo_state_def by (rule reachable_result)
qed

text \<open>C10: as long as no event is archived, the bucketed list of an organizer is a faithful list: it holds
  exactly the organizer's stored events without repetition, and registering an event appends it to the
  list of its organizer and changes no other list.\<close>

theorem organizer_list_refines:
  assumes "reachable keeping_call s"
  shows "set (get_organizer_events a a s) = {i. \<exists>e. re_events s i = Some e \<and> ev_organizer e = a}
    \<and> distinct (get_organizer_events a a s)
    \<and> (\<forall>env args s'. register_event env args s = Ok s' \<longrightarrow>
         get_organizer_events a a s' = get_organizer_events a a s
           @ (if a = args_organizer args then [args_event_id args] else []))"
proof -
  have inv: "index_inv s" "events_inv False s"
    using reachable_index_inv [OF assms] by (auto simp: registry_inv_def)
  have "get_organizer_events a a s' = get_organizer_events a a s
      @ (if a = args_organizer args then [args_event_id args] else [])"
    if "register_event env args s = Ok s'" for env args s'
    using index_inv_register(2) [OF that inv(2,1), of a] by simp
  then show ?thesis
    using index_exact [OF inv] inv(1) by (auto simp: index_inv_def)
qed

theorem organizer_list_refines_witness:
  "reachable keeping_call demo_state \<and> get_organizer_events ''olga'' ''olga'' demo_state = [''e1'']
   \<and> {i. \<exists>e. re_events demo_state i = Some e \<and> ev_organizer e = ''olga''} = {''e1''}"
proof -
  have list: "get_organizer_events ''olga'' ''olga'' demo_state = [''e1'']"
    by (simp add: demo_state_eval get_organizer_events_def)
  show ?thesis
    using organizer_list_refines [OF demo_keeping, of "''olga''"] demo_keeping unfolding list by auto
qed

text \<open>Archiving breaks that list.  When an organizer's list fills some buckets and one element of the
  next, taking an event out of a full bucket makes the reader stop before the last bucket: the element
  there is no longer listed although the record stored under it is unchanged.\<close>

theorem archive_hides_event:
  assumes "dense_shards SHARD_SIZE (re_organizer_shard s a) (re_organizer_count s a)"
    "distinct (get_organizer_events a a s)"
    "re_organizer_count s a = SHARD_SIZE * n + 1" "k < n" "i \<in> set (re_organizer_shard s a k)"
    "j \<in> set (re_organizer_shard s a n)" "re_events s i = Some e" "ev_organizer e = a"
  shows "j \<in> set (get_organizer_events a a s)
    \<and> j \<notin> set (get_organizer_events a a (remove_event i s)) \<and> j \<noteq> i
    \<and> re_events (remove_event i s) j = re_events s j"
proof -
  let ?f = "re_organizer_shard s a"
  have sz: "0 < SHARD_SIZE" by (simp add: SHARD_SIZE_def)
  have read: "get_organizer_events a a s = concat (map ?f [0..<Suc n])"
    using div_ceil_Suc [OF sz, of "SHARD_SIZE * n"] sz assms(3)
    by (simp add: get_organizer_events_read read_shards_def)
  have apart: "x \<notin> set (?f l')" if "x \<in> set (?f l)" "l \<noteq> l'" "l \<le> n" "l' \<le> n" for x l l'
    using assms(2) that unfolding read by (intro distinct_concat_map_apart [where xs = "[0..<Suc n]"]) auto
  have j: "j \<noteq> i" "j \<notin> set (?f l)" if "l < n" for l
    using apart [of j n k] apart [of j n l] assms(4-6) that by auto
  obtain s2 where rm: "remove_event i s = remove_from_organizer_index a i s2"
    and s2: "re_organizer_shard s2 = re_organizer_shard s" "re_organizer_count s2 = re_organizer_count s"
    using assms(7,8) by (auto simp: remove_event_def decrement_active_count_def Let_def)
  have "get_organizer_events a a (remove_event i s)
      = concat (map (?f(k := filter (\<lambda>j. j \<noteq> i) (?f k))) [0..<n])"
    unfolding rm using remove_loses_last [of s2 a n k i] assms(1,3,4,5) apart [of i k] s2 by auto
  then have "j \<notin> set (get_organizer_events a a (remove_event i s))"
    using j by (auto split: if_splits)
  moreover have "j \<in> set (get_organizer_events a a s)" unfolding read using assms(6) by auto
  ultimately show ?thesis using j(1) [OF assms(4)] by (simp add: remove_event_events)
qed

text \<open>Fifty-one events of one organizer; the fifty-first starts a second bucket.\<close>

definition full_bucket :: "string list" where
  "full_bucket = map (\<lambda>n. replicate n CHR ''a'') [0..<50]"

definition crowded_state :: registry where
  "crowded_state = registry_empty\<lparr>
     re_organizer_shard := (\<lambda>_ k. if k = 0 then full_bucket else if k = 1 then [''last''] else []),
     re_organizer_count := (\<lambda>_. 51),
     re_events := [''a'' \<mapsto> event_of_args (demo_env 1) 0 demo_args]\<rparr>"

lemma full_bucket_facts:
  "length full_bucket = 50" "distinct full_bucket" "''a'' \<in> set full_bucket" "''last'' \<notin> set full_bucket"
proof -
  have "inj_on (\<lambda>n. replicate n CHR ''a'') X" for X :: "nat set"
    by (rule inj_onI) (metis length_replicate)
  then show "distinct full_bucket" by (simp add: full_bucket_def distinct_map del: upt_Suc)
  have set_eq: "set full_bucket = (\<lambda>n. replicate n CHR ''a'') ` {0..<50}"
    by (simp add: full_bucket_def del: upt_Suc)
  show "''a'' \<in> set full_bucket" unfolding set_eq by (rule image_eqI [of _ _ "Suc 0"]) simp_all
  have "CHR ''l'' \<notin> set (replicate n CHR ''a'')" for n :: nat by simp
  moreover have "CHR ''l'' \<in> set ''last''" by simp
  ultimately have "''last'' \<noteq> replicate n CHR ''a''" for n :: nat by metis
  then show "''last'' \<notin> set full_bucket" unfolding set_eq by blast
qed (simp add: full_bucket_def)

lemma crowded_shards [simp]:
  "re_organizer_shard crowded_state b = (\<lambda>k. if k = 0 then full_bucket else if k = 1 then [''last''] else [])"
  "re_organizer_count crowded_state b = 51"
  "re_events crowded_state = [''a'' \<mapsto> event_of_args (demo_env 1) 0 demo_args]"
  by (simp_all add: crowded_state_def)

lemma crowded_dense: "dense_shards SHARD_SIZE (re_organizer_shard crowded_state b) (re_organizer_count crowded_state b)"
  unfolding dense_shards_def
proof
  fix k :: nat
  consider "k = 0" | "k = 1" | "2 \<le> k" by arith
  then show "length (re_organizer_shard crowded_state b k)
      = min SHARD_SIZE (re_organizer_count crowded_state b - k * SHARD_SIZE)"
    by cases (auto simp: full_bucket_facts SHARD_SIZE_def)
qed

lemma crowded_list: "get_organizer_events b b crowded_state = full_bucket @ [''last'']"
proof -
  have "[0..<div_ceil 51 50] = [0, 1::nat]" by (simp add: div_ceil_def upt_rec)
  then show ?thesis by (simp add: get_organizer_events_read read_shards_def SHARD_SIZE_def)
qed

theorem archive_hides_event_witness:
  "''last'' \<in> set (get_organizer_events ''olga'' ''olga'' crowded_state)
   \<and> ''last'' \<notin> set (get_organizer_events ''olga'' ''olga'' (remove_event ''a'' crowded_state))"
proof -
  have "distinct (get_organizer_events ''olga'' ''olga'' crowded_state)"
    using full_bucket_facts by (simp add: crowded_list)
  moreover have "''a'' \<in> set (re_organizer_shard crowded_state ''olga'' 0)"
    using full_bucket_facts by simp
  moreover have "ev_organizer (event_of_args (demo_env 1) 0 demo_args) = ''olga''"
    by (simp add: event_of_args_def demo_args_def)
  moreover have "re_organizer_count crowded_state ''olga'' = SHARD_SIZE * 1 + 1"
    by (simp add: SHARD_SIZE_def)
  ultimately show ?thesis
    using archive_hides_event [OF crowded_dense, of "''olga''" 1 0 "''a''" "''last''"
        "event_of_args (demo_env 1) 0 demo_args"]
    by simp
qed

text \<open>C22: as long as no event is archived, blacklisting an organizer deactivates every event of that
  organizer, leaves the events of everyone else as they were, and from then on the organizer cannot
  register events.\<close>

theorem blacklist_suspends_all:
  assumes "reachable keeping_call s" "a \<notin> re_blacklisted s" "blacklist_organizer env a r s = Ok s'"
  shows "(\<forall>i e. re_events s' i = Some e \<and> ev_organizer e = a \<longrightarrow> \<not> ev_is_active e)
    \<and> (\<forall>i e. ev_organizer e \<noteq> a \<longrightarrow> (re_events s' i = Some e \<longleftrightarrow> re_events s i = Some e))
    \<and> a \<in> re_blacklisted s'
    \<and> (\<forall>env' args. args_organizer args = a \<longrightarrow> \<not> is_ok (register_event env' args s'))"
proof -
  have inv: "index_inv s" "events_inv False s"
    using reachable_index_inv [OF assms(1)] by (auto simp: registry_inv_def)
  have evs: "re_events s' = deactivate_all {i. \<exists>e. re_events s i = Some e \<and> ev_organizer e = a} (re_events s)"
    using blacklist_events [OF inv(2) assms(3)] assms(2) index_exact [OF inv] by simp
  have black: "a \<in> re_blacklisted s'"
    by (rule blacklist_organizer_blacklists [OF assms(3) inv(2)])
  show ?thesis
    using black unfolding evs by (auto simp: deactivate_all_def register_event_def split: if_splits)
qed

theorem blacklist_suspends_all_witness:
  "\<exists>s' e. blacklist_organizer (demo_env 6) ''olga'' ''fraud'' demo_state = Ok s'
     \<and> re_events s' ''e1'' = Some e \<and> ev_organizer e = ''olga'' \<and> \<not> ev_is_active e"
proof -
  have black: "''olga'' \<notin> re_blacklisted demo_state" by (simp add: demo_state_eval)
  obtain s' e where s': "blacklist_organizer (demo_env 6) ''olga'' ''fraud'' demo_state = Ok s'"
    and e: "re_events s' ''e1'' = Some e" "ev_organizer e = ''olga''"
    by (simp add: demo_state_eval blacklist_organizer_def suspend_organizer_events_def get_organizer_events_def
        decrement_active_count_def)
  show ?thesis
    using blacklist_suspends_all [OF demo_keeping black s'] s' e by blast
qed


section \<open>Administration\<close>

lemma admin_unchanged:
  assumes "registry_inv False s" "dispatch env c s = Ok s'"
    and "\<And>x. c \<noteq> ConfigCall x" "\<And>x. c \<noteq> GovCall x"
  shows "rc_admin s' = rc_admin s \<and> rc_multisig s' = rc_multisig s \<and> rc_platform_fee s' = rc_platform_fee s
    \<and> rc_platform_wallet s' = rc_platform_wallet s"
proof -
  have "config_part s' = config_part s \<or> settings_frame s s'"
    using step_frames [OF assms(1,2)] assms(3,4) component_frame_gov [of s s']
    by (cases c) (auto simp: event_frame_def)
  then show ?thesis by (auto simp: config_part_def settings_frame_def)
qed

definition settings_part :: "registry \<Rightarrow> address option \<times> multisig_config option \<times> address option" where
  "settings_part s = (rc_admin s, rc_multisig s, rc_platform_wallet s)"

lemma gov_ops_settings:
  shows "propose_parameter_change env a ch ex s = Ok (s', n) \<Longrightarrow>
      settings_part s' = settings_part s \<and> rc_platform_fee s' = rc_platform_fee s"
    and "approve_proposal env a i s = Ok s' \<Longrightarrow>
      settings_part s' = settings_part s \<and> rc_platform_fee s' = rc_platform_fee s"
    and "cancel_proposal env a i s = Ok s' \<Longrightarrow>
      settings_part s' = settings_part s \<and> rc_platform_fee s' = rc_platform_fee s"
    and "cleanup_expired_proposals env s = Ok (s', n) \<Longrightarrow>
      settings_part s' = settings_part s \<and> rc_platform_fee s' = rc_platform_fee s"
    and "set_platform_fee env fee s = Ok s' \<Longrightarrow> settings_part s' = settings_part s \<and> rc_platform_fee s' = fee"
proof -
  show "propose_parameter_change env a ch ex s = Ok (s', n) \<Longrightarrow>
      settings_part s' = settings_part s \<and> rc_platform_fee s' = rc_platform_fee s"
    by (auto simp: propose_parameter_change_def contract_defs settings_part_def Let_def split: if_splits)
  show "approve_proposal env a i s = Ok s' \<Longrightarrow>
      settings_part s' = settings_part s \<and> rc_platform_fee s' = rc_platform_fee s"
    by (auto simp: approve_proposal_eq_Ok contract_defs settings_part_def)
  show "cancel_proposal env a i s = Ok s' \<Longrightarrow>
      settings_part s' = settings_part s \<and> rc_platform_fee s' = rc_platform_fee s"
    by (auto simp: cancel_proposal_def contract_defs settings_part_def split: if_splits)
  show "cleanup_expired_proposals env s = Ok (s', n) \<Longrightarrow>
      settings_part s' = settings_part s \<and> rc_platform_fee s' = rc_platform_fee s"
    using cleanup_loop_frame [of "timestamp env" "rc_active_proposals s" s 0 s' n]
    by (auto simp: cleanup_expired_proposals_def settings_part_def)
  show "set_platform_fee env fee s = Ok s' \<Longrightarrow> settings_part s' = settings_part s \<and> rc_platform_fee s' = fee"
    by (erule set_platform_fee_OkE) (auto simp: contract_defs settings_part_def)
qed

text \<open>C23: once the contract has an administrator, the administrator changes only in two ways: the address
  that the administrator proposed accepts, with its own authorisation, or the multisig adds an
  administrator by a proposal that is neither executed nor cancelled nor expired and that at least
  threshold many distinct addresses approved.\<close>

theorem admin_change_authorised:
  assumes "reachable any_call s" "dispatch env c s = Ok s'"
    "rc_admin s = Some a" "rc_admin s' \<noteq> Some a"
  shows "(\<exists>b. c = ConfigCall AcceptAdmin \<and> rc_pending_admin s = Some b \<and> authorised env b \<and> rc_admin s' = Some b)
    \<or> (\<exists>x i p config b. c = GovCall (ExecuteProposal x i) \<and> authorised env x
         \<and> rc_multisig s = Some config \<and> x \<in> set (ms_admins config) \<and> rc_proposals s i = Some p
         \<and> prop_change p = AddAdmin b \<and> \<not> prop_executed p \<and> \<not> prop_cancelled p
         \<and> timestamp env \<le> prop_expires_at p \<and> distinct (prop_approvals p)
         \<and> ms_threshold config \<le> length (prop_approvals p) \<and> rc_admin s' = Some b)"
proof -
  have inv: "registry_inv False s" using reachable_registry_inv [OF assms(1)] .
  then have gov: "gov_inv s" by (simp add: registry_inv_def)
  consider (config) x where "c = ConfigCall x" | (gov) x where "c = GovCall x"
    using admin_unchanged [OF inv assms(2)] assms(3,4) by fastforce
  then show ?thesis
  proof cases
    case config
    have "rc_initialized s" using gov assms(3) by (simp add: gov_inv_defs)
    then show ?thesis
      using assms(2-4) config by (cases x) (auto simp: config_op_defs contract_defs split: if_splits)
  next
    case gov
    show ?thesis
    proof (cases x)
      case (ExecuteProposal y i)
      then obtain p config where p: "authorised env y" "rc_multisig s = Some config" "y \<in> set (ms_admins config)"
          "rc_proposals s i = Some p" "\<not> prop_executed p" "\<not> prop_cancelled p"
          "timestamp env \<le> prop_expires_at p" "ms_threshold config \<le> length (prop_approvals p)"
        and s': "s' = remove_active_proposal i (set_proposal (p\<lparr>prop_executed := True\<rparr>)
                   (apply_change config (prop_change p) s))"
        using assms(2) gov by (auto simp: execute_proposal_eq_Ok)
      have "distinct (prop_approvals p)"
        using \<open>gov_inv s\<close> p(4) by (simp add: gov_inv_defs)
      moreover obtain b where "prop_change p = AddAdmin b" "rc_admin s' = Some b"
        using assms(3,4) s'
        by (cases "prop_change p") (auto simp: contract_defs apply_change_def Let_def)
      ultimately show ?thesis
        by (intro disjI2 exI [of _ y] exI [of _ i] exI [of _ p] exI [of _ config] exI [of _ b])
          (use p gov ExecuteProposal in simp)
    qed (use assms(2-4) gov in \<open>auto simp: settings_part_def dest!: gov_ops_settings\<close>)
  qed
qed

definition handover_state :: registry where
  "handover_state = result_state (run
     [(demo_env 1, ConfigCall (Initialize ''admin'' ''wallet'' 500 ''usdc'')),
      (demo_env 2, ConfigCall (ProposeAdmin ''ann''))] registry_empty)"

lemma handover_reachable: "reachable any_call handover_state"
  unfolding handover_state_def by (rule reachable_result) (simp add: demo_eval_defs)

theorem admin_change_authorised_witness:
  "\<exists>s'. dispatch (demo_env 3) (ConfigCall AcceptAdmin) handover_state = Ok s' \<and> rc_admin handover_state = Some ''admin''
     \<and> rc_admin s' = Some ''ann'' \<and> rc_pending_admin handover_state = Some ''ann''"
proof -
  obtain s' where s': "dispatch (demo_env 3) (ConfigCall AcceptAdmin) handover_state = Ok s'"
    and a: "rc_admin handover_state = Some ''admin''" "rc_admin s' \<noteq> Some ''admin''"
    "rc_pending_admin handover_state = Some ''ann''"
    by (simp add: handover_state_def demo_eval_defs)
  then show ?thesis
    using admin_change_authorised [OF handover_reachable s' a(1,2)] by auto
qed

text \<open>C24: after initialization the platform fee changes only with the administrator's authorisation while
  the multisig threshold is at most one, or on the strength of a live proposal for exactly that fee that
  at least threshold many distinct addresses approved; and it never exceeds 100 percent.\<close>

theorem fee_change_authorised:
  assumes "reachable any_call s" "dispatch env c s = Ok s'"
    "rc_initialized s" "rc_platform_fee s' \<noteq> rc_platform_fee s"
  shows "rc_platform_fee s' \<le> 10000 \<and>
    ((\<exists>a config. rc_admin s = Some a \<and> authorised env a \<and> rc_multisig s = Some config \<and> ms_threshold config \<le> 1)
     \<or> (\<exists>i p config. rc_multisig s = Some config \<and> rc_proposals s i = Some p
          \<and> prop_change p = SetPlatformFee (rc_platform_fee s') \<and> \<not> prop_executed p \<and> \<not> prop_cancelled p
          \<and> timestamp env \<le> prop_expires_at p \<and> distinct (prop_approvals p)
          \<and> ms_threshold config \<le> length (prop_approvals p)))"
proof -
  have inv: "registry_inv False s" "registry_inv False s'"
    using reachable_registry_inv [OF assms(1)] registry_inv_step [OF assms(2), of False] by auto
  then have gov: "gov_inv s" "rc_platform_fee s' \<le> 10000" by (auto simp: registry_inv_def gov_inv_defs)
  have dist: "distinct (prop_approvals p)" if "rc_proposals s i = Some p" for i p
    using gov(1) that by (simp add: gov_inv_defs)
  consider (config) x where "c = ConfigCall x" | (gov) x where "c = GovCall x"
    using admin_unchanged [OF inv(1) assms(2)] assms(4) by fastforce
  then show ?thesis
  proof cases
    case config
    then show ?thesis
      using assms(2-4) by (cases x) (auto simp: config_op_defs contract_defs split: if_splits)
  next
    case gov: gov
    show ?thesis
    proof (cases x)
      case (SetPlatformFeeCall fee)
      then have op: "set_platform_fee env fee s = Ok s'" using assms(2) gov by simp
      then have "rc_platform_fee s' = fee" using gov_ops_settings(5) by blast
      with op show ?thesis using dist \<open>rc_platform_fee s' \<le> 10000\<close>
        by (elim set_platform_fee_OkE) fastforce+
    next
      case (ExecuteProposal y i)
      then obtain p config where p: "rc_multisig s = Some config"
          "rc_proposals s i = Some p" "\<not> prop_executed p" "\<not> prop_cancelled p"
          "timestamp env \<le> prop_expires_at p" "ms_threshold config \<le> length (prop_approvals p)"
        and s': "s' = remove_active_proposal i (set_proposal (p\<lparr>prop_executed := True\<rparr>)
                   (apply_change config (prop_change p) s))"
        using assms(2) gov by (auto simp: execute_proposal_eq_Ok)
      have "prop_change p = SetPlatformFee (rc_platform_fee s')"
        using assms(4) s' by (cases "prop_change p") (auto simp: contract_defs apply_change_def Let_def)
      then show ?thesis
        using p dist [OF p(2)] \<open>rc_platform_fee s' \<le> 10000\<close>
        by (intro conjI disjI2 exI [of _ i] exI [of _ p] exI [of _ config]) simp_all
    qed (use assms(2-4) gov in \<open>auto dest!: gov_ops_settings\<close>)
  qed
qed

theorem fee_change_authorised_witness:
  "\<exists>s'. dispatch (demo_env 3) (GovCall (SetPlatformFeeCall 250)) handover_state = Ok s'
     \<and> rc_platform_fee handover_state = 500 \<and> rc_platform_fee s' = 250
     \<and> (\<exists>a. rc_admin handover_state = Some a \<and> authorised (demo_env 3) a)"
proof -
  obtain s' where s': "dispatch (demo_env 3) (GovCall (SetPlatformFeeCall 250)) handover_state = Ok s'"
    and a: "rc_initialized handover_state" "rc_platform_fee handover_state = 500" "rc_platform_fee s' = 250"
    "\<And>i. rc_proposals handover_state i = None"
    by (simp add: handover_state_def demo_eval_defs gov_eval_defs)
  then show ?thesis
    using fee_change_authorised [OF handover_reachable s' a(1)] by auto
qed

text \<open>C7: a proposal is executed at most once: after an execution succeeded, executing the same proposal
  again fails in every later state, and its approvals at execution were at least threshold many distinct
  addresses.\<close>

theorem proposal_executed_once:
  assumes "reachable any_call s" "execute_proposal env a i s = Ok s'" "steps any_call s' t"
  shows "\<not> is_ok (execute_proposal env' a' i t)
    \<and> (\<exists>p config. rc_proposals s i = Some p \<and> rc_multisig s = Some config \<and> distinct (prop_approvals p)
         \<and> ms_threshold config \<le> length (prop_approvals p))"
proof -
  have inv: "registry_inv False s" using reachable_registry_inv [OF assms(1)] .
  then have gov: "gov_inv s" by (simp add: registry_inv_def)
  obtain p config where p: "rc_multisig s = Some config" "rc_proposals s i = Some p"
      "ms_threshold config \<le> length (prop_approvals p)"
    and s': "s' = remove_active_proposal i (set_proposal (p\<lparr>prop_executed := True\<rparr>)
               (apply_change config (prop_change p) s))"
    using assms(2) by (auto simp: execute_proposal_eq_Ok)
  have wf: "prop_id p = i" "distinct (prop_approvals p)" using gov p(2) by (simp_all add: gov_inv_defs)
  then have executed: "rc_proposals s' i = Some (p\<lparr>prop_executed := True\<rparr>)"
    by (simp add: s' contract_defs)
  have "registry_inv False s'"
    using registry_inv_gov_step [OF _ inv, of env "ExecuteProposal a i"] assms(2) by simp
  then have "proposals_le s' t"
    using steps_mono [OF assms(3), of proposals_le] proposals_le_step proposals_le_trans
      proposals_le_same by blast
  then obtain q where "rc_proposals t i = Some q" "prop_executed q"
    using executed by (force simp: proposals_le_def proposal_le_def)
  then have "\<not> is_ok (execute_proposal env' a' i t)"
    by (auto simp: execute_proposal_eq_Ok)
  then show ?thesis using p wf(2) by blast
qed

definition proposal_state :: registry where
  "proposal_state = result_state (run
     [(demo_env 1, ConfigCall (Initialize ''admin'' ''wallet'' 500 ''usdc'')),
      (demo_env 2, GovCall (ProposeParameterChange ''admin'' (UpdatePlatformWallet ''safe'') 0))] registry_empty)"

lemma proposal_reachable: "reachable any_call proposal_state"
  unfolding proposal_state_def by (rule reachable_result) (simp add: demo_eval_defs gov_eval_defs)

theorem proposal_executed_once_witness:
  "\<exists>s'. execute_proposal (demo_env 3) ''admin'' 0 proposal_state = Ok s' \<and> rc_platform_wallet s' = Some ''safe''
     \<and> \<not> is_ok (execute_proposal (demo_env 4) ''admin'' 0 s')"
proof -
  obtain s' where s': "execute_proposal (demo_env 3) ''admin'' 0 proposal_state = Ok s'"
    "rc_platform_wallet s' = Some ''safe''"
    by (simp add: proposal_state_def demo_eval_defs gov_eval_defs)
  then show ?thesis
    using proposal_executed_once [OF proposal_reachable s'(1) steps.refl] by blast
qed

text \<open>The threshold of the multisig can come to exceed the number of its administrators, because a
  proposal is validated when it is made and not when it is executed: two administrators propose a
  threshold of two, one of them is removed, and then the first proposal is executed.\<close>

theorem multisig_threshold_can_exceed_admins:
  "\<exists>s config. reachable any_call s \<and> rc_multisig s = Some config
     \<and> length (ms_admins config) < ms_threshold config"
proof -
  obtain config where "rc_multisig demo_deadlock_state = Some config"
    "length (ms_admins config) < ms_threshold config"
    by (simp add: demo_deadlock_eval)
  then show ?thesis using demo_deadlock_reachable by blast
qed

section \<open>Staking and loyalty\<close>

text \<open>C25: the recorded total of staked tokens is exactly the sum of all stakes, the list of stakers is
  exactly the addresses with a stake, without repetition, and every stake is positive and stored under
  its owner.\<close>

theorem staking_total_exact:
  assumes "reachable any_call s"
  shows "rs_total_staked s = (\<Sum>a\<in>dom (rs_stakes s). stake_amount (the (rs_stakes s a)))
    \<and> distinct (rs_stakers s) \<and> set (rs_stakers s) = dom (rs_stakes s)
    \<and> (\<forall>a st. rs_stakes s a = Some st \<longrightarrow>
         stake_organizer st = a \<and> 0 < stake_amount st \<and> 0 \<le> stake_reward_balance st)"
proof -
  have inv: "staking_inv s" using reachable_registry_inv [OF assms] by (simp add: registry_inv_def local_inv_def)
  then have d: "distinct (rs_stakers s)" "set (rs_stakers s) = dom (rs_stakes s)"
    by (simp_all add: staking_inv_def)
  have "rs_total_staked s = (\<Sum>a\<in>set (rs_stakers s). stake_amount (the (rs_stakes s a)))"
    using inv unfolding staking_inv_def stake_sum_def sum_list_distinct_conv_sum_set [OF d(1)]
    by (auto intro!: sum.cong)
  then show ?thesis using inv d by (simp add: staking_inv_def)
qed

theorem staking_total_exact_witness:
  "reachable any_call demo_staking_state \<and> rs_total_staked demo_staking_state = 150
   \<and> (\<Sum>a\<in>dom (rs_stakes demo_staking_state). stake_amount (the (rs_stakes demo_staking_state a))) = 150"
proof -
  have "rs_total_staked demo_staking_state = 150" by (simp add: demo_staking_eval)
  then show ?thesis using staking_total_exact [OF demo_staking_any] demo_staking_any by simp
qed

text \<open>C26: one distribution of rewards credits every staker with at most the integer part of the
  proportional share, never takes anything away and leaves the stakes as they are, and in total credits
  at most the amount that was paid in.\<close>

theorem distribution_within_reward:
  assumes "reachable any_call s" "distribute_staker_rewards env admin R s = Ok s'"
    "\<And>a st. rs_stakes s a = Some st \<Longrightarrow> in_i128 (stake_reward_balance st)"
  shows "(\<forall>a st. rs_stakes s a = Some st \<longrightarrow> (\<exists>st'. rs_stakes s' a = Some st'
        \<and> stake_amount st' = stake_amount st \<and> stake_reward_balance st \<le> stake_reward_balance st'
        \<and> stake_reward_balance st' \<le> stake_reward_balance st + R * stake_amount st div rs_total_staked s))
    \<and> stake_sum stake_reward_balance (rs_stakers s') (rs_stakes s')
        \<le> stake_sum stake_reward_balance (rs_stakers s) (rs_stakes s) + R"
proof -
  let ?T = "rs_total_staked s"
  have inv: "staking_inv s" using reachable_registry_inv [OF assms(1)] by (simp add: registry_inv_def local_inv_def)
  obtain tok ev where pos: "0 < R" "0 < ?T"
    and s': "s' = publish ev (s\<lparr>rc_transfers := rc_transfers s @ [\<lparr>tr_token = tok, tr_from = admin,
            tr_to = current_contract env, tr_amount = R\<rparr>],
          rs_stakes := map_option (rewarded R ?T) \<circ> rs_stakes s\<rparr>)"
    by (rule distribute_OkE [OF assms(2) inv])
  have st: "0 < stake_amount st" "0 \<le> stake_reward_balance st" if "rs_stakes s a = Some st" for a st
    using inv that by (auto simp: staking_inv_def)
  have each: "stake_reward_balance st \<le> stake_reward_balance (rewarded R ?T st)"
    "stake_reward_balance (rewarded R ?T st) \<le> stake_reward_balance st + reward_share R ?T (stake_amount st)"
    "reward_share R ?T (stake_amount st) \<le> R * stake_amount st div ?T" if "rs_stakes s a = Some st" for a st
    using rewarded_balance [OF pos st [OF that]] assms(3) [OF that] reward_share_bounds [OF pos st(1) [OF that]]
    by auto
  have "stake_sum stake_reward_balance (rs_stakers s') (rs_stakes s')
      = stake_sum (\<lambda>st. stake_reward_balance (rewarded R ?T st)) (rs_stakers s) (rs_stakes s)"
    by (simp add: s' stake_sum_map)
  also have "\<dots> \<le> stake_sum (\<lambda>st. stake_reward_balance st + reward_share R ?T (stake_amount st))
      (rs_stakers s) (rs_stakes s)"
    by (rule stake_sum_mono) (rule each(2))
  also have "\<dots> \<le> stake_sum stake_reward_balance (rs_stakers s) (rs_stakes s) + R"
    using reward_shares_le [OF inv pos] by (simp add: stake_sum_plus)
  finally show ?thesis
    using each(1) order_trans [OF each(2) add_left_mono [OF each(3)]] by (fastforce simp: s')
qed

theorem distribution_within_reward_witness:
  "\<exists>s'. distribute_staker_rewards (demo_env 9) ''admin'' 10 demo_staking_state = Ok s'
     \<and> stake_sum stake_reward_balance (rs_stakers demo_staking_state) (rs_stakes demo_staking_state) = 30
     \<and> stake_sum stake_reward_balance (rs_stakers s') (rs_stakes s') \<le> 40"
proof -
  obtain s' where s': "distribute_staker_rewards (demo_env 9) ''admin'' 10 demo_staking_state = Ok s'"
    by (simp add: demo_staking_eval)
  have sum: "stake_sum stake_reward_balance (rs_stakers demo_staking_state) (rs_stakes demo_staking_state) = 30"
    by (simp add: demo_staking_eval stake_sum_def)
  have "in_i128 (stake_reward_balance st)" if "rs_stakes demo_staking_state a = Some st" for a st
    using that by (auto simp: demo_staking_eval split: if_splits)
  then show ?thesis
    using distribution_within_reward [OF demo_staking_any s'] s' sum by auto
qed

text \<open>C1: the contract can always pay its stakers.  In every state reached by invocations at its own
  address that it does not itself authorise, with the staking token changed only while nobody stakes, the
  tokens it received minus those it paid out cover all stakes and all unclaimed rewards, for every token.\<close>

theorem staking_solvent:
  assumes "reachable (solvent_call c) s"
  shows "(\<Sum>a\<in>dom (rs_stakes s). owed_in tok (the (rs_stakes s a))) \<le> net_inflow tok c (rc_transfers s)"
proof -
  have sol: "solvent c s" "staking_inv s"
    using reachable_solvent [OF assms] by (auto simp: registry_inv_def local_inv_def)
  then have d: "distinct (rs_stakers s)" "set (rs_stakers s) = dom (rs_stakes s)"
    by (simp_all add: staking_inv_def)
  have "liabilities tok s = (\<Sum>a\<in>set (rs_stakers s). owed_in tok (the (rs_stakes s a)))"
    unfolding liabilities_def stake_sum_def sum_list_distinct_conv_sum_set [OF d(1)]
    using d(2) by (auto intro!: sum.cong)
  moreover have "liabilities tok s \<le> net_inflow tok c (rc_transfers s)"
    using sol(1) by (simp add: solvent_def)
  ultimately show ?thesis using d(2) by simp
qed

theorem staking_solvent_witness:
  "net_inflow ''usdc'' ''contract'' (rc_transfers demo_staking_state) = 181
   \<and> (\<Sum>a\<in>dom (rs_stakes demo_staking_state). owed_in ''usdc'' (the (rs_stakes demo_staking_state a))) \<le> 181"
proof -
  have "net_inflow ''usdc'' ''contract'' (rc_transfers demo_staking_state) = 181"
    by (simp add: demo_staking_eval)
  then show ?thesis using staking_solvent [OF demo_staking_reachable, of "''usdc''"] by simp
qed

definition token_switch :: "(env \<times> registry_call) list" where
  "token_switch =
     [(demo_env 1, ConfigCall (Initialize ''admin'' ''wallet'' 500 ''usdc'')),
      (demo_env 2, StakingCall (SetStakingConfig ''usdc'' 80)),
      (demo_env 3, StakingCall (StakeCollateral ''olga'' 100)),
      (demo_env 4, StakingCall (SetStakingConfig ''junk'' 80)),
      (demo_env 5, StakingCall (DistributeStakerRewards ''admin'' 50))]"

definition token_switch_state :: registry where
  "token_switch_state = result_state (run token_switch registry_empty)"

text \<open>Changing the staking token while stakes are open breaks this: rewards are paid in with the new
  token but credited to stakes that pay out the old one, so the contract owes more of the old token than it
  ever received.\<close>

theorem token_switch_insolvent:
  "reachable (\<lambda>env c s. current_contract env = ''contract'' \<and> \<not> authorised env ''contract'')
     token_switch_state
   \<and> net_inflow ''usdc'' ''contract'' (rc_transfers token_switch_state) = 100
   \<and> liabilities ''usdc'' token_switch_state = 150"
proof -
  have "reachable (\<lambda>env c s. current_contract env = ''contract'' \<and> \<not> authorised env ''contract'')
      token_switch_state"
    unfolding token_switch_state_def
    by (rule reachable_result) (simp add: token_switch_def demo_eval_defs staking_eval_defs)
  moreover have "net_inflow ''usdc'' ''contract'' (rc_transfers token_switch_state) = 100"
    "liabilities ''usdc'' token_switch_state = 150"
    by (simp_all add: token_switch_state_def token_switch_def demo_eval_defs staking_eval_defs liabilities_def
        stake_sum_def owed_in_def)
  ultimately show ?thesis by blast
qed

text \<open>C31: a loyalty update never lowers anybody's score or discount, the discount never exceeds ten
  percent, and only the administrator or the ticket contract can make it.\<close>

theorem loyalty_monotone:
  assumes "reachable any_call s" "update_loyalty_score env caller g n amount mult s = Ok s'"
  shows "(\<forall>h. score_of h s \<le> score_of h s' \<and> get_loyalty_discount_bps h s \<le> get_loyalty_discount_bps h s' \<and> get_loyalty_discount_bps h s' \<le> 1000)
    \<and> authorised env caller \<and> (rc_admin s = Some caller \<or> rc_ticket_payment s = Some caller)
    \<and> (\<forall>h. h \<noteq> g \<longrightarrow> rs_profiles s' h = rs_profiles s h)"
proof -
  have pr: "profiles_ok s" using reachable_registry_inv [OF assms(1)] by (simp add: registry_inv_def local_inv_def)
  obtain p ev where auth: "authorised env caller" "rc_admin s = Some caller \<or> rc_ticket_payment s = Some caller"
    and s': "s' = publish ev (s\<lparr>rs_profiles := (rs_profiles s)(g \<mapsto> p)\<rparr>)"
    by (rule update_loyalty_score_OkE [OF assms(2) pr])
  have "rs_profiles s' h = rs_profiles s h" if "h \<noteq> g" for h
    using that by (simp add: s')
  then show ?thesis
    using update_loyalty_score_mono [OF assms(2) pr] get_loyalty_discount_bps_le auth by simp
qed

theorem loyalty_monotone_witness:
  "\<exists>s'. update_loyalty_score (demo_env 9) ''tickets'' ''bob'' 20 500 1 demo_state = Ok s'
     \<and> get_loyalty_discount_bps ''bob'' demo_state = 0 \<and> get_loyalty_discount_bps ''bob'' s' = 250"
proof -
  obtain s' where s': "update_loyalty_score (demo_env 9) ''tickets'' ''bob'' 20 500 1 demo_state = Ok s'"
    "get_loyalty_discount_bps ''bob'' demo_state = 0" "get_loyalty_discount_bps ''bob'' s' = 250"
    by (simp add: demo_state_eval update_loyalty_score_def get_loyalty_discount_bps_def)
  then show ?thesis using loyalty_monotone [OF demo_reachable(2) s'(1)] by blast
qed


section \<open>Disputes\<close>

text \<open>C27: the counters of a dispute are exactly its recorded votes: the buyer, organizer and total
  counters count the list that the reader over the buckets returns, and the total is the number of
  addresses with a recorded vote.\<close>

theorem dispute_counters_exact:
  assumes "reachable any_call s" "rs_disputes s i = Some d"
  shows "dsp_total_votes d = length (get_dispute_votes i s)
    \<and> dsp_buyer_votes d = count_list (get_dispute_votes i s) BuyerFavor
    \<and> dsp_organizer_votes d = count_list (get_dispute_votes i s) OrganizerFavor
    \<and> dsp_total_votes d = card {a. rs_dispute_votes s (i, a) \<noteq> None}"
proof -
  have "dispute_inv s" using reachable_registry_inv [OF assms(1)] by (simp add: registry_inv_def local_inv_def)
  then show ?thesis by (rule dispute_counters [OF _ assms(2)])
qed

theorem dispute_counters_exact_witness:
  "\<exists>d. rs_disputes demo_dispute_state ''e1'' = Some d \<and> dsp_buyer_votes d = 2 \<and> dsp_total_votes d = 3
     \<and> length (get_dispute_votes ''e1'' demo_dispute_state) = 3"
proof -
  obtain d where d: "rs_disputes demo_dispute_state ''e1'' = Some d" "dsp_buyer_votes d = 2" "dsp_total_votes d = 3"
    by (simp add: demo_dispute_eval)
  then show ?thesis using dispute_counters_exact [OF demo_dispute_reachable d(1)] by simp
qed

text \<open>C12: resolving an open dispute after its period decides for the buyer exactly when strictly more
  recorded votes favour the buyer; the configured quorum never changes that outcome.  The only way for it
  to fail is that the buyer's votes times ten thousand leave the 32-bit range.\<close>

theorem dispute_outcome_is_majority:
  assumes "reachable any_call s" "rs_disputes s i = Some d" "dsp_closes_at d < timestamp env"
    "dsp_status d = DisputeOpen \<or> dsp_status d = DisputeVoting"
  shows "if dsp_buyer_votes d * 10000 < 2 ^ 32
    then \<exists>s'. resolve_dispute env i s = Ok (s',
           if count_list (get_dispute_votes i s) OrganizerFavor < count_list (get_dispute_votes i s) BuyerFavor
           then ResolvedBuyer else ResolvedOrganizer)
    else resolve_dispute env i s = Err SupplyOverflow"
proof -
  have inv: "dispute_inv s" using reachable_registry_inv [OF assms(1)] by (simp add: registry_inv_def local_inv_def)
  have ok: "dispute_ok i s d" using inv assms(2) by (simp add: dispute_inv_def)
  show ?thesis
  proof (cases "dsp_buyer_votes d * 10000 < 2 ^ 32")
    case True
    then obtain s' st where res: "resolve_dispute env i s = Ok (s', st)"
      using assms(2-4) by (auto simp: resolve_dispute_def checked_mul_u_def Let_def)
    have "dsp_buyer_votes d = count_list (get_dispute_votes i s) BuyerFavor"
      "dsp_organizer_votes d = count_list (get_dispute_votes i s) OrganizerFavor"
      using dispute_counters [OF inv assms(2)] by simp_all
    then have "st = (if count_list (get_dispute_votes i s) OrganizerFavor < count_list (get_dispute_votes i s) BuyerFavor
           then ResolvedBuyer else ResolvedOrganizer)"
      using res inv assms(2-4) by (elim resolve_dispute_OkE) auto
    then show ?thesis using True res by auto
  next
    case False
    then show ?thesis
      using assms(2-4) by (auto simp: resolve_dispute_def checked_mul_u_def ok_or_def)
  qed
qed

theorem dispute_outcome_is_majority_witness:
  "\<exists>s'. resolve_dispute (demo_env 200000) ''e1'' demo_dispute_state = Ok (s', ResolvedBuyer)"
proof -
  obtain d where d: "rs_disputes demo_dispute_state ''e1'' = Some d" "dsp_closes_at d < timestamp (demo_env 200000)"
    "dsp_status d = DisputeOpen \<or> dsp_status d = DisputeVoting" "dsp_buyer_votes d * 10000 < 2 ^ 32"
    by (simp add: demo_dispute_eval)
  have "get_dispute_votes ''e1'' demo_dispute_state = [BuyerFavor, BuyerFavor, OrganizerFavor]"
    by (simp add: demo_dispute_eval get_dispute_votes_def map_filter_simps)
  then show ?thesis
    using dispute_outcome_is_majority [OF demo_dispute_reachable d(1-3)] d(4) by simp
qed

text \<open>C28: a resolved dispute is final and a vote stands: in every later state the dispute is unchanged,
  resolving it again returns the same outcome, nobody can vote on it or open it again, and every recorded
  vote is still the same.\<close>

theorem dispute_resolution_final:
  assumes "reachable any_call s" "resolve_dispute env i s = Ok (s', st)" "steps any_call s' t"
  shows "rs_disputes t i = rs_disputes s' i
    \<and> (\<forall>env' t' st'. resolve_dispute env' i t = Ok (t', st') \<longrightarrow> t' = t \<and> st' = st)
    \<and> (\<forall>env' a v. \<not> is_ok (vote_on_dispute env' i a v t))
    \<and> (\<forall>h env' a. \<not> is_ok (open_dispute h env' i a t))
    \<and> (\<forall>k v. rs_dispute_votes s' k = Some v \<longrightarrow> rs_dispute_votes t k = Some v)"
proof -
  have inv: "registry_inv False s" using reachable_registry_inv [OF assms(1)] .
  then have dinv: "dispute_inv s" by (simp add: registry_inv_def local_inv_def)
  obtain d where d: "rs_disputes s' i = Some d" "dsp_status d = st"
    and st: "st = ResolvedBuyer \<or> st = ResolvedOrganizer"
    using assms(2) dinv by (elim resolve_dispute_OkE) auto
  have "registry_inv False s'"
    using registry_inv_dispute_step [OF _ inv, of env "ResolveDispute i"] assms(2) by simp
  then have le: "dispute_le s' t"
    using steps_mono [OF assms(3), of dispute_le] dispute_le_step dispute_le_trans dispute_le_same by blast
  then have t: "rs_disputes t i = Some d" using d st by (fastforce simp: dispute_le_def)
  have "\<not> is_ok (vote_on_dispute env' i a v t)" for env' a v
    using t d(2) st by (auto elim!: vote_on_dispute_OkE)
  moreover have "\<not> is_ok (open_dispute h env' i a t)" for h env' a
    using t by (auto elim!: open_dispute_OkE)
  moreover have "t' = t \<and> st' = st" if "resolve_dispute env' i t = Ok (t', st')" for env' t' st'
    using that t d(2) st by (auto simp: resolve_dispute_def split: if_splits)
  ultimately show ?thesis using t d le by (auto simp: dispute_le_def)
qed

theorem dispute_resolution_final_witness:
  "\<exists>s'. resolve_dispute (demo_env 200000) ''e1'' demo_dispute_state = Ok (s', ResolvedBuyer)
     \<and> \<not> is_ok (vote_on_dispute (demo_env 200001) ''e1'' ''kim'' OrganizerFavor s')"
proof -
  obtain s' where s': "resolve_dispute (demo_env 200000) ''e1'' demo_dispute_state = Ok (s', ResolvedBuyer)"
    by (simp add: demo_dispute_eval)
  then show ?thesis using dispute_resolution_final [OF demo_dispute_reachable s' steps.refl] by blast
qed


section \<open>Season passes and access\<close>

text \<open>C30: a season pass can be redeemed exactly as often as its limit still allows: starting from any
  reachable state, \<open>n\<close> redemptions in a row succeed if and only if \<open>n\<close> is at most the limit minus the
  redemptions so far, and the count never exceeds the limit.\<close>

theorem pass_redeemed_within_limit:
  assumes "reachable any_call s" "rs_passes s pid = Some pass"
  shows "pass_usage_count pass \<le> pass_usage_limit pass
    \<and> (is_ok (redeem_times pid n s) \<longleftrightarrow> n \<le> pass_usage_limit pass - pass_usage_count pass)"
proof -
  have inv: "series_inv s" using reachable_registry_inv [OF assms(1)] by (simp add: registry_inv_def local_inv_def)
  show ?thesis using redeem_times_iff [OF inv assms(2), of n] inv assms(2) by (auto simp: series_inv_def)
qed

definition pass_state :: registry where
  "pass_state = result_state (run (demo_setup @
     [(demo_env 5, SeriesCall (RegisterSeries ''s1'' ''Season'' [''e1''] ''olga'' None)),
      (demo_env 6, SeriesCall (IssueSeriesPass ''p1'' ''s1'' ''bob'' 3 0)),
      (demo_env 7, SeriesCall (IncrementSeriesPassUsage ''p1''))]) registry_empty)"

lemmas pass_eval = pass_state_def demo_setup_def demo_eval_defs event_eval_defs inventory_eval_defs
  register_series_def store_series_def issue_series_pass_def increment_series_pass_usage_def
  storage_increment_series_pass_usage_def

lemma pass_reachable: "reachable any_call pass_state"
  unfolding pass_state_def
  by (rule reachable_result) (simp add: pass_eval)

theorem pass_redeemed_within_limit_witness:
  "is_ok (redeem_times ''p1'' 2 pass_state) \<and> \<not> is_ok (redeem_times ''p1'' 3 pass_state)"
proof -
  obtain pass where p: "rs_passes pass_state ''p1'' = Some pass" "pass_usage_limit pass = 3" "pass_usage_count pass = 1"
    by (simp add: pass_eval)
  show ?thesis
    using pass_redeemed_within_limit [OF pass_reachable p(1), of 2]
      pass_redeemed_within_limit [OF pass_reachable p(1), of 3] p(2,3) by simp
qed

end
