(* ===== verification/Ticket_Types.thy ===== *)
theory Ticket_Types
  imports Prelude
begin

text \<open>
  The data of the ticket payment contract (\<open>src/contract/contracts/ticket_payment/src/types.rs\<close>,
  \<open>payment_types.rs\<close>, \<open>governance.rs\<close>, \<open>escrow.rs\<close>, \<open>resale.rs\<close>, \<open>error.rs\<close>, \<open>events.rs\<close>) and of the
  contracts it calls as it sees them (\<open>interfaces.rs\<close>): one record per struct, one datatype per enum.

  The error enum of the source declares no variant for eight of the errors that the code returns;
  they are listed here because the code names them.
\<close>

section \<open>Errors\<close>

datatype (plugins only: code) ticket_error =
  AlreadyInitialized | InvalidAddress | NotInitialized | EventNotFound | EventInactive
| TokenNotWhitelisted | MaxSupplyExceeded | PaymentNotFound | InvalidPaymentStatus
| TicketNotRefundable | TierNotFound | InsufficientAllowance | TransferVerificationFailed
| ArithmeticError | SelfReferralNotAllowed | PriceMismatch | InvalidPrice | InvalidDiscountCode
| DiscountCodeUsed | Unauthorized | EventNotCompleted | NoFundsAvailable | RefundDeadlinePassed
| WithdrawalCapExceeded | InsufficientFees | ResalePriceExceedsCap | ContractPaused
| InvalidSecret | CommitExpired | DiscountExpired | DiscountMaxUsesReached | DisputeNotResolved
| EscrowNotInitialized | InvalidAmount | EventCancelled | EventDisputed | UnauthorizedScanner
| TicketAlreadyUsed | GoalNotMet | OracleNotConfigured | OraclePriceUnavailable
| PriceOutsideSlippage | InvalidSlippageBps | AuctionNotActive | BidTooLow | AuctionEnded
| AuctionNotEnded | NotAuctionTier | NotGovernor | InvalidProposal | ProposalNotActive
| AlreadyVoted | VotingPeriodNotMet | InsufficientVotes | ProposalExpired | OraclePriceStale
| CannotRemoveLastGovernor | InvalidFeePercent | EventEnded | TicketAlreadyListed
| ResaleListingNotFound | ResaleListingNotActive | NonTransferable | InvalidRoyaltyBps
| EmptyBatch | BatchTooLarge | PaymentAlreadyExists


section \<open>Payments and balances\<close>

definition TRANSFER_FEE_BPS :: nat where "TRANSFER_FEE_BPS = 100"
definition MAX_BPS :: nat where "MAX_BPS = 10000"

datatype payment_status = Pending | Confirmed | Refunded | Failed | CheckedIn

record payment =
  pay_id :: string
  pay_event :: string
  pay_buyer :: address
  pay_owner :: address
  pay_tier :: string
  pay_token :: address
  pay_amount :: int
  pay_platform_fee :: int
  pay_organizer_amount :: int
  pay_status :: payment_status
  pay_transaction_hash :: string
  pay_created_at :: nat
  pay_confirmed_at :: "nat option"
  pay_refunded_amount :: int
  pay_is_soulbound :: bool
  pay_last_checked_in_at :: nat
  pay_referral_amount :: int
  pay_referrer :: "address option"

record event_balance =
  bal_organizer_amount :: int
  bal_total_withdrawn :: int
  bal_platform_fee :: int

record discount_data =
  disc_percentage :: nat
  disc_expires_at :: nat
  disc_max_uses :: nat
  disc_current_uses :: nat

record purchase_options =
  opt_code_preimage :: "string option"
  opt_referrer :: "address option"
  opt_discount_code :: "string option"

record highest_bid =
  bid_bidder :: address
  bid_token :: address
  bid_amount :: int

record price_schedule =
  sched_price :: int
  sched_valid_until :: nat


section \<open>Governance, escrow and resale\<close>

datatype ticket_parameter_change =
  AddGovernor address
| RemoveGovernor address
| AddTokenToWhitelist address
| RemoveTokenFromWhitelist address
| UpdateWithdrawalCap address int
| UpdateSlippage nat
| UpdateTransferFee string nat
| EscrowWithdrawal string int

datatype proposal_status = Prop_Pending | Prop_Executed | Prop_Rejected

record parameter_proposal =
  tprop_id :: nat
  tprop_proposer :: address
  tprop_change :: ticket_parameter_change
  tprop_status :: proposal_status
  tprop_created_at :: nat
  tprop_expires_at :: nat
  tprop_vote_count :: nat
  tprop_voters :: "address list"

record escrow_milestone =
  ms_sales_threshold :: int
  ms_release_percent :: nat
  ms_released :: bool

record escrow_state =
  esc_total_collected :: int
  esc_total_released :: int
  esc_milestones_reached :: nat

datatype resale_status = Listing_Active | Listing_Cancelled | Listing_Completed | Listing_Sold

record resale_listing =
  lst_payment_id :: string
  lst_event_id :: string
  lst_seller :: address
  lst_ask_price :: int
  lst_price :: int
  lst_max_price :: int
  lst_royalty_bps :: nat
  lst_status :: resale_status
  lst_listed_at :: nat


section \<open>The contracts it calls\<close>

record price_data =
  pd_price :: int
  pd_timestamp :: nat

datatype ticket_event_status = Active | Inactive | Cancelled

datatype ticket_dispute_status = Open | Voting | ResolvedBuyer | ResolvedOrganizer | Expired

record ticket_auction_config =
  ac_start_price :: int
  ac_end_time :: nat
  ac_min_increment :: int

record ticket_tier_info =
  tt_name :: string
  tt_price :: int
  tt_early_bird_price :: int
  tt_early_bird_deadline :: nat
  tt_usd_price :: int
  tt_tier_limit :: int
  tt_current_sold :: int
  tt_is_refundable :: bool
  tt_auction_config :: "ticket_auction_config list"
  tt_loyalty_multiplier :: nat

record ticket_milestone =
  mst_sales_threshold :: int
  mst_release_percent :: nat

record ticket_event_info =
  ei_event_id :: string
  ei_name :: string
  ei_organizer :: address
  ei_payment_address :: address
  ei_platform_fee_percent :: nat
  ei_is_active :: bool
  ei_status :: ticket_event_status
  ei_created_at :: nat
  ei_metadata_cid :: string
  ei_max_supply :: int
  ei_current_supply :: int
  ei_milestone_plan :: "ticket_milestone list option"
  ei_tiers :: "(string \<times> ticket_tier_info) list"
  ei_refund_deadline :: nat
  ei_restocking_fee :: int
  ei_resale_cap_bps :: "nat option"
  ei_min_sales_target :: int
  ei_target_deadline :: nat
  ei_goal_met :: bool
  ei_custom_fee_bps :: "nat option"
  ei_banner_cid :: "string option"
  ei_tags :: "string list option"
  ei_start_time :: nat
  ei_end_time :: nat
  ei_accepted_tokens :: "address list"
  ei_use_global_whitelist :: bool
  ei_referral_rate_bps :: nat


section \<open>Published events\<close>

datatype (plugins only: code) ticket_event =
  PaymentProcessed_event string string address int int nat
| PaymentStatusChanged_event string payment_status payment_status string nat
| Initialization_event address address address
| TicketTransferred_event string address address int nat
| PriceSwitched_event string string int nat
| BulkRefundProcessed_event string nat int nat
| DiscountCodeApplied_event string string string int nat
| RevenueClaimed_event string address int nat
| FeeSettled_event string address int nat nat
| GlobalPromoApplied_event string string nat int nat
| ContractPaused_event bool nat
| DisputeStatusChanged_event string bool nat
| PartialRefundProcessed_event string nat int nat nat
| TicketCheckedIn_event string string address address nat
| BidPlaced_event string string address int nat
| AuctionClosed_event string string address int nat
| ProposalCreated_event nat address ticket_parameter_change nat
| ProposalVoted_event nat address nat
| GovernanceActionExecuted_event nat ticket_parameter_change nat
| ResaleListed_event string address int nat
| ResaleCancelled_event string address nat
| ResalePurchased_event string address address int int nat
| EventCancelled_event string address nat
| CancellationRefundClaimed_event string string address int nat
| PoapMinted_event string string address nat
| MilestoneReleased_event string nat int nat
| EscrowWithdrawalProposed_event nat string int address nat
| EscrowWithdrawalApproved_event nat address nat
| EscrowWithdrawalExecuted_event nat string int address nat
| ContractCodeReplaced_event string string
| ContractVerificationFailed_event string nat

end
