(* ===== verification/Ticket_Pricing.thy ===== *)
theory Ticket_Pricing
  imports Ticket_Types
begin

text \<open>
  The dynamic pricing of the ticket payment contract: Dutch auctions with their commit-reveal protocol
  (\<open>src/contract/contracts/ticket_payment/src/auction.rs\<close>) and polynomial bonding curves
  (\<open>bonding_curve.rs\<close>).  Prices are computed with plain 128-bit operators, so every product, sum and
  difference traps on overflow.  The hash function and the encoding of an address are the host's and are
  parameters.
\<close>

section \<open>State\<close>

record dutch_auction_config =
  da_start_price :: int
  da_reserve_price :: int
  da_start_time :: nat
  da_end_time :: nat
  da_exponential :: bool

record pending_commit =
  pc_hash :: string
  pc_expires_at :: nat
  pc_committed_price :: int
  pc_max_slippage_bps :: nat

record bonding_curve_config =
  bc_a_scaled :: int
  bc_b_exponent :: nat
  bc_c_base :: int
  bc_initial_supply :: nat

record pricing =
  pr_dutch :: "string \<times> string \<rightharpoonup> dutch_auction_config"
  pr_curve :: "string \<times> string \<rightharpoonup> bonding_curve_config"
  pr_commits :: "string \<times> string \<times> address \<rightharpoonup> pending_commit"

definition PARAM_SCALE :: int where "PARAM_SCALE = 1000000"
definition MAX_EXPONENT :: nat where "MAX_EXPONENT = 4"

definition set_dutch_auction :: "string \<Rightarrow> string \<Rightarrow> dutch_auction_config \<Rightarrow> pricing \<Rightarrow> pricing" where
  "set_dutch_auction event_id tier_id config s =
     s\<lparr>pr_dutch := (pr_dutch s)((event_id, tier_id) \<mapsto> config)\<rparr>"

definition set_bonding_curve :: "string \<Rightarrow> string \<Rightarrow> bonding_curve_config \<Rightarrow> pricing \<Rightarrow> pricing" where
  "set_bonding_curve event_id tier_id config s =
     s\<lparr>pr_curve := (pr_curve s)((event_id, tier_id) \<mapsto> config)\<rparr>"




section \<open>Dutch auctions\<close>

definition validate_dutch_auction_config ::
    "env \<Rightarrow> dutch_auction_config \<Rightarrow> (ticket_error, unit) result" where
  "validate_dutch_auction_config env cfg =
     (if da_reserve_price cfg \<le> 0 then Err InvalidPrice
      else if da_start_price cfg \<le> da_reserve_price cfg then Err InvalidPrice
      else if da_end_time cfg \<le> da_start_time cfg then Err InvalidPrice
      else if da_end_time cfg \<le> timestamp env then Err AuctionEnded
      else Ok ())"

definition current_dutch_price_linear ::
    "dutch_auction_config \<Rightarrow> nat \<Rightarrow> (ticket_error, int) result" where
  "current_dutch_price_linear cfg now =
     (if da_end_time cfg \<le> now then Ok (da_reserve_price cfg)
      else if now \<le> da_start_time cfg then Ok (da_start_price cfg)
      else
        let elapsed = int (now - da_start_time cfg);
            duration = int (da_end_time cfg - da_start_time cfg)
        in
        rbind (sub_i128 (da_start_price cfg) (da_reserve_price cfg)) (\<lambda>spread.
        rbind (mul_i128 elapsed spread) (\<lambda>v.
        sub_i128 (da_start_price cfg) (trunc_div v duration))))"

definition current_dutch_price_exponential ::
    "dutch_auction_config \<Rightarrow> nat \<Rightarrow> (ticket_error, int) result" where
  "current_dutch_price_exponential cfg now =
     (if da_end_time cfg \<le> now then Ok (da_reserve_price cfg)
      else if now \<le> da_start_time cfg then Ok (da_start_price cfg)
      else
        let elapsed = int (now - da_start_time cfg);
            duration = int (da_end_time cfg - da_start_time cfg);
            scale = 1000000
        in
        rbind (sub_i128 duration elapsed) (\<lambda>remaining.
        rbind (mul_i128 remaining scale) (\<lambda>v.
        let f = trunc_div v duration in
        rbind (mul_i128 2 f) (\<lambda>f2.
        rbind (mul_i128 f f) (\<lambda>ff.
        rbind (sub_i128 f2 (trunc_div ff scale)) (\<lambda>factor.
        rbind (sub_i128 (da_start_price cfg) (da_reserve_price cfg)) (\<lambda>spread.
        rbind (mul_i128 spread factor) (\<lambda>w.
        add_i128 (da_reserve_price cfg) (trunc_div w scale)))))))))"

definition current_dutch_price :: "dutch_auction_config \<Rightarrow> nat \<Rightarrow> (ticket_error, int) result" where
  "current_dutch_price cfg now =
     (if da_exponential cfg then current_dutch_price_exponential cfg now
      else current_dutch_price_linear cfg now)"


section \<open>Commit and reveal\<close>

text \<open>The sixteen bytes of a 128-bit two's complement number, least significant first.\<close>

definition i128_to_le_bytes :: "int \<Rightarrow> string" where
  "i128_to_le_bytes v = map (\<lambda>k. char_of (nat (v div 2 ^ (8 * k) mod 256))) [0..<16]"





section \<open>Bonding curves\<close>

definition validate_bonding_curve_config :: "bonding_curve_config \<Rightarrow> (ticket_error, unit) result" where
  "validate_bonding_curve_config cfg =
     (if bc_a_scaled cfg \<le> 0 then Err InvalidPrice
      else if bc_b_exponent cfg = 0 \<or> bc_b_exponent cfg > MAX_EXPONENT then Err InvalidPrice
      else if bc_c_base cfg < 0 then Err InvalidPrice
      else if bc_initial_supply cfg = 0 then Err MaxSupplyExceeded
      else Ok ())"

fun pow_loop :: "nat \<Rightarrow> int \<Rightarrow> int \<Rightarrow> int" where
  "pow_loop 0 base r = r"
| "pow_loop (Suc n) base r = pow_loop n base (saturating_mul_i128 r base)"

definition integer_pow :: "int \<Rightarrow> nat \<Rightarrow> int" where
  "integer_pow base e = (if e = 0 then 1 else pow_loop e base 1)"

definition bonding_curve_price :: "bonding_curve_config \<Rightarrow> nat \<Rightarrow> (ticket_error, int) result" where
  "bonding_curve_price cfg remaining_supply =
     (let s_pow_b = integer_pow (int remaining_supply) (bc_b_exponent cfg) in
      rbind (mul_i128 (bc_a_scaled cfg) s_pow_b) (\<lambda>v.
      add_i128 (trunc_div v PARAM_SCALE) (bc_c_base cfg)))"

definition integral_at :: "bonding_curve_config \<Rightarrow> nat \<Rightarrow> int \<Rightarrow> (ticket_error, int) result" where
  "integral_at cfg b_plus_1 s =
     rbind (mul_i128 (bc_a_scaled cfg) (integer_pow s b_plus_1)) (\<lambda>v.
     rbind (mul_i128 (bc_c_base cfg) s) (\<lambda>w.
     add_i128 (trunc_div (trunc_div v (int b_plus_1)) PARAM_SCALE) w))"

definition bonding_curve_integral_cost ::
    "bonding_curve_config \<Rightarrow> nat \<Rightarrow> nat \<Rightarrow> (ticket_error, int) result" where
  "bonding_curve_integral_cost cfg remaining_supply quantity =
     (if quantity = 0 then Ok 0
      else if quantity > remaining_supply then Err MaxSupplyExceeded
      else
        rbind (add_u 32 (bc_b_exponent cfg) 1) (\<lambda>b_plus_1.
        rbind (integral_at cfg b_plus_1 (int remaining_supply)) (\<lambda>at_start.
        rbind (integral_at cfg b_plus_1 (int (remaining_supply - quantity))) (\<lambda>at_end.
        rbind (sub_i128 at_start at_end) (\<lambda>cost.
        if cost < 0 then Err ArithmeticError else Ok cost)))))"

definition check_slippage :: "int \<Rightarrow> int \<Rightarrow> nat \<Rightarrow> (ticket_error, unit) result" where
  "check_slippage actual_price buyer_quoted_price max_slippage_bps =
     (if max_slippage_bps > MAX_BPS then Err InvalidSlippageBps
      else
        rbind (mul_i128 buyer_quoted_price (int max_slippage_bps)) (\<lambda>v.
        rbind (add_i128 buyer_quoted_price (trunc_div v (int MAX_BPS))) (\<lambda>ceiling.
        if actual_price > ceiling then Err PriceOutsideSlippage else Ok ())))"

section \<open>Arithmetic\<close>


lemma trunc_div_mono: "0 \<le> a \<Longrightarrow> a \<le> b \<Longrightarrow> 0 < c \<Longrightarrow> trunc_div a c \<le> trunc_div b c"
  by (simp add: trunc_div_nonneg zdiv_mono1)

lemma trunc_div_ge_0: "0 \<le> a \<Longrightarrow> 0 < c \<Longrightarrow> 0 \<le> trunc_div a c"
  by (simp add: trunc_div_nonneg pos_imp_zdiv_nonneg_iff)

lemma pow_loop_saturates:
  assumes "0 \<le> base" "0 \<le> r" "r \<le> i128_max"
  shows "pow_loop n base r = min i128_max (r * base ^ n)"
  using assms(2,3)
proof (induction n arbitrary: r)
  case (Suc n)
  have nn: "0 \<le> r * base" using assms(1) Suc.prems by simp
  then have cl: "saturating_mul_i128 r base = min i128_max (r * base)"
    by (auto simp: saturating_mul_i128_def clamp_i128_def i128_min_def i128_max_def)
  have ih: "pow_loop n base (min i128_max (r * base)) = min i128_max (min i128_max (r * base) * base ^ n)"
    by (rule Suc.IH) (use nn in \<open>auto simp: i128_max_def\<close>)
  show ?case
  proof (cases "r * base \<le> i128_max")
    case True
    then have "min i128_max (r * base) = r * base" by simp
    then show ?thesis using ih cl by (simp add: mult.assoc)
  next
    case False
    have "base \<noteq> 0" using False by (auto simp: i128_max_def)
    then have ge: "1 \<le> base ^ n" using assms(1) by (simp add: one_le_power)
    have pos: "0 \<le> i128_max" by (simp add: i128_max_def)
    have "i128_max * 1 \<le> i128_max * base ^ n" by (rule mult_left_mono [OF ge pos])
    moreover have "i128_max * base ^ n \<le> r * base * base ^ n"
      by (rule mult_right_mono) (use False ge in auto)
    ultimately show ?thesis using ih cl False by (simp add: min_def mult.assoc)
  qed
qed simp

lemma integer_pow_eq: "0 \<le> base \<Longrightarrow> integer_pow base e = min i128_max (base ^ e)"
  using pow_loop_saturates [of base 1 e] by (auto simp: integer_pow_def i128_max_def)

lemma integer_pow_mono: "0 \<le> s \<Longrightarrow> s \<le> t \<Longrightarrow> integer_pow s e \<le> integer_pow t e"
  using power_mono [of s t e] by (auto simp: integer_pow_eq)

lemma integer_pow_ge_0: "0 \<le> s \<Longrightarrow> 0 \<le> integer_pow s e"
  by (auto simp: integer_pow_eq i128_max_def)

lemma scaled_pow_mono:
  assumes "0 \<le> a" "0 \<le> s" "s \<le> t"
  shows "0 \<le> a * integer_pow s e" "a * integer_pow s e \<le> a * integer_pow t e"
  using assms integer_pow_ge_0 integer_pow_mono by (auto intro: mult_left_mono)

lemma mul_i128_below:
  assumes "mul_i128 a t = Ok v" "0 \<le> a * s" "a * s \<le> a * t"
  shows "mul_i128 a s = Ok (a * s)"
  using assms by (auto simp: in_i128_def i128_min_def)


section \<open>Bonding curves\<close>

lemma validate_bonding_curve_config_Ok [simp]:
  "validate_bonding_curve_config cfg = Ok u \<longleftrightarrow> 0 < bc_a_scaled cfg \<and> 0 < bc_b_exponent cfg
     \<and> bc_b_exponent cfg \<le> 4 \<and> 0 \<le> bc_c_base cfg \<and> 0 < bc_initial_supply cfg"
  by (auto simp: validate_bonding_curve_config_def MAX_EXPONENT_def)

lemma integral_at_mono:
  assumes "0 < bc_a_scaled cfg" "0 \<le> bc_c_base cfg" "0 < n" "s \<le> t" "integral_at cfg n (int t) = Ok v"
  obtains w where "integral_at cfg n (int s) = Ok w" "0 \<le> w" "w \<le> v"
proof -
  let ?P = "\<lambda>s. bc_a_scaled cfg * integer_pow (int s) n" and ?c = "\<lambda>s. bc_c_base cfg * int s"
  let ?D = "\<lambda>s. trunc_div (trunc_div (?P s) (int n)) PARAM_SCALE"
  have P: "0 \<le> ?P s" "?P s \<le> ?P t" using scaled_pow_mono [of "bc_a_scaled cfg" "int s" "int t" n] assms by auto
  have c: "0 \<le> ?c s" "?c s \<le> ?c t" using assms by (auto intro: mult_left_mono)
  have q: "0 \<le> trunc_div (?P s) (int n)" "trunc_div (?P s) (int n) \<le> trunc_div (?P t) (int n)"
    using P assms(3) by (auto intro: trunc_div_ge_0 trunc_div_mono)
  have D: "0 \<le> ?D s" "?D s \<le> ?D t"
    using q by (auto simp: PARAM_SCALE_def intro: trunc_div_ge_0 trunc_div_mono)
  have v: "in_i128 (?P t)" "in_i128 (?c t)" "in_i128 (?D t + ?c t)" "v = ?D t + ?c t"
    using assms(5) by (auto simp: integral_at_def)
  have "in_i128 (?P s)" "in_i128 (?c s)" "in_i128 (?D s + ?c s)"
    using P c D v by (auto simp: in_i128_def i128_min_def)
  then have "integral_at cfg n (int s) = Ok (?D s + ?c s)" by (simp add: integral_at_def)
  moreover have "0 \<le> ?D s + ?c s" "?D s + ?c s \<le> v" using D c v(4) by linarith+
  ultimately show ?thesis by (rule that)
qed

lemma integral_cost_pos:
  assumes "0 < q" "q \<le> s" "bc_b_exponent cfg \<le> 4" "0 < bc_a_scaled cfg" "0 \<le> bc_c_base cfg"
  shows "bonding_curve_integral_cost cfg s q = Ok c \<longleftrightarrow>
    (\<exists>u v. integral_at cfg (bc_b_exponent cfg + 1) (int s) = Ok u
       \<and> integral_at cfg (bc_b_exponent cfg + 1) (int (s - q)) = Ok v \<and> c = u - v)"
proof -
  have "in_i128 (u - v) \<and> \<not> u - v < 0"
    if u: "integral_at cfg (bc_b_exponent cfg + 1) (int s) = Ok u"
      and v: "integral_at cfg (bc_b_exponent cfg + 1) (int (s - q)) = Ok v" for u v
  proof -
    obtain w where w: "integral_at cfg (bc_b_exponent cfg + 1) (int (s - q)) = Ok w" "0 \<le> w" "w \<le> u"
      by (rule integral_at_mono [OF assms(4,5) _ _ u, of "s - q"]) auto
    have "in_i128 u" using u by (auto simp: integral_at_def)
    with w v show ?thesis by (auto simp: in_i128_def i128_min_def)
  qed
  then show ?thesis
    using assms by (auto simp: bonding_curve_integral_cost_def)
qed

text \<open>The price rises with the remaining supply, so that it falls while tickets are sold.\<close>

lemma bonding_curve_price_mono:
  assumes "validate_bonding_curve_config cfg = Ok ()" "s \<le> t" "bonding_curve_price cfg t = Ok p"
  shows "\<exists>q. bonding_curve_price cfg s = Ok q \<and> bc_c_base cfg \<le> q \<and> q \<le> p
    \<and> (s = 0 \<longrightarrow> q = bc_c_base cfg)"
proof -
  let ?a = "bc_a_scaled cfg" and ?b = "bc_b_exponent cfg"
  let ?P = "\<lambda>s. ?a * integer_pow (int s) ?b" and ?D = "\<lambda>s. trunc_div (?a * integer_pow (int s) ?b) PARAM_SCALE"
  have P: "0 \<le> ?P s" "?P s \<le> ?P t" using scaled_pow_mono [of ?a "int s" "int t" ?b] assms by auto
  have D: "0 \<le> ?D s" "?D s \<le> ?D t"
    using P by (auto simp: PARAM_SCALE_def intro: trunc_div_ge_0 trunc_div_mono)
  have p: "in_i128 (?P t)" "in_i128 (?D t + bc_c_base cfg)" "p = ?D t + bc_c_base cfg"
    using assms(3) by (auto simp: bonding_curve_price_def Let_def)
  have "0 \<le> bc_c_base cfg" "0 < ?b" using assms(1) by auto
  then have "in_i128 (?P s)" "in_i128 (?D s + bc_c_base cfg)"
    using P D p by (auto simp: in_i128_def i128_min_def)
  then have "bonding_curve_price cfg s = Ok (?D s + bc_c_base cfg)"
    by (simp add: bonding_curve_price_def Let_def)
  moreover have "s = 0 \<longrightarrow> ?D s = 0"
    using \<open>0 < ?b\<close> by (auto simp: integer_pow_eq i128_max_def trunc_div_def power_0_left)
  ultimately show ?thesis using D p(3) by auto
qed


text \<open>C37: buying several tickets at once costs exactly what buying them in two orders costs, one after the
  other, and the one purchase can be priced if and only if the two can: no order is cheaper for being
  split.\<close>

theorem bulk_cost_is_sum:
  assumes "validate_bonding_curve_config cfg = Ok ()" "m + n \<le> s"
  shows "bonding_curve_integral_cost cfg s (m + n) = Ok c \<longleftrightarrow>
    (\<exists>x y. bonding_curve_integral_cost cfg s m = Ok x \<and> bonding_curve_integral_cost cfg (s - m) n = Ok y
       \<and> c = x + y)"
proof -
  let ?I = "\<lambda>k. integral_at cfg (bc_b_exponent cfg + 1) (int k)"
  have v: "0 < bc_a_scaled cfg" "bc_b_exponent cfg \<le> 4" "0 \<le> bc_c_base cfg" using assms(1) by auto
  have zero: "bonding_curve_integral_cost cfg k 0 = Ok 0" for k by (simp add: bonding_curve_integral_cost_def)
  show ?thesis
  proof (cases "m = 0 \<or> n = 0")
    case True
    then show ?thesis by (auto simp: zero)
  next
    case False
    have cost: "bonding_curve_integral_cost cfg k q = Ok x \<longleftrightarrow> (\<exists>u w. ?I k = Ok u \<and> ?I (k - q) = Ok w \<and> x = u - w)"
      if "0 < q" "q \<le> k" for k q x
      by (rule integral_cost_pos [OF that v(2,1,3)])
    have mid: "\<exists>w. ?I (s - m) = Ok w" if "?I s = Ok u" for u
      by (rule integral_at_mono [OF v(1,3) _ _ that, of "s - m"]) auto
    have "bonding_curve_integral_cost cfg s (m + n) = Ok c
        \<longleftrightarrow> (\<exists>u w. ?I s = Ok u \<and> ?I (s - (m + n)) = Ok w \<and> c = u - w)"
      by (rule cost) (use False assms(2) in auto)
    also have "\<dots> \<longleftrightarrow> (\<exists>u z w. ?I s = Ok u \<and> ?I (s - m) = Ok z \<and> ?I (s - m - n) = Ok w \<and> c = (u - z) + (z - w))"
      using mid by fastforce
    also have "\<dots> \<longleftrightarrow> (\<exists>x y. bonding_curve_integral_cost cfg s m = Ok x
        \<and> bonding_curve_integral_cost cfg (s - m) n = Ok y \<and> c = x + y)"
      using False assms(2) by (auto simp: cost)
    finally show ?thesis .
  qed
qed

definition demo_curve :: bonding_curve_config where
  "demo_curve = \<lparr>bc_a_scaled = 2500000, bc_b_exponent = 2, bc_c_base = 700, bc_initial_supply = 50\<rparr>"

lemma demo_pow: "integer_pow (int n) e = min i128_max (int n ^ e)"
  by (rule integer_pow_eq) simp

lemmas curve_eval = demo_curve_def bonding_curve_price_def bonding_curve_integral_cost_def integral_at_def
  mul_i128_def add_i128_def sub_i128_def add_u_def in_i128_def i128_min_def i128_max_def PARAM_SCALE_def
  trunc_div_def


theorem bulk_cost_is_sum_witness:
  "bonding_curve_integral_cost demo_curve 30 5 = Ok 12980
   \<and> (\<exists>x y. bonding_curve_integral_cost demo_curve 30 2 = Ok x \<and> bonding_curve_integral_cost demo_curve 28 3 = Ok y
        \<and> 12980 = x + y)"
proof -
  have ok: "validate_bonding_curve_config demo_curve = Ok ()" by (simp add: demo_curve_def)
  have c: "bonding_curve_integral_cost demo_curve 30 5 = Ok 12980"
    using demo_pow [of 30 3] demo_pow [of 25 3] by (simp add: curve_eval)
  show ?thesis using bulk_cost_is_sum [OF ok, of 2 3 30 12980] c by simp
qed


section \<open>Dutch auctions fall from the start price to the reserve price\<close>

lemma validate_dutch_auction_config_Ok [simp]:
  "validate_dutch_auction_config env cfg = Ok u \<longleftrightarrow> 0 < da_reserve_price cfg
     \<and> da_reserve_price cfg < da_start_price cfg \<and> da_start_time cfg < da_end_time cfg
     \<and> timestamp env < da_end_time cfg"
  by (auto simp: validate_dutch_auction_config_def)

text \<open>A configuration whose prices and times leave room for the products of the price formula.\<close>

definition dutch_ok :: "dutch_auction_config \<Rightarrow> bool" where
  "dutch_ok cfg \<longleftrightarrow> 0 < da_reserve_price cfg \<and> da_reserve_price cfg < da_start_price cfg
     \<and> da_start_time cfg < da_end_time cfg \<and> da_start_price cfg < 2 ^ 63 \<and> da_end_time cfg < 2 ^ 64"

text \<open>What the two formulas compute between the start and the end.\<close>

definition linear_price :: "dutch_auction_config \<Rightarrow> nat \<Rightarrow> int" where
  "linear_price cfg now = da_start_price cfg - int (now - da_start_time cfg)
     * (da_start_price cfg - da_reserve_price cfg) div int (da_end_time cfg - da_start_time cfg)"

definition concave_factor :: "int \<Rightarrow> int" where
  "concave_factor f = 2 * f - f * f div 1000000"

definition remaining_share :: "dutch_auction_config \<Rightarrow> nat \<Rightarrow> int" where
  "remaining_share cfg now =
     (int (da_end_time cfg - da_start_time cfg) - int (now - da_start_time cfg)) * 1000000
       div int (da_end_time cfg - da_start_time cfg)"

definition concave_price :: "dutch_auction_config \<Rightarrow> nat \<Rightarrow> int" where
  "concave_price cfg now = da_reserve_price cfg
     + (da_start_price cfg - da_reserve_price cfg) * concave_factor (remaining_share cfg now) div 1000000"

lemma concave_factor_mono:
  assumes "0 \<le> f" "f \<le> g" "g \<le> 1000000"
  shows "concave_factor f \<le> concave_factor g"
proof -
  have "(g - f) * (g + f) \<le> (g - f) * 2000000" by (rule mult_left_mono) (use assms in auto)
  then have "g * g \<le> f * f + 2 * (g - f) * 1000000" by (simp add: algebra_simps)
  then have "g * g div 1000000 \<le> (f * f + 2 * (g - f) * 1000000) div 1000000" by (rule zdiv_mono1) simp
  also have "\<dots> = f * f div 1000000 + 2 * (g - f)" by simp
  finally show ?thesis by (simp add: concave_factor_def)
qed

lemma concave_factor_bounds:
  assumes "0 \<le> f" "f \<le> 1000000"
  shows "0 \<le> concave_factor f" "concave_factor f \<le> 1000000"
  using concave_factor_mono [of 0 f] concave_factor_mono [of f 1000000] assms
  by (simp_all add: concave_factor_def)

lemma elapsed_bounds:
  assumes "dutch_ok cfg" "da_start_time cfg < now" "now < da_end_time cfg"
  shows "0 < int (da_end_time cfg - da_start_time cfg)" "0 \<le> int (now - da_start_time cfg)"
    "int (now - da_start_time cfg) \<le> int (da_end_time cfg - da_start_time cfg)"
    "int (da_end_time cfg - da_start_time cfg) < 2 ^ 64"
  using assms by (auto simp: dutch_ok_def)

lemma remaining_share_bounds:
  assumes "dutch_ok cfg" "da_start_time cfg < now" "now < da_end_time cfg"
  shows "0 \<le> remaining_share cfg now" "remaining_share cfg now \<le> 1000000"
proof -
  let ?d = "int (da_end_time cfg - da_start_time cfg)" and ?e = "int (now - da_start_time cfg)"
  note b = elapsed_bounds [OF assms]
  show "0 \<le> remaining_share cfg now"
    unfolding remaining_share_def using b by (simp add: pos_imp_zdiv_nonneg_iff)
  have "(?d - ?e) * 1000000 div ?d \<le> ?d * 1000000 div ?d" by (rule zdiv_mono1) (use b in auto)
  also have "\<dots> = 1000000" by (rule nonzero_mult_div_cancel_left) (use b(1) in linarith)
  finally show "remaining_share cfg now \<le> 1000000" unfolding remaining_share_def .
qed

lemma in_i128_small: "\<bar>x\<bar> \<le> 2 ^ 127 - 1 \<Longrightarrow> in_i128 x"
  by (auto simp: in_i128_def i128_min_def i128_max_def)

lemma mult_abs_bound:
  fixes x y :: int
  assumes "0 \<le> x" "x \<le> a" "0 \<le> y" "y \<le> b"
  shows "0 \<le> x * y" "x * y \<le> a * b"
  using assms by (auto intro: mult_mono)

lemma linear_price_computes:
  assumes "dutch_ok cfg" "da_start_time cfg < now" "now < da_end_time cfg"
  shows "current_dutch_price_linear cfg now = Ok (linear_price cfg now)"
    "da_reserve_price cfg \<le> linear_price cfg now" "linear_price cfg now \<le> da_start_price cfg"
proof -
  let ?d = "int (da_end_time cfg - da_start_time cfg)" and ?e = "int (now - da_start_time cfg)"
  let ?s = "da_start_price cfg - da_reserve_price cfg"
  note b = elapsed_bounds [OF assms]
  have s: "0 < ?s" "?s \<le> 2 ^ 63" "0 < da_reserve_price cfg" "da_start_price cfg < 2 ^ 63"
    using assms(1) by (auto simp: dutch_ok_def)
  have m: "0 \<le> ?e * ?s" "?e * ?s \<le> (2 ^ 64 - 1) * 2 ^ 63"
    using mult_abs_bound [of ?e "2 ^ 64 - 1" ?s "2 ^ 63"] b s by auto
  have "?e * ?s \<le> ?d * ?s" using b s by (auto intro: mult_right_mono)
  then have "?e * ?s div ?d \<le> ?d * ?s div ?d" by (rule zdiv_mono1) (rule b(1))
  then have q: "0 \<le> ?e * ?s div ?d" "?e * ?s div ?d \<le> ?s" using b(1) m(1) by (simp_all add: pos_imp_zdiv_nonneg_iff)
  then show "da_reserve_price cfg \<le> linear_price cfg now" "linear_price cfg now \<le> da_start_price cfg"
    by (simp_all add: linear_price_def)
  have "in_i128 ?s" "in_i128 (?e * ?s)" "in_i128 (da_start_price cfg - ?e * ?s div ?d)"
    using s m q by (auto intro!: in_i128_small)
  then show "current_dutch_price_linear cfg now = Ok (linear_price cfg now)"
    using assms m(1) b(1) by (simp add: current_dutch_price_linear_def linear_price_def Let_def trunc_div_nonneg)
qed

lemma concave_price_computes:
  assumes "dutch_ok cfg" "da_start_time cfg < now" "now < da_end_time cfg"
  shows "current_dutch_price_exponential cfg now = Ok (concave_price cfg now)"
    "da_reserve_price cfg \<le> concave_price cfg now" "concave_price cfg now \<le> da_start_price cfg"
proof -
  define d where "d = int (da_end_time cfg - da_start_time cfg)"
  define e where "e = int (now - da_start_time cfg)"
  define p where "p = da_start_price cfg - da_reserve_price cfg"
  define f where "f = remaining_share cfg now"
  define k where "k = concave_factor f"
  note b = elapsed_bounds [OF assms, folded d_def e_def]
    and f = remaining_share_bounds [OF assms, folded f_def]
  have p: "0 < p" "p \<le> 2 ^ 63" "0 < da_reserve_price cfg" "da_reserve_price cfg < 2 ^ 63"
    using assms(1) by (auto simp: dutch_ok_def p_def)
  have k: "0 \<le> k" "k \<le> 1000000" using concave_factor_bounds [OF f] by (simp_all add: k_def)
  have ff: "0 \<le> f * f" "f * f \<le> 1000000 * 1000000" using mult_abs_bound [of f 1000000 f 1000000] f by auto
  have pk: "0 \<le> p * k" "p * k \<le> 2 ^ 63 * 1000000" using mult_abs_bound [of p "2 ^ 63" k 1000000] p k by auto
  have "p * k \<le> p * 1000000" by (rule mult_left_mono) (use p k in auto)
  then have "p * k div 1000000 \<le> p * 1000000 div 1000000" by (rule zdiv_mono1) simp
  then have q: "0 \<le> p * k div 1000000" "p * k div 1000000 \<le> p" using pk(1) by (simp_all add: pos_imp_zdiv_nonneg_iff)
  have price: "concave_price cfg now = da_reserve_price cfg + p * k div 1000000"
    by (simp add: concave_price_def p_def k_def f_def)
  then show "da_reserve_price cfg \<le> concave_price cfg now" "concave_price cfg now \<le> da_start_price cfg"
    using q by (simp_all add: p_def)
  have in_range: "in_i128 (d - e)" "in_i128 ((d - e) * 1000000)" "in_i128 (2 * f)" "in_i128 (f * f)"
    "in_i128 k" "in_i128 p" "in_i128 (p * k)" "in_i128 (da_reserve_price cfg + p * k div 1000000)"
    using b f ff k p pk q by (auto intro!: in_i128_small)
  have share: "trunc_div ((d - e) * 1000000) d = f"
    using b by (simp add: trunc_div_nonneg f_def remaining_share_def flip: d_def e_def)
  have fac: "2 * f - trunc_div (f * f) 1000000 = k"
    using ff(1) by (simp add: trunc_div_nonneg k_def concave_factor_def)
  have steps: "sub_i128 d e = (Ok (d - e) :: (ticket_error, int) result)"
    "mul_i128 (d - e) 1000000 = (Ok ((d - e) * 1000000) :: (ticket_error, int) result)"
    "mul_i128 2 f = (Ok (2 * f) :: (ticket_error, int) result)"
    "mul_i128 f f = (Ok (f * f) :: (ticket_error, int) result)"
    "sub_i128 (2 * f) (trunc_div (f * f) 1000000) = (Ok k :: (ticket_error, int) result)"
    "sub_i128 (da_start_price cfg) (da_reserve_price cfg) = (Ok p :: (ticket_error, int) result)"
    "mul_i128 p k = (Ok (p * k) :: (ticket_error, int) result)"
    "add_i128 (da_reserve_price cfg) (trunc_div (p * k) 1000000)
       = (Ok (concave_price cfg now) :: (ticket_error, int) result)"
    unfolding sub_i128_def mul_i128_def add_i128_def fac p_def [symmetric] price
    using in_range pk(1) by (simp_all only: if_True trunc_div_nonneg zero_less_numeral)
  show "current_dutch_price_exponential cfg now = Ok (concave_price cfg now)"
    unfolding current_dutch_price_exponential_def Let_def d_def [symmetric] e_def [symmetric]
    using assms(2,3) by (simp only: steps rbind.simps share not_le [symmetric] if_False)
qed

lemma linear_price_mono:
  assumes "dutch_ok cfg" "now \<le> later"
  shows "linear_price cfg later \<le> linear_price cfg now"
proof -
  have "int (now - da_start_time cfg) * (da_start_price cfg - da_reserve_price cfg)
      \<le> int (later - da_start_time cfg) * (da_start_price cfg - da_reserve_price cfg)"
    by (rule mult_right_mono) (use assms in \<open>auto simp: dutch_ok_def\<close>)
  then show ?thesis
    using assms(1) by (auto simp: linear_price_def dutch_ok_def intro: zdiv_mono1)
qed

lemma concave_price_mono:
  assumes "dutch_ok cfg" "da_start_time cfg < now" "now \<le> later" "later < da_end_time cfg"
  shows "concave_price cfg later \<le> concave_price cfg now"
proof -
  have "remaining_share cfg later \<le> remaining_share cfg now"
    unfolding remaining_share_def by (rule zdiv_mono1) (use assms in \<open>auto simp: dutch_ok_def\<close>)
  then have "concave_factor (remaining_share cfg later) \<le> concave_factor (remaining_share cfg now)"
    using remaining_share_bounds [of cfg later] remaining_share_bounds [of cfg now] assms
    by (auto intro: concave_factor_mono)
  then have "(da_start_price cfg - da_reserve_price cfg) * concave_factor (remaining_share cfg later)
      \<le> (da_start_price cfg - da_reserve_price cfg) * concave_factor (remaining_share cfg now)"
    by (rule mult_left_mono) (use assms(1) in \<open>simp add: dutch_ok_def\<close>)
  then show ?thesis by (auto simp: concave_price_def intro: zdiv_mono1)
qed

lemma current_dutch_price_cases:
  assumes "dutch_ok cfg"
  obtains (early) "now \<le> da_start_time cfg" "current_dutch_price cfg now = Ok (da_start_price cfg)"
  | (running) "da_start_time cfg < now" "now < da_end_time cfg"
      "current_dutch_price cfg now = Ok (if da_exponential cfg then concave_price cfg now else linear_price cfg now)"
  | (over) "da_end_time cfg \<le> now" "current_dutch_price cfg now = Ok (da_reserve_price cfg)"
proof -
  consider "now \<le> da_start_time cfg" | "da_start_time cfg < now" "now < da_end_time cfg" | "da_end_time cfg \<le> now"
    by linarith
  then show ?thesis
  proof cases
    case 1
    have "\<not> da_end_time cfg \<le> now" using 1 assms by (auto simp: dutch_ok_def)
    with 1 early show ?thesis
      by (simp add: current_dutch_price_def current_dutch_price_linear_def current_dutch_price_exponential_def)
  next
    case 2
    then show ?thesis
      using running linear_price_computes [OF assms 2] concave_price_computes [OF assms 2]
      by (simp add: current_dutch_price_def)
  next
    case 3
    then show ?thesis
      using over by (simp add: current_dutch_price_def current_dutch_price_linear_def current_dutch_price_exponential_def)
  qed
qed

lemma current_dutch_price_bounds:
  assumes "dutch_ok cfg"
  obtains p where "current_dutch_price cfg now = Ok p" "da_reserve_price cfg \<le> p" "p \<le> da_start_price cfg"
proof -
  have le: "da_reserve_price cfg \<le> da_start_price cfg" using assms by (simp add: dutch_ok_def)
  show ?thesis
    using assms
  proof (cases rule: current_dutch_price_cases [of cfg now])
    case running
    show ?thesis
      by (rule that [OF running(3)])
        (use linear_price_computes(2,3) [OF assms running(1,2)] concave_price_computes(2,3) [OF assms running(1,2)] in auto)
  qed (use le that in auto)
qed

lemma current_dutch_price_antimono:
  assumes "dutch_ok cfg" "now \<le> later" "current_dutch_price cfg now = Ok p" "current_dutch_price cfg later = Ok q"
  shows "q \<le> p"
  using assms(1)
proof (cases rule: current_dutch_price_cases [of cfg now])
  case early
  obtain r where "current_dutch_price cfg later = Ok r" "r \<le> da_start_price cfg"
    by (rule current_dutch_price_bounds [OF assms(1)])
  then show ?thesis using early(2) assms(3,4) by simp
next
  case now: running
  show ?thesis
    using assms(1)
  proof (cases rule: current_dutch_price_cases [of cfg later])
    case later: running
    have "linear_price cfg later \<le> linear_price cfg now" by (rule linear_price_mono [OF assms(1,2)])
    moreover have "concave_price cfg later \<le> concave_price cfg now"
      by (rule concave_price_mono [OF assms(1) now(1) assms(2) later(2)])
    ultimately show ?thesis using now(3) later(3) assms(3,4) by (auto split: if_splits)
  next
    case over
    obtain r where "current_dutch_price cfg now = Ok r" "da_reserve_price cfg \<le> r"
      by (rule current_dutch_price_bounds [OF assms(1)])
    then show ?thesis using over(2) assms(3,4) by simp
  qed (use now assms(2) in simp)
next
  case over
  then have "current_dutch_price cfg later = Ok (da_reserve_price cfg)"
    using assms(2)
    by (simp add: current_dutch_price_def current_dutch_price_linear_def current_dutch_price_exponential_def)
  then show ?thesis using over(2) assms(3,4) by simp
qed

text \<open>C38: the price of a valid Dutch auction, with either decay, can always be computed while the start price
  fits 63 bits; it starts at the start price, ends at the reserve price, stays between the two, and never
  rises.\<close>

theorem dutch_price_falls:
  assumes "validate_dutch_auction_config env cfg = Ok ()" "da_start_price cfg < 2 ^ 63" "da_end_time cfg < 2 ^ 64"
  shows "\<exists>p. current_dutch_price cfg now = Ok p \<and> da_reserve_price cfg \<le> p \<and> p \<le> da_start_price cfg
    \<and> (now \<le> da_start_time cfg \<longrightarrow> p = da_start_price cfg)
    \<and> (da_end_time cfg \<le> now \<longrightarrow> p = da_reserve_price cfg)
    \<and> (\<forall>later\<ge>now. \<exists>q. current_dutch_price cfg later = Ok q \<and> q \<le> p)"
proof -
  have ok: "dutch_ok cfg" using assms by (auto simp: dutch_ok_def)
  obtain p where p: "current_dutch_price cfg now = Ok p" "da_reserve_price cfg \<le> p" "p \<le> da_start_price cfg"
    by (rule current_dutch_price_bounds [OF ok])
  have "(now \<le> da_start_time cfg \<longrightarrow> p = da_start_price cfg) \<and> (da_end_time cfg \<le> now \<longrightarrow> p = da_reserve_price cfg)"
    using ok p(1) assms(1) by (cases rule: current_dutch_price_cases [of cfg now]) auto
  moreover have "\<exists>q. current_dutch_price cfg later = Ok q \<and> q \<le> p" if "now \<le> later" for later
  proof -
    obtain q where "current_dutch_price cfg later = Ok q" by (rule current_dutch_price_bounds [OF ok])
    then show ?thesis using current_dutch_price_antimono [OF ok that p(1)] by blast
  qed
  ultimately show ?thesis using p by blast
qed

definition demo_dutch :: dutch_auction_config where
  "demo_dutch = \<lparr>da_start_price = 1000, da_reserve_price = 200, da_start_time = 100, da_end_time = 500,
     da_exponential = True\<rparr>"

lemmas dutch_eval = demo_dutch_def current_dutch_price_def current_dutch_price_exponential_def
  current_dutch_price_linear_def mul_i128_def add_i128_def sub_i128_def in_i128_def i128_min_def i128_max_def
  trunc_div_def

theorem dutch_price_falls_witness:
  "current_dutch_price demo_dutch 300 = Ok 800
   \<and> (\<exists>q. current_dutch_price demo_dutch 400 = Ok q \<and> q \<le> 800)"
proof -
  have "validate_dutch_auction_config (at_time 50) demo_dutch = Ok ()" by (simp add: demo_dutch_def at_time_def)
  moreover have "current_dutch_price demo_dutch 300 = Ok 800" by (simp add: dutch_eval)
  ultimately show ?thesis
    using dutch_price_falls [of "at_time 50" demo_dutch 300] by (simp add: demo_dutch_def)
qed


section \<open>A commit binds and can be revealed\<close>

lemma length_i128_to_le_bytes [simp]: "length (i128_to_le_bytes v) = 16"
  by (simp add: i128_to_le_bytes_def)










end
