(* ===== verification/Ticket_Config.thy ===== *)
theory Ticket_Config
  imports Ticket_Types
begin

text \<open>
  The environment and the configuration of the ticket payment contract, its governors and their
  proposals, and the administrative entry points (\<open>src/contract/contracts/ticket_payment/src/contract.rs\<close>
  and the accessors of \<open>storage.rs\<close>).

  The contracts that this one calls are parameters.  Within an invocation the code reads the registry,
  the price oracle and the subscription contract before it writes to them, so the environment holds what
  the calls return as functions; the calls that change another contract are recorded in order, and the
  environment says which of them succeed.  The calls have the arguments that \<open>interfaces.rs\<close> declares for them; the
  registry of this repository declares \<open>decrement_inventory\<close> without its third argument, so \<open>registry_accepts\<close>
  stands for a registry that matches the interface.  A call that is not made with its \<open>try_\<close> form aborts the
  invocation when it fails.
\<close>

section \<open>Environment\<close>

datatype ticket_registry_call =
  IncrementInventory string string address nat address
| DecrementInventory string string address
| UpdateLoyaltyScore address address nat int nat

record ticket_env = env +
  token_accepts_from :: "transfer list \<Rightarrow> transfer \<Rightarrow> bool"
  token_balance :: "transfer list \<Rightarrow> address \<Rightarrow> address \<Rightarrow> int"
  token_allowance :: "transfer list \<Rightarrow> address \<Rightarrow> address \<Rightarrow> address \<Rightarrow> int"
  crypto_sha256 :: "string \<Rightarrow> string"
  registry_event :: "address \<Rightarrow> string \<Rightarrow> ticket_event_info option"
  registry_dispute :: "address \<Rightarrow> string \<Rightarrow> ticket_dispute_status option"
  registry_scanner :: "address \<Rightarrow> string \<Rightarrow> address \<Rightarrow> bool option"
  registry_promo_bps :: "address \<Rightarrow> nat option"
  registry_promo_expiry :: "address \<Rightarrow> nat option"
  registry_loyalty_bps :: "address \<Rightarrow> address \<Rightarrow> nat option"
  registry_accepts :: "ticket_registry_call list \<Rightarrow> ticket_registry_call \<Rightarrow> bool"
  pro_member :: "address \<Rightarrow> address \<Rightarrow> bool option"
  oracle_lastprice :: "address \<Rightarrow> address \<Rightarrow> price_data option option"

text \<open>The answer of a call that must succeed.\<close>

definition call :: "'a option \<Rightarrow> ('e, 'a) result" where
  "call x = (case x of Some v \<Rightarrow> Ok v | None \<Rightarrow> Trap CallTrap)"

lemma call_eq_Ok [simp, result_simps]: "call x = Ok v \<longleftrightarrow> x = Some v"
  by (cases x) (auto simp: call_def)

lemma call_Some [simp]: "call (Some v) = Ok v"
  by (simp add: call_def)


section \<open>Configuration\<close>

record ticket_config =
  tk_admin :: "address option"
  tk_usdc_token :: "address option"
  tk_platform_wallet :: "address option"
  tk_event_registry :: "address option"
  tk_pro_subscription :: "address option"
  tk_initialized :: bool
  tk_paused :: bool
  tk_whitelist :: "address set"
  tk_oracle :: "address option"
  tk_slippage_bps :: nat
  tk_transfer_fee :: "string \<rightharpoonup> nat"
  tk_withdrawal_cap :: "address \<Rightarrow> int"
  tk_governors :: "address set"
  tk_total_governors :: nat
  tk_proposals :: "nat \<rightharpoonup> parameter_proposal"
  tk_proposal_count :: nat
  tk_transfers :: "transfer list"
  tk_calls :: "ticket_registry_call list"
  tk_published :: "ticket_event list"

definition tpublish :: "ticket_event \<Rightarrow> 'a ticket_config_scheme \<Rightarrow> 'a ticket_config_scheme" where
  "tpublish e s = s\<lparr>tk_published := tk_published s @ [e]\<rparr>"

definition ticket_require_admin ::
    "'e env_scheme \<Rightarrow> 'a ticket_config_scheme \<Rightarrow> (ticket_error, address) result" where
  "ticket_require_admin env s =
     rbind (ok_or (tk_admin s) NotInitialized) (\<lambda>admin.
     if authorised env admin then Ok admin else Trap AuthTrap)"

definition transfer_tokens ::
    "'e env_scheme \<Rightarrow> address \<Rightarrow> address \<Rightarrow> address \<Rightarrow> int \<Rightarrow> 'a ticket_config_scheme
     \<Rightarrow> (ticket_error, 'a ticket_config_scheme) result" where
  "transfer_tokens env token from to amount s =
     (let t = \<lparr>tr_token = token, tr_from = from, tr_to = to, tr_amount = amount\<rparr> in
      if token_accepts env (tk_transfers s) t then Ok (s\<lparr>tk_transfers := tk_transfers s @ [t]\<rparr>)
      else Trap CallTrap)"

definition transfer_tokens_from ::
    "ticket_env \<Rightarrow> address \<Rightarrow> address \<Rightarrow> address \<Rightarrow> int \<Rightarrow> 'a ticket_config_scheme
     \<Rightarrow> (ticket_error, 'a ticket_config_scheme) result" where
  "transfer_tokens_from env token from to amount s =
     (let t = \<lparr>tr_token = token, tr_from = from, tr_to = to, tr_amount = amount\<rparr> in
      if token_accepts_from env (tk_transfers s) t then Ok (s\<lparr>tk_transfers := tk_transfers s @ [t]\<rparr>)
      else Trap CallTrap)"

definition call_registry ::
    "ticket_env \<Rightarrow> ticket_registry_call \<Rightarrow> 'a ticket_config_scheme \<Rightarrow> (ticket_error, 'a ticket_config_scheme) result" where
  "call_registry env c s =
     (if registry_accepts env (tk_calls s) c then Ok (s\<lparr>tk_calls := tk_calls s @ [c]\<rparr>) else Trap CallTrap)"

text \<open>The event and the dispute as \<open>try_get_event\<close> and \<open>try_get_dispute\<close> return them.\<close>

definition lookup_event ::
    "ticket_env \<Rightarrow> string \<Rightarrow> 'a ticket_config_scheme \<Rightarrow> (ticket_error, ticket_event_info) result" where
  "lookup_event env event_id s =
     rbind (unwrap (tk_event_registry s)) (\<lambda>registry.
     ok_or (registry_event env registry event_id) EventNotFound)"

definition is_event_disputed ::
    "ticket_env \<Rightarrow> string \<Rightarrow> 'a ticket_config_scheme \<Rightarrow> (ticket_error, bool) result" where
  "is_event_disputed env event_id s =
     rbind (unwrap (tk_event_registry s)) (\<lambda>registry.
     Ok (case registry_dispute env registry event_id of
           Some status \<Rightarrow> status = Open \<or> status = Voting
         | None \<Rightarrow> False))"

definition zero_address :: address where
  "zero_address = ''GAAAAAAAAAAAAAAAAAAAAAAAAAAAAAAAAAAAAAAAAAAAAAAAAAAAJXFF''"

definition ticket_validate_address :: "'e env_scheme \<Rightarrow> address \<Rightarrow> (ticket_error, unit) result" where
  "ticket_validate_address env address =
     (if address = current_contract env \<or> address = zero_address then Err InvalidAddress else Ok ())"

definition validate_recipient :: "'e env_scheme \<Rightarrow> address \<Rightarrow> (ticket_error, unit) result" where
  "validate_recipient env address =
     (if address = current_contract env \<or> address = zero_address then Err InvalidAddress else Ok ())"

definition event_accepts_token :: "ticket_event_info \<Rightarrow> address \<Rightarrow> 'a ticket_config_scheme \<Rightarrow> bool" where
  "event_accepts_token event_info token_address s =
     (if ei_use_global_whitelist event_info \<or> ei_accepted_tokens event_info = []
      then token_address \<in> tk_whitelist s
      else token_address \<in> set (ei_accepted_tokens event_info))"

definition MAX_ORACLE_PRICE_AGE_SECS :: nat where "MAX_ORACLE_PRICE_AGE_SECS = 3600"

definition fetch_fresh_asset_price ::
    "ticket_env \<Rightarrow> address \<Rightarrow> 'a ticket_config_scheme \<Rightarrow> (ticket_error, price_data) result" where
  "fetch_fresh_asset_price env asset s =
     rbind (ok_or (tk_oracle s) OracleNotConfigured) (\<lambda>oracle_addr.
     rbind (call (oracle_lastprice env oracle_addr asset)) (\<lambda>answer.
     rbind (ok_or answer OraclePriceUnavailable) (\<lambda>price_data.
     if timestamp env - pd_timestamp price_data > MAX_ORACLE_PRICE_AGE_SECS then Err OraclePriceStale
     else Ok price_data)))"

definition ticket_set_slippage_bps ::
    "nat \<Rightarrow> 'a ticket_config_scheme \<Rightarrow> (ticket_error, 'a ticket_config_scheme) result" where
  "ticket_set_slippage_bps bps s =
     (if bps > 5000 then Err InvalidSlippageBps else Ok (s\<lparr>tk_slippage_bps := bps\<rparr>))"


section \<open>Administration\<close>

definition ticket_initialize ::
    "ticket_env \<Rightarrow> address \<Rightarrow> address \<Rightarrow> address \<Rightarrow> address \<Rightarrow> 'a ticket_config_scheme
     \<Rightarrow> (ticket_error, 'a ticket_config_scheme) result" where
  "ticket_initialize env admin usdc_token platform_wallet event_registry s =
     (if tk_initialized s then Err AlreadyInitialized
      else
        rbind (ticket_validate_address env admin) (\<lambda>_.
        rbind (ticket_validate_address env usdc_token) (\<lambda>_.
        rbind (ticket_validate_address env platform_wallet) (\<lambda>_.
        rbind (ticket_validate_address env event_registry) (\<lambda>_.
        Ok (tpublish (Initialization_event usdc_token platform_wallet event_registry)
             (s\<lparr>tk_admin := Some admin, tk_governors := insert admin (tk_governors s), tk_total_governors := 1,
                tk_usdc_token := Some usdc_token, tk_platform_wallet := Some platform_wallet,
                tk_event_registry := Some event_registry, tk_initialized := True,
                tk_whitelist := insert usdc_token (tk_whitelist s)\<rparr>)))))))"

definition set_pause ::
    "ticket_env \<Rightarrow> bool \<Rightarrow> 'a ticket_config_scheme \<Rightarrow> (ticket_error, 'a ticket_config_scheme) result" where
  "set_pause env paused s =
     rbind (ticket_require_admin env s) (\<lambda>_.
     Ok (tpublish (ContractPaused_event paused (timestamp env)) (s\<lparr>tk_paused := paused\<rparr>)))"

definition set_event_dispute ::
    "ticket_env \<Rightarrow> string \<Rightarrow> bool \<Rightarrow> 'a ticket_config_scheme \<Rightarrow> (ticket_error, 'a ticket_config_scheme) result" where
  "set_event_dispute env event_id disputed s =
     rbind (ticket_require_admin env s) (\<lambda>_.
     Ok (tpublish (DisputeStatusChanged_event event_id disputed (timestamp env)) s))"

definition set_oracle ::
    "ticket_env \<Rightarrow> address \<Rightarrow> 'a ticket_config_scheme \<Rightarrow> (ticket_error, 'a ticket_config_scheme) result" where
  "set_oracle env oracle_address s =
     rbind (ticket_require_admin env s) (\<lambda>_. Ok (s\<lparr>tk_oracle := Some oracle_address\<rparr>))"

definition set_withdrawal_cap ::
    "ticket_env \<Rightarrow> address \<Rightarrow> int \<Rightarrow> 'a ticket_config_scheme \<Rightarrow> (ticket_error, 'a ticket_config_scheme) result" where
  "set_withdrawal_cap env token amount s =
     rbind (ticket_require_admin env s) (\<lambda>_.
     if amount < 0 then Err ArithmeticError
     else Ok (s\<lparr>tk_withdrawal_cap := (tk_withdrawal_cap s)(token := amount)\<rparr>))"

definition set_transfer_fee ::
    "ticket_env \<Rightarrow> string \<Rightarrow> nat \<Rightarrow> 'a ticket_config_scheme \<Rightarrow> (ticket_error, 'a ticket_config_scheme) result" where
  "set_transfer_fee env event_id bps s =
     (if \<not> tk_initialized s then Trap PanicTrap
      else
        rbind (lookup_event env event_id s) (\<lambda>event_info.
        rbind (require_auth env (ei_organizer event_info)) (\<lambda>_.
        if bps > MAX_BPS then Err InvalidFeePercent
        else Ok (s\<lparr>tk_transfer_fee := (tk_transfer_fee s)(event_id \<mapsto> bps)\<rparr>))))"


text \<open>
  The code swap of an upgrade is the host's and takes effect after the invocation; the first argument is
  the hash of the running code, if it is such code.  The invocation publishes the swap and each of the four
  addresses that is not configured.
\<close>

definition missing_keys :: "'a ticket_config_scheme \<Rightarrow> string list" where
  "missing_keys s =
     (if tk_admin s = None then [''Admin''] else []) @ (if tk_usdc_token s = None then [''UsdcToken''] else [])
     @ (if tk_platform_wallet s = None then [''PlatformWallet''] else [])
     @ (if tk_event_registry s = None then [''EventRegistry''] else [])"

definition ticket_upgrade ::
    "ticket_env \<Rightarrow> string option \<Rightarrow> string \<Rightarrow> 'a ticket_config_scheme \<Rightarrow> (ticket_error, 'a ticket_config_scheme) result" where
  "ticket_upgrade env running new_wasm_hash s =
     rbind (unwrap_result (ticket_require_admin env s)) (\<lambda>_.
     rbind (unwrap running) (\<lambda>old_wasm_hash.
     Ok (fold (\<lambda>key. tpublish (ContractVerificationFailed_event key (timestamp env))) (missing_keys s)
           (tpublish (ContractCodeReplaced_event old_wasm_hash new_wasm_hash) s))))"


section \<open>Governance\<close>

definition ticket_store_proposal :: "parameter_proposal \<Rightarrow> 'a ticket_config_scheme \<Rightarrow> 'a ticket_config_scheme" where
  "ticket_store_proposal proposal s = s\<lparr>tk_proposals := (tk_proposals s)(tprop_id proposal \<mapsto> proposal)\<rparr>"

definition increment_proposal_count ::
    "'a ticket_config_scheme \<Rightarrow> (ticket_error, 'a ticket_config_scheme \<times> nat) result" where
  "increment_proposal_count s =
     rbind (add_u 64 (tk_proposal_count s) 1) (\<lambda>count. Ok (s\<lparr>tk_proposal_count := count\<rparr>, count))"

definition ticket_propose_parameter_change ::
    "ticket_env \<Rightarrow> address \<Rightarrow> ticket_parameter_change \<Rightarrow> 'a ticket_config_scheme
     \<Rightarrow> (ticket_error, 'a ticket_config_scheme \<times> nat) result" where
  "ticket_propose_parameter_change env proposer change s =
     rbind (require_auth env proposer) (\<lambda>_.
     if proposer \<notin> tk_governors s then Err NotGovernor
     else
       rbind (increment_proposal_count s) (\<lambda>(s1, proposal_id).
       rbind (add_u 64 (timestamp env) 604800) (\<lambda>expires_at.
       Ok (tpublish (ProposalCreated_event proposal_id proposer change (timestamp env))
            (ticket_store_proposal
               \<lparr>tprop_id = proposal_id, tprop_proposer = proposer, tprop_change = change,
                 tprop_status = Prop_Pending, tprop_created_at = timestamp env,
                 tprop_expires_at = expires_at, tprop_vote_count = 1, tprop_voters = [proposer]\<rparr> s1),
           proposal_id))))"

definition vote_on_proposal ::
    "ticket_env \<Rightarrow> address \<Rightarrow> nat \<Rightarrow> 'a ticket_config_scheme \<Rightarrow> (ticket_error, 'a ticket_config_scheme) result" where
  "vote_on_proposal env voter proposal_id s =
     rbind (require_auth env voter) (\<lambda>_.
     if voter \<notin> tk_governors s then Err NotGovernor
     else
       rbind (ok_or (tk_proposals s proposal_id) InvalidProposal) (\<lambda>proposal.
       if timestamp env > tprop_expires_at proposal then Err ProposalExpired
       else if tprop_status proposal \<noteq> Prop_Pending then Err ProposalNotActive
       else if voter \<in> set (tprop_voters proposal) then Err AlreadyVoted
       else
         rbind (add_u 32 (tprop_vote_count proposal) 1) (\<lambda>count.
         Ok (tpublish (ProposalVoted_event proposal_id voter (timestamp env))
              (ticket_store_proposal (proposal\<lparr>tprop_voters := tprop_voters proposal @ [voter],
                                 tprop_vote_count := count\<rparr>) s)))))"

definition apply_parameter_change ::
    "nat \<Rightarrow> ticket_parameter_change \<Rightarrow> 'a ticket_config_scheme \<Rightarrow> (ticket_error, 'a ticket_config_scheme) result" where
  "apply_parameter_change total_governors change s =
     (case change of
        AddGovernor new_governor \<Rightarrow>
          if new_governor \<notin> tk_governors s
          then rbind (add_u 32 total_governors 1) (\<lambda>n.
               Ok (s\<lparr>tk_governors := insert new_governor (tk_governors s), tk_total_governors := n\<rparr>))
          else Ok s
      | RemoveGovernor old_governor \<Rightarrow>
          if total_governors \<le> 1 then Err CannotRemoveLastGovernor
          else if old_governor \<in> tk_governors s
          then Ok (s\<lparr>tk_governors := tk_governors s - {old_governor}, tk_total_governors := total_governors - 1\<rparr>)
          else Ok s
      | AddTokenToWhitelist token \<Rightarrow> Ok (s\<lparr>tk_whitelist := insert token (tk_whitelist s)\<rparr>)
      | RemoveTokenFromWhitelist token \<Rightarrow> Ok (s\<lparr>tk_whitelist := tk_whitelist s - {token}\<rparr>)
      | UpdateWithdrawalCap token cap \<Rightarrow> Ok (s\<lparr>tk_withdrawal_cap := (tk_withdrawal_cap s)(token := cap)\<rparr>)
      | UpdateSlippage bps \<Rightarrow> ticket_set_slippage_bps bps s
      | UpdateTransferFee event_id fee \<Rightarrow> Ok (s\<lparr>tk_transfer_fee := (tk_transfer_fee s)(event_id \<mapsto> fee)\<rparr>)
      | EscrowWithdrawal _ _ \<Rightarrow> Err InvalidPaymentStatus)"

definition ticket_execute_proposal ::
    "ticket_env \<Rightarrow> address \<Rightarrow> nat \<Rightarrow> 'a ticket_config_scheme \<Rightarrow> (ticket_error, 'a ticket_config_scheme) result" where
  "ticket_execute_proposal env executor proposal_id s =
     rbind (require_auth env executor) (\<lambda>_.
     rbind (ok_or (tk_proposals s proposal_id) InvalidProposal) (\<lambda>proposal.
     if timestamp env > tprop_expires_at proposal then Err ProposalExpired
     else if tprop_status proposal \<noteq> Prop_Pending then Err ProposalNotActive
     else
       rbind (add_u 64 (tprop_created_at proposal) 172800) (\<lambda>unlocked_at.
       if timestamp env < unlocked_at then Err VotingPeriodNotMet
       else
         let total_governors = tk_total_governors s in
         rbind (add_u 32 (total_governors div 2) 1) (\<lambda>threshold.
         if tprop_vote_count proposal < threshold then Err InsufficientVotes
         else
           rbind (apply_parameter_change total_governors (tprop_change proposal) s) (\<lambda>s1.
           Ok (tpublish (GovernanceActionExecuted_event proposal_id (tprop_change proposal) (timestamp env))
                (ticket_store_proposal (proposal\<lparr>tprop_status := Prop_Executed\<rparr>) s1)))))))"

definition propose_escrow_withdrawal ::
    "ticket_env \<Rightarrow> string \<Rightarrow> int \<Rightarrow> 'a ticket_config_scheme
     \<Rightarrow> (ticket_error, 'a ticket_config_scheme \<times> nat) result" where
  "propose_escrow_withdrawal env event_id amount s =
     (if \<not> tk_initialized s then Trap PanicTrap
      else
        rbind (lookup_event env event_id s) (\<lambda>event_info.
        rbind (require_auth env (ei_organizer event_info)) (\<lambda>_.
        if amount \<le> 0 then Err ArithmeticError
        else
          rbind (increment_proposal_count s) (\<lambda>(s1, proposal_id).
          rbind (add_u 64 (timestamp env) 604800) (\<lambda>expires_at.
          Ok (tpublish (EscrowWithdrawalProposed_event proposal_id event_id amount (ei_organizer event_info)
                 (timestamp env))
               (ticket_store_proposal
                  \<lparr>tprop_id = proposal_id, tprop_proposer = ei_organizer event_info,
                    tprop_change = EscrowWithdrawal event_id amount, tprop_status = Prop_Pending,
                    tprop_created_at = timestamp env, tprop_expires_at = expires_at,
                    tprop_vote_count = 1, tprop_voters = [ei_organizer event_info]\<rparr> s1),
              proposal_id))))))"

definition approve_escrow_withdrawal ::
    "ticket_env \<Rightarrow> nat \<Rightarrow> 'a ticket_config_scheme \<Rightarrow> (ticket_error, 'a ticket_config_scheme) result" where
  "approve_escrow_withdrawal env proposal_id s =
     rbind (ticket_require_admin env s) (\<lambda>admin.
     rbind (ok_or (tk_proposals s proposal_id) InvalidProposal) (\<lambda>proposal.
     if tprop_status proposal \<noteq> Prop_Pending then Err ProposalNotActive
     else if timestamp env > tprop_expires_at proposal then Err ProposalExpired
     else if admin \<in> set (tprop_voters proposal) then Ok s
     else
       rbind (add_u 32 (tprop_vote_count proposal) 1) (\<lambda>count.
       Ok (tpublish (EscrowWithdrawalApproved_event proposal_id admin (timestamp env))
            (ticket_store_proposal (proposal\<lparr>tprop_voters := tprop_voters proposal @ [admin],
                               tprop_vote_count := count\<rparr>) s)))))"

definition execute_escrow_withdrawal ::
    "ticket_env \<Rightarrow> nat \<Rightarrow> 'a ticket_config_scheme \<Rightarrow> (ticket_error, 'a ticket_config_scheme) result" where
  "execute_escrow_withdrawal env proposal_id s =
     rbind (ticket_require_admin env s) (\<lambda>executor.
     rbind (ok_or (tk_proposals s proposal_id) InvalidProposal) (\<lambda>proposal.
     if tprop_status proposal \<noteq> Prop_Pending then Err ProposalNotActive
     else if timestamp env > tprop_expires_at proposal then Err ProposalExpired
     else if tprop_vote_count proposal < 2 then Err InsufficientVotes
     else Ok (tpublish (EscrowWithdrawalExecuted_event proposal_id [] 0 executor (timestamp env))
            (ticket_store_proposal (proposal\<lparr>tprop_status := Prop_Executed\<rparr>) s))))"

section \<open>Successful calls\<close>

lemma transfer_tokens_eq_Ok [simp, result_simps]:
  "transfer_tokens env tok a b n s = Ok s' \<longleftrightarrow>
     token_accepts env (tk_transfers s) \<lparr>tr_token = tok, tr_from = a, tr_to = b, tr_amount = n\<rparr>
     \<and> s' = s\<lparr>tk_transfers := tk_transfers s @ [\<lparr>tr_token = tok, tr_from = a, tr_to = b, tr_amount = n\<rparr>]\<rparr>"
  by (auto simp: transfer_tokens_def Let_def)

lemma transfer_tokens_from_eq_Ok [simp, result_simps]:
  "transfer_tokens_from env tok a b n s = Ok s' \<longleftrightarrow>
     token_accepts_from env (tk_transfers s) \<lparr>tr_token = tok, tr_from = a, tr_to = b, tr_amount = n\<rparr>
     \<and> s' = s\<lparr>tk_transfers := tk_transfers s @ [\<lparr>tr_token = tok, tr_from = a, tr_to = b, tr_amount = n\<rparr>]\<rparr>"
  by (auto simp: transfer_tokens_from_def Let_def)

lemma call_registry_eq_Ok [simp, result_simps]:
  "call_registry env c s = Ok s' \<longleftrightarrow> registry_accepts env (tk_calls s) c \<and> s' = s\<lparr>tk_calls := tk_calls s @ [c]\<rparr>"
  by (auto simp: call_registry_def)

lemma ticket_require_admin_eq_Ok [simp, result_simps]:
  "ticket_require_admin env s = Ok a \<longleftrightarrow> tk_admin s = Some a \<and> authorised env a"
  by (auto simp: ticket_require_admin_def)

lemma lookup_event_eq_Ok [simp, result_simps]:
  "lookup_event env e s = Ok info \<longleftrightarrow> (\<exists>r. tk_event_registry s = Some r \<and> registry_event env r e = Some info)"
  by (auto simp: lookup_event_def)

lemma ticket_validate_address_eq_Ok [simp, result_simps]:
  "ticket_validate_address env a = Ok u \<longleftrightarrow> a \<noteq> current_contract env \<and> a \<noteq> zero_address"
  by (auto simp: ticket_validate_address_def)

lemma validate_recipient_eq_Ok [simp, result_simps]:
  "validate_recipient env a = Ok u \<longleftrightarrow> a \<noteq> current_contract env \<and> a \<noteq> zero_address"
  by (auto simp: validate_recipient_def)

lemma increment_proposal_count_eq_Ok [simp, result_simps]:
  "increment_proposal_count s = Ok (s', n) \<longleftrightarrow>
     n = tk_proposal_count s + 1 \<and> n < 2 ^ 64 \<and> s' = s\<lparr>tk_proposal_count := n\<rparr>"
  by (auto simp: increment_proposal_count_def)

lemma tpublish_fields [simp]:
  "tk_admin (tpublish e s) = tk_admin s" "tk_event_registry (tpublish e s) = tk_event_registry s"
  "tk_initialized (tpublish e s) = tk_initialized s" "tk_paused (tpublish e s) = tk_paused s"
  "tk_whitelist (tpublish e s) = tk_whitelist s" "tk_governors (tpublish e s) = tk_governors s"
  "tk_total_governors (tpublish e s) = tk_total_governors s" "tk_proposals (tpublish e s) = tk_proposals s"
  "tk_proposal_count (tpublish e s) = tk_proposal_count s" "tk_pro_subscription (tpublish e s) = tk_pro_subscription s"
  "tk_transfers (tpublish e s) = tk_transfers s" "tk_calls (tpublish e s) = tk_calls s"
  "ticket_config.more (tpublish e s) = ticket_config.more s"
  by (simp_all add: tpublish_def)


section \<open>Governors and votes\<close>

text \<open>
  The counter of governors is the number of governors, an initialized contract has one, and a proposal's
  count is the number of its distinct voters.
\<close>

definition ticket_proposals_ok :: "(nat \<rightharpoonup> parameter_proposal) \<Rightarrow> nat \<Rightarrow> bool" where
  "ticket_proposals_ok ps n \<longleftrightarrow> (\<forall>i p. ps i = Some p \<longrightarrow> tprop_id p = i \<and> i \<le> n \<and> distinct (tprop_voters p)
     \<and> tprop_vote_count p = length (tprop_voters p))"

definition governors_inv :: "'a ticket_config_scheme \<Rightarrow> bool" where
  "governors_inv s \<longleftrightarrow> finite (tk_governors s) \<and> tk_total_governors s = card (tk_governors s)
     \<and> (tk_initialized s \<longleftrightarrow> tk_governors s \<noteq> {}) \<and> (tk_initialized s \<longleftrightarrow> tk_admin s \<noteq> None)
     \<and> tk_pro_subscription s = None \<and> (tk_initialized s \<or> tk_proposals s = Map.empty)
     \<and> ticket_proposals_ok (tk_proposals s) (tk_proposal_count s)"

text \<open>Operations that leave the governors alone.\<close>

definition same_governors :: "'a ticket_config_scheme \<Rightarrow> 'a ticket_config_scheme \<Rightarrow> bool" where
  "same_governors s t \<longleftrightarrow> tk_governors t = tk_governors s \<and> tk_total_governors t = tk_total_governors s
     \<and> tk_initialized t = tk_initialized s \<and> tk_admin t = tk_admin s
     \<and> tk_pro_subscription t = tk_pro_subscription s \<and> tk_proposals t = tk_proposals s
     \<and> tk_proposal_count t = tk_proposal_count s"

lemma same_governors_inv: "same_governors s t \<Longrightarrow> governors_inv s \<Longrightarrow> governors_inv t"
  by (auto simp: same_governors_def governors_inv_def)

lemma same_governors_refl [simp]: "same_governors s s"
  by (simp add: same_governors_def)

lemma same_governors_trans: "same_governors s t \<Longrightarrow> same_governors t u \<Longrightarrow> same_governors s u"
  by (simp add: same_governors_def)

lemma governors_inv_store:
  assumes "governors_inv s" "tk_proposals s i = Some p" "tprop_id q = i" "distinct (tprop_voters q)"
    "tprop_vote_count q = length (tprop_voters q)"
  shows "governors_inv (ticket_store_proposal q s)"
  using assms by (auto simp: governors_inv_def ticket_proposals_ok_def ticket_store_proposal_def)

lemma governors_inv_tpublish [simp]: "governors_inv (tpublish e s) \<longleftrightarrow> governors_inv s"
  by (simp add: governors_inv_def)

lemma ticket_proposals_ok_new:
  "ticket_proposals_ok ps n \<Longrightarrow> tprop_id q = n + 1 \<Longrightarrow> distinct (tprop_voters q) \<Longrightarrow>
   tprop_vote_count q = length (tprop_voters q) \<Longrightarrow> ticket_proposals_ok (ps(n + 1 \<mapsto> q)) (n + 1)"
  by (fastforce simp: ticket_proposals_ok_def)

lemma governors_inv_initialize:
  assumes "ticket_initialize env a u w r s = Ok s'" "governors_inv s"
  shows "governors_inv s'"
  using assms by (auto simp: ticket_initialize_def governors_inv_def split: if_splits)

lemma governors_inv_propose:
  assumes "ticket_propose_parameter_change env a c s = Ok (s', n)" "governors_inv s"
  shows "governors_inv s'"
  using assms ticket_proposals_ok_new [of "tk_proposals s" "tk_proposal_count s"]
  by (auto simp: ticket_propose_parameter_change_def governors_inv_def ticket_store_proposal_def split: if_splits)

lemma governors_inv_propose_withdrawal:
  assumes "propose_escrow_withdrawal env e m s = Ok (s', n)" "governors_inv s"
  shows "governors_inv s'"
  using assms ticket_proposals_ok_new [of "tk_proposals s" "tk_proposal_count s"]
  by (auto simp: propose_escrow_withdrawal_def governors_inv_def ticket_store_proposal_def split: if_splits)

lemma governors_inv_proposalD:
  "governors_inv s \<Longrightarrow> tk_proposals s i = Some p \<Longrightarrow>
   tprop_id p = i \<and> distinct (tprop_voters p) \<and> tprop_vote_count p = length (tprop_voters p)"
  by (simp add: governors_inv_def ticket_proposals_ok_def)

lemma governors_inv_vote:
  assumes "vote_on_proposal env a i s = Ok s'" "governors_inv s"
  shows "governors_inv s'"
  using assms governors_inv_proposalD [OF assms(2)]
  by (auto simp: vote_on_proposal_def split: if_splits intro!: governors_inv_store)

lemma governors_inv_approve:
  assumes "approve_escrow_withdrawal env i s = Ok s'" "governors_inv s"
  shows "governors_inv s'"
  using assms governors_inv_proposalD [OF assms(2)]
  by (auto simp: approve_escrow_withdrawal_def split: if_splits intro!: governors_inv_store)

lemma governors_inv_execute_withdrawal:
  assumes "execute_escrow_withdrawal env i s = Ok s'" "governors_inv s"
  shows "governors_inv s'"
  using assms governors_inv_proposalD [OF assms(2)]
  by (auto simp: execute_escrow_withdrawal_def split: if_splits intro!: governors_inv_store)

lemma apply_parameter_change_governors:
  assumes "apply_parameter_change (tk_total_governors s) c s = Ok s'" "governors_inv s" "tk_initialized s"
  shows "governors_inv s' \<and> tk_proposals s' = tk_proposals s"
proof (cases c)
  case (RemoveGovernor g)
  have "1 < card (tk_governors s)" using assms RemoveGovernor
    by (auto simp: apply_parameter_change_def governors_inv_def split: if_splits)
  then have "tk_governors s - {g} \<noteq> {}"
    by (metis Diff_eq_empty_iff card_mono finite.emptyI finite.insertI is_singleton_altdef is_singletonI not_le)
  then show ?thesis using assms RemoveGovernor
    by (auto simp: apply_parameter_change_def governors_inv_def split: if_splits)
qed (use assms in \<open>auto simp: apply_parameter_change_def governors_inv_def ticket_set_slippage_bps_def split: if_splits\<close>)

lemma governors_inv_execute:
  assumes "ticket_execute_proposal env a i s = Ok s'" "governors_inv s"
  shows "governors_inv s'"
proof -
  obtain p s1 where p: "tk_proposals s i = Some p" "apply_parameter_change (tk_total_governors s) (tprop_change p) s = Ok s1"
    and s': "s' = tpublish (GovernanceActionExecuted_event i (tprop_change p) (timestamp env))
      (ticket_store_proposal (p\<lparr>tprop_status := Prop_Executed\<rparr>) s1)"
    using assms(1) by (auto simp: ticket_execute_proposal_def Let_def split: if_splits)
  have "tk_initialized s" using p(1) assms(2) by (auto simp: governors_inv_def)
  then have "governors_inv s1" "tk_proposals s1 = tk_proposals s"
    using apply_parameter_change_governors [OF p(2) assms(2)] by auto
  then show ?thesis
    using governors_inv_proposalD [OF assms(2) p(1)] p(1) by (auto simp: s' intro!: governors_inv_store)
qed

lemma fold_tpublish: "fold (\<lambda>k. tpublish (f k)) ks s = s\<lparr>tk_published := tk_published s @ map f ks\<rparr>"
  by (induction ks arbitrary: s) (auto simp: tpublish_def)

lemma administration_same_governors:
  "set_pause env b s = Ok s' \<Longrightarrow> same_governors s s'"
  "set_event_dispute env e b s = Ok s' \<Longrightarrow> same_governors s s'"
  "ticket_upgrade env old new s = Ok s' \<Longrightarrow> same_governors s s'"
  "set_oracle env a s = Ok s' \<Longrightarrow> same_governors s s'"
  "set_withdrawal_cap env k n s = Ok s' \<Longrightarrow> same_governors s s'"
  "set_transfer_fee env e m s = Ok s' \<Longrightarrow> same_governors s s'"
  by (auto simp: set_pause_def set_event_dispute_def ticket_upgrade_def fold_tpublish set_oracle_def
      set_withdrawal_cap_def set_transfer_fee_def same_governors_def split: if_splits)

text \<open>None of these operations touches the state beyond the configuration.\<close>

lemma config_ops_more:
  "ticket_initialize env a u w r s = Ok s' \<Longrightarrow> ticket_config.more s' = ticket_config.more s"
  "set_pause env b s = Ok s' \<Longrightarrow> ticket_config.more s' = ticket_config.more s"
  "set_event_dispute env e b s = Ok s' \<Longrightarrow> ticket_config.more s' = ticket_config.more s"
  "ticket_upgrade env old new s = Ok s' \<Longrightarrow> ticket_config.more s' = ticket_config.more s"
  "set_oracle env a s = Ok s' \<Longrightarrow> ticket_config.more s' = ticket_config.more s"
  "set_withdrawal_cap env k n s = Ok s' \<Longrightarrow> ticket_config.more s' = ticket_config.more s"
  "set_transfer_fee env e m s = Ok s' \<Longrightarrow> ticket_config.more s' = ticket_config.more s"
  by (auto simp: ticket_initialize_def set_pause_def set_event_dispute_def ticket_upgrade_def fold_tpublish
      set_oracle_def set_withdrawal_cap_def set_transfer_fee_def split: if_splits)

lemma governance_ops_more:
  "ticket_propose_parameter_change env a c s = Ok (s', v) \<Longrightarrow> ticket_config.more s' = ticket_config.more s"
  "vote_on_proposal env a i s = Ok s' \<Longrightarrow> ticket_config.more s' = ticket_config.more s"
  "propose_escrow_withdrawal env e n s = Ok (s', v) \<Longrightarrow> ticket_config.more s' = ticket_config.more s"
  "approve_escrow_withdrawal env i s = Ok s' \<Longrightarrow> ticket_config.more s' = ticket_config.more s"
  "execute_escrow_withdrawal env i s = Ok s' \<Longrightarrow> ticket_config.more s' = ticket_config.more s"
  by (auto simp: ticket_propose_parameter_change_def vote_on_proposal_def propose_escrow_withdrawal_def
      approve_escrow_withdrawal_def execute_escrow_withdrawal_def ticket_store_proposal_def split: if_splits)

lemma ticket_execute_proposal_more:
  assumes "ticket_execute_proposal env a i s = Ok s'"
  shows "ticket_config.more s' = ticket_config.more s"
proof -
  have "ticket_config.more t = ticket_config.more s" if "apply_parameter_change n c s = Ok t" for n c t
    using that by (cases c) (auto simp: apply_parameter_change_def ticket_set_slippage_bps_def split: if_splits)
  then show ?thesis using assms
    by (auto simp: ticket_execute_proposal_def ticket_store_proposal_def Let_def split: if_splits)
qed

end
