(* ===== verification/Ticket_State.thy ===== *)
theory Ticket_State
  imports Ticket_Config Sharded_Index
begin

text \<open>
  The rest of the state of the ticket payment contract, in three layers over its configuration, and the
  accessors of \<open>src/contract/contracts/ticket_payment/src/storage.rs\<close>: the payments with their indexes by
  event, by buyer and by status, the money accounts, and the market (auctions, resale listings, escrow
  plans).  A key that has a default when it is unset holds that default.
\<close>

section \<open>State\<close>

record ticket_payments = ticket_config +
  tk_payments :: "string \<rightharpoonup> payment"
  tk_event_payment :: "(string \<times> string) set"
  tk_event_shard :: "string \<Rightarrow> nat \<Rightarrow> string list"
  tk_event_count :: "string \<Rightarrow> nat"
  tk_buyer_payment :: "(address \<times> string) set"
  tk_buyer_shard :: "address \<Rightarrow> nat \<Rightarrow> string list"
  tk_buyer_count :: "address \<Rightarrow> nat"
  tk_status_list :: "string \<times> payment_status \<Rightarrow> string list"
  tk_status_entry :: "(string \<times> payment_status \<times> string) set"
  tk_validation_hash :: "string \<rightharpoonup> string"
  tk_poap_minted :: "string set"
  tk_poap_shard :: "address \<Rightarrow> nat \<Rightarrow> string list"
  tk_poap_count :: "address \<Rightarrow> nat"

record ticket_ledger = ticket_payments +
  tk_balances :: "string \<Rightarrow> event_balance"
  tk_volume :: int
  tk_fees :: "address \<Rightarrow> int"
  tk_escrow_total :: int
  tk_escrow_by_token :: "address \<Rightarrow> int"
  tk_daily_withdrawn :: "address \<times> nat \<Rightarrow> int"
  tk_bulk_index :: "string \<Rightarrow> nat"
  tk_partial_index :: "string \<Rightarrow> nat"
  tk_partial_percentage :: "string \<Rightarrow> nat"
  tk_cancelled_for_refund :: "string set"
  tk_price_switched :: "(string \<times> string) set"
  tk_discount_hashes :: "string set"
  tk_discount_used :: "string set"
  tk_discount_codes :: "string \<times> string \<rightharpoonup> discount_data"
  tk_affiliate_rate :: "string \<times> address \<rightharpoonup> nat"

record ticket = ticket_ledger +
  tk_highest_bid :: "string \<times> string \<rightharpoonup> highest_bid"
  tk_auction_closed :: "(string \<times> string) set"
  tk_listings :: "string \<rightharpoonup> resale_listing"
  tk_royalty_bps :: "string \<Rightarrow> nat"
  tk_escrow_state :: "string \<rightharpoonup> escrow_state"
  tk_escrow_milestones :: "string \<times> nat \<rightharpoonup> escrow_milestone"

definition DEFAULT_RESALE_ROYALTY_BPS :: nat where "DEFAULT_RESALE_ROYALTY_BPS = 500"

definition zero_balance :: event_balance where
  "zero_balance = \<lparr>bal_organizer_amount = 0, bal_total_withdrawn = 0, bal_platform_fee = 0\<rparr>"

definition ticket_empty :: ticket where
  "ticket_empty =
     \<lparr>tk_admin = None, tk_usdc_token = None, tk_platform_wallet = None, tk_event_registry = None,
       tk_pro_subscription = None, tk_initialized = False, tk_paused = False, tk_whitelist = {},
       tk_oracle = None, tk_slippage_bps = 200, tk_transfer_fee = Map.empty, tk_withdrawal_cap = (\<lambda>_. 0),
       tk_governors = {}, tk_total_governors = 0, tk_proposals = Map.empty, tk_proposal_count = 0,
       tk_transfers = [], tk_calls = [], tk_published = [],
       tk_payments = Map.empty, tk_event_payment = {}, tk_event_shard = (\<lambda>_ _. []), tk_event_count = (\<lambda>_. 0),
       tk_buyer_payment = {}, tk_buyer_shard = (\<lambda>_ _. []), tk_buyer_count = (\<lambda>_. 0),
       tk_status_list = (\<lambda>_. []), tk_status_entry = {}, tk_validation_hash = Map.empty,
       tk_poap_minted = {}, tk_poap_shard = (\<lambda>_ _. []), tk_poap_count = (\<lambda>_. 0),
       tk_balances = (\<lambda>_. zero_balance), tk_volume = 0, tk_fees = (\<lambda>_. 0), tk_escrow_total = 0,
       tk_escrow_by_token = (\<lambda>_. 0), tk_daily_withdrawn = (\<lambda>_. 0), tk_bulk_index = (\<lambda>_. 0),
       tk_partial_index = (\<lambda>_. 0), tk_partial_percentage = (\<lambda>_. 0), tk_cancelled_for_refund = {},
       tk_price_switched = {}, tk_discount_hashes = {}, tk_discount_used = {}, tk_discount_codes = Map.empty,
       tk_affiliate_rate = Map.empty,
       tk_highest_bid = Map.empty, tk_auction_closed = {}, tk_listings = Map.empty,
       tk_royalty_bps = (\<lambda>_. DEFAULT_RESALE_ROYALTY_BPS), tk_escrow_state = Map.empty,
       tk_escrow_milestones = Map.empty\<rparr>"


section \<open>Payments and their indexes\<close>

definition TICKET_SHARD_SIZE :: nat where "TICKET_SHARD_SIZE = 100"

definition append_event_payment ::
    "string \<Rightarrow> string \<Rightarrow> 'a ticket_payments_scheme \<Rightarrow> (ticket_error, 'a ticket_payments_scheme) result" where
  "append_event_payment event_id payment_id s =
     (let count = tk_event_count s event_id;
          shard_id = count div TICKET_SHARD_SIZE;
          shard = tk_event_shard s event_id shard_id @ [payment_id]
      in
      rbind (add_u 32 count 1) (\<lambda>count'.
      Ok (s\<lparr>tk_event_shard := (tk_event_shard s)(event_id := (tk_event_shard s event_id)(shard_id := shard)),
             tk_event_count := (tk_event_count s)(event_id := count')\<rparr>)))"

definition add_payment_to_event_index ::
    "string \<Rightarrow> string \<Rightarrow> 'a ticket_payments_scheme \<Rightarrow> (ticket_error, 'a ticket_payments_scheme) result" where
  "add_payment_to_event_index event_id payment_id s =
     (if (event_id, payment_id) \<in> tk_event_payment s then Ok s
      else
        rbind (append_event_payment event_id payment_id s) (\<lambda>s1.
        Ok (s1\<lparr>tk_event_payment := insert (event_id, payment_id) (tk_event_payment s1)\<rparr>)))"

definition append_buyer_payment ::
    "address \<Rightarrow> string \<Rightarrow> 'a ticket_payments_scheme \<Rightarrow> (ticket_error, 'a ticket_payments_scheme) result" where
  "append_buyer_payment buyer_address payment_id s =
     (let count = tk_buyer_count s buyer_address;
          shard_id = count div TICKET_SHARD_SIZE;
          shard = tk_buyer_shard s buyer_address shard_id @ [payment_id]
      in
      rbind (add_u 32 count 1) (\<lambda>count'.
      Ok (s\<lparr>tk_buyer_shard := (tk_buyer_shard s)(buyer_address := (tk_buyer_shard s buyer_address)(shard_id := shard)),
             tk_buyer_count := (tk_buyer_count s)(buyer_address := count')\<rparr>)))"

definition add_payment_to_buyer_index ::
    "address \<Rightarrow> string \<Rightarrow> 'a ticket_payments_scheme \<Rightarrow> (ticket_error, 'a ticket_payments_scheme) result" where
  "add_payment_to_buyer_index buyer_address payment_id s =
     (if (buyer_address, payment_id) \<in> tk_buyer_payment s then Ok s
      else
        rbind (append_buyer_payment buyer_address payment_id s) (\<lambda>s1.
        Ok (s1\<lparr>tk_buyer_payment := insert (buyer_address, payment_id) (tk_buyer_payment s1)\<rparr>)))"

text \<open>The loop over the buckets: the first bucket that holds the id loses it.\<close>

fun remove_payment_loop ::
    "nat list \<Rightarrow> (nat \<Rightarrow> string list) \<Rightarrow> string \<Rightarrow> (nat \<Rightarrow> string list) \<times> bool" where
  "remove_payment_loop [] shards payment_id = (shards, False)"
| "remove_payment_loop (i # is) shards payment_id =
     (if payment_id \<in> set (shards i)
      then (shards(i := filter (\<lambda>p_id. p_id \<noteq> payment_id) (shards i)), True)
      else remove_payment_loop is shards payment_id)"

definition remove_payment_from_buyer_index ::
    "address \<Rightarrow> string \<Rightarrow> 'a ticket_payments_scheme \<Rightarrow> 'a ticket_payments_scheme" where
  "remove_payment_from_buyer_index buyer_address payment_id s =
     (let count = tk_buyer_count s buyer_address in
      if count = 0 then s
      else
        case remove_payment_loop [0..<div_ceil count TICKET_SHARD_SIZE] (tk_buyer_shard s buyer_address) payment_id of
          (shards, found) \<Rightarrow>
            if found
            then s\<lparr>tk_buyer_shard := (tk_buyer_shard s)(buyer_address := shards),
                   tk_buyer_count := (tk_buyer_count s)(buyer_address := count - 1),
                   tk_buyer_payment := tk_buyer_payment s - {(buyer_address, payment_id)}\<rparr>
            else s)"

definition add_payment_to_status_index ::
    "string \<Rightarrow> payment_status \<Rightarrow> string \<Rightarrow> 'a ticket_payments_scheme \<Rightarrow> 'a ticket_payments_scheme" where
  "add_payment_to_status_index event_id status payment_id s =
     (if (event_id, status, payment_id) \<in> tk_status_entry s then s
      else s\<lparr>tk_status_list := (tk_status_list s)((event_id, status) := tk_status_list s (event_id, status) @ [payment_id]),
             tk_status_entry := insert (event_id, status, payment_id) (tk_status_entry s)\<rparr>)"

definition remove_payment_from_status_index ::
    "string \<Rightarrow> payment_status \<Rightarrow> string \<Rightarrow> 'a ticket_payments_scheme \<Rightarrow> 'a ticket_payments_scheme" where
  "remove_payment_from_status_index event_id status payment_id s =
     s\<lparr>tk_status_list := (tk_status_list s)((event_id, status) :=
          filter (\<lambda>i. i \<noteq> payment_id) (tk_status_list s (event_id, status))),
       tk_status_entry := tk_status_entry s - {(event_id, status, payment_id)}\<rparr>"

definition update_payment_status_index ::
    "string \<Rightarrow> payment_status \<Rightarrow> payment_status \<Rightarrow> string \<Rightarrow> 'a ticket_payments_scheme \<Rightarrow> 'a ticket_payments_scheme" where
  "update_payment_status_index event_id old_status new_status payment_id s =
     add_payment_to_status_index event_id new_status payment_id
       (remove_payment_from_status_index event_id old_status payment_id s)"

definition store_payment ::
    "payment \<Rightarrow> 'a ticket_payments_scheme \<Rightarrow> (ticket_error, 'a ticket_payments_scheme) result" where
  "store_payment payment s =
     (let exists = (tk_payments s (pay_id payment) \<noteq> None);
          s1 = s\<lparr>tk_payments := (tk_payments s)(pay_id payment \<mapsto> payment)\<rparr>
      in
      if exists then Ok s1
      else
        rbind (add_payment_to_event_index (pay_event payment) (pay_id payment) s1) (\<lambda>s2.
        rbind (add_payment_to_buyer_index (pay_buyer payment) (pay_id payment) s2) (\<lambda>s3.
        Ok (add_payment_to_status_index (pay_event payment) (pay_status payment) (pay_id payment) s3))))"

text \<open>A write of the payment entry alone, which leaves the indexes as they are.\<close>

definition put_payment :: "string \<Rightarrow> payment \<Rightarrow> 'a ticket_payments_scheme \<Rightarrow> 'a ticket_payments_scheme" where
  "put_payment payment_id payment s = s\<lparr>tk_payments := (tk_payments s)(payment_id \<mapsto> payment)\<rparr>"

text \<open>A general status update, which no entry point calls.\<close>

definition update_payment_status ::
    "string \<Rightarrow> payment_status \<Rightarrow> nat option \<Rightarrow> 'a ticket_payments_scheme \<Rightarrow> 'a ticket_payments_scheme" where
  "update_payment_status payment_id status confirmed_at s =
     (case tk_payments s payment_id of
        Some payment \<Rightarrow>
          let s1 = put_payment payment_id (payment\<lparr>pay_status := status, pay_confirmed_at := confirmed_at\<rparr>) s in
          if pay_status payment \<noteq> status
          then update_payment_status_index (pay_event payment) (pay_status payment) status payment_id s1
          else s1
      | None \<Rightarrow> s)"

definition get_event_payments :: "string \<Rightarrow> 'a ticket_payments_scheme \<Rightarrow> string list" where
  "get_event_payments event_id s =
     (let count = tk_event_count s event_id in
      if count = 0 then []
      else concat (map (tk_event_shard s event_id) [0..<div_ceil count TICKET_SHARD_SIZE]))"

definition get_buyer_payments :: "address \<Rightarrow> 'a ticket_payments_scheme \<Rightarrow> string list" where
  "get_buyer_payments buyer_address s =
     (let count = tk_buyer_count s buyer_address in
      if count = 0 then []
      else concat (map (tk_buyer_shard s buyer_address) [0..<div_ceil count TICKET_SHARD_SIZE]))"

definition get_payments_by_status :: "string \<Rightarrow> payment_status \<Rightarrow> 'a ticket_payments_scheme \<Rightarrow> string list" where
  "get_payments_by_status event_id status s = tk_status_list s (event_id, status)"

definition verify_secret :: "ticket_env \<Rightarrow> string \<Rightarrow> string \<Rightarrow> 'a ticket_payments_scheme \<Rightarrow> bool" where
  "verify_secret env payment_id raw_secret s =
     (case tk_validation_hash s payment_id of
        Some stored_hash \<Rightarrow> crypto_sha256 env raw_secret = stored_hash
      | None \<Rightarrow> False)"

definition mark_poap_minted ::
    "string \<Rightarrow> address \<Rightarrow> 'a ticket_payments_scheme \<Rightarrow> (ticket_error, 'a ticket_payments_scheme) result" where
  "mark_poap_minted payment_id attendee s =
     (let s1 = s\<lparr>tk_poap_minted := insert payment_id (tk_poap_minted s)\<rparr>;
          count = tk_poap_count s1 attendee;
          shard = count div TICKET_SHARD_SIZE;
          ids = tk_poap_shard s1 attendee shard @ [payment_id]
      in
      rbind (add_u 32 count 1) (\<lambda>count'.
      Ok (s1\<lparr>tk_poap_shard := (tk_poap_shard s1)(attendee := (tk_poap_shard s1 attendee)(shard := ids)),
              tk_poap_count := (tk_poap_count s1)(attendee := count')\<rparr>)))"

definition get_poaps_by_attendee :: "address \<Rightarrow> 'a ticket_payments_scheme \<Rightarrow> string list" where
  "get_poaps_by_attendee attendee s =
     (let count = tk_poap_count s attendee in
      if count = 0 then []
      else concat (map (tk_poap_shard s attendee) [0..<div_ceil count TICKET_SHARD_SIZE]))"

text \<open>Whether an address holds a confirmed ticket of an event.\<close>

definition has_confirmed_ticket :: "string \<Rightarrow> address \<Rightarrow> 'a ticket_payments_scheme \<Rightarrow> bool" where
  "has_confirmed_ticket event_id address s =
     list_ex (\<lambda>payment_id. case tk_payments s payment_id of
        Some payment \<Rightarrow> pay_buyer payment = address \<and> pay_status payment = Confirmed
      | None \<Rightarrow> False) (get_event_payments event_id s)"


section \<open>Money accounts\<close>

definition update_event_balance ::
    "string \<Rightarrow> int \<Rightarrow> int \<Rightarrow> 'a ticket_ledger_scheme \<Rightarrow> (ticket_error, 'a ticket_ledger_scheme) result" where
  "update_event_balance event_id organizer_amount platform_fee s =
     (let balance = tk_balances s event_id in
      rbind (unwrap (checked_add_i128 (bal_organizer_amount balance) organizer_amount)) (\<lambda>organizer.
      rbind (unwrap (checked_add_i128 (bal_platform_fee balance) platform_fee)) (\<lambda>fee.
      Ok (s\<lparr>tk_balances := (tk_balances s)(event_id :=
               balance\<lparr>bal_organizer_amount := organizer, bal_platform_fee := fee\<rparr>)\<rparr>))))"

definition set_event_balance :: "string \<Rightarrow> event_balance \<Rightarrow> 'a ticket_ledger_scheme \<Rightarrow> 'a ticket_ledger_scheme" where
  "set_event_balance event_id balance s = s\<lparr>tk_balances := (tk_balances s)(event_id := balance)\<rparr>"

definition add_to_total_volume_processed ::
    "int \<Rightarrow> 'a ticket_ledger_scheme \<Rightarrow> (ticket_error, 'a ticket_ledger_scheme) result" where
  "add_to_total_volume_processed amount s =
     rbind (unwrap (checked_add_i128 (tk_volume s) amount)) (\<lambda>n. Ok (s\<lparr>tk_volume := n\<rparr>))"

definition add_to_total_fees_collected_by_token ::
    "address \<Rightarrow> int \<Rightarrow> 'a ticket_ledger_scheme \<Rightarrow> (ticket_error, 'a ticket_ledger_scheme) result" where
  "add_to_total_fees_collected_by_token token amount s =
     rbind (unwrap (checked_add_i128 (tk_fees s token) amount)) (\<lambda>n. Ok (s\<lparr>tk_fees := (tk_fees s)(token := n)\<rparr>))"

definition subtract_from_total_fees_collected_by_token ::
    "address \<Rightarrow> int \<Rightarrow> 'a ticket_ledger_scheme \<Rightarrow> (ticket_error, 'a ticket_ledger_scheme) result" where
  "subtract_from_total_fees_collected_by_token token amount s =
     rbind (unwrap (checked_sub_i128 (tk_fees s token) amount)) (\<lambda>n. Ok (s\<lparr>tk_fees := (tk_fees s)(token := n)\<rparr>))"

definition add_to_daily_withdrawn_amount ::
    "address \<Rightarrow> nat \<Rightarrow> int \<Rightarrow> 'a ticket_ledger_scheme \<Rightarrow> (ticket_error, 'a ticket_ledger_scheme) result" where
  "add_to_daily_withdrawn_amount token day amount s =
     rbind (unwrap (checked_add_i128 (tk_daily_withdrawn s (token, day)) amount)) (\<lambda>n.
     Ok (s\<lparr>tk_daily_withdrawn := (tk_daily_withdrawn s)((token, day) := n)\<rparr>))"

definition add_to_active_escrow_total ::
    "int \<Rightarrow> 'a ticket_ledger_scheme \<Rightarrow> (ticket_error, 'a ticket_ledger_scheme) result" where
  "add_to_active_escrow_total amount s =
     rbind (unwrap (checked_add_i128 (tk_escrow_total s) amount)) (\<lambda>n. Ok (s\<lparr>tk_escrow_total := n\<rparr>))"

definition subtract_from_active_escrow_total ::
    "int \<Rightarrow> 'a ticket_ledger_scheme \<Rightarrow> (ticket_error, 'a ticket_ledger_scheme) result" where
  "subtract_from_active_escrow_total amount s =
     rbind (unwrap (checked_sub_i128 (tk_escrow_total s) amount)) (\<lambda>n. Ok (s\<lparr>tk_escrow_total := n\<rparr>))"

definition add_to_active_escrow_by_token ::
    "address \<Rightarrow> int \<Rightarrow> 'a ticket_ledger_scheme \<Rightarrow> (ticket_error, 'a ticket_ledger_scheme) result" where
  "add_to_active_escrow_by_token token amount s =
     rbind (unwrap (checked_add_i128 (tk_escrow_by_token s token) amount)) (\<lambda>n.
     Ok (s\<lparr>tk_escrow_by_token := (tk_escrow_by_token s)(token := n)\<rparr>))"

definition subtract_from_active_escrow_by_token ::
    "address \<Rightarrow> int \<Rightarrow> 'a ticket_ledger_scheme \<Rightarrow> (ticket_error, 'a ticket_ledger_scheme) result" where
  "subtract_from_active_escrow_by_token token amount s =
     rbind (unwrap (checked_sub_i128 (tk_escrow_by_token s token) amount)) (\<lambda>n.
     Ok (s\<lparr>tk_escrow_by_token := (tk_escrow_by_token s)(token := n)\<rparr>))"

section \<open>Successful updates\<close>

lemma update_event_balance_eq_Ok [simp, result_simps]:
  "update_event_balance e a b s = Ok s' \<longleftrightarrow>
     in_i128 (bal_organizer_amount (tk_balances s e) + a) \<and> in_i128 (bal_platform_fee (tk_balances s e) + b)
     \<and> s' = s\<lparr>tk_balances := (tk_balances s)(e := (tk_balances s e)\<lparr>
          bal_organizer_amount := bal_organizer_amount (tk_balances s e) + a,
          bal_platform_fee := bal_platform_fee (tk_balances s e) + b\<rparr>)\<rparr>"
  by (auto simp: update_event_balance_def Let_def)

lemma account_updates_eq_Ok [simp, result_simps]:
  "add_to_total_volume_processed n s = Ok s' \<longleftrightarrow> in_i128 (tk_volume s + n) \<and> s' = s\<lparr>tk_volume := tk_volume s + n\<rparr>"
  "add_to_total_fees_collected_by_token k n s = Ok s' \<longleftrightarrow>
     in_i128 (tk_fees s k + n) \<and> s' = s\<lparr>tk_fees := (tk_fees s)(k := tk_fees s k + n)\<rparr>"
  "subtract_from_total_fees_collected_by_token k n s = Ok s' \<longleftrightarrow>
     in_i128 (tk_fees s k - n) \<and> s' = s\<lparr>tk_fees := (tk_fees s)(k := tk_fees s k - n)\<rparr>"
  "add_to_daily_withdrawn_amount k d n s = Ok s' \<longleftrightarrow> in_i128 (tk_daily_withdrawn s (k, d) + n)
     \<and> s' = s\<lparr>tk_daily_withdrawn := (tk_daily_withdrawn s)((k, d) := tk_daily_withdrawn s (k, d) + n)\<rparr>"
  "add_to_active_escrow_total n s = Ok s' \<longleftrightarrow>
     in_i128 (tk_escrow_total s + n) \<and> s' = s\<lparr>tk_escrow_total := tk_escrow_total s + n\<rparr>"
  "subtract_from_active_escrow_total n s = Ok s' \<longleftrightarrow>
     in_i128 (tk_escrow_total s - n) \<and> s' = s\<lparr>tk_escrow_total := tk_escrow_total s - n\<rparr>"
  "add_to_active_escrow_by_token k n s = Ok s' \<longleftrightarrow> in_i128 (tk_escrow_by_token s k + n)
     \<and> s' = s\<lparr>tk_escrow_by_token := (tk_escrow_by_token s)(k := tk_escrow_by_token s k + n)\<rparr>"
  "subtract_from_active_escrow_by_token k n s = Ok s' \<longleftrightarrow> in_i128 (tk_escrow_by_token s k - n)
     \<and> s' = s\<lparr>tk_escrow_by_token := (tk_escrow_by_token s)(k := tk_escrow_by_token s k - n)\<rparr>"
  by (auto simp: add_to_total_volume_processed_def add_to_total_fees_collected_by_token_def
      subtract_from_total_fees_collected_by_token_def add_to_daily_withdrawn_amount_def
      add_to_active_escrow_total_def subtract_from_active_escrow_total_def add_to_active_escrow_by_token_def
      subtract_from_active_escrow_by_token_def)

lemma tpublish_payment_fields [simp]:
  "tk_payments (tpublish e s) = tk_payments s" "tk_event_payment (tpublish e s) = tk_event_payment s"
  "tk_event_shard (tpublish e s) = tk_event_shard s" "tk_event_count (tpublish e s) = tk_event_count s"
  "tk_poap_minted (tpublish e s) = tk_poap_minted s"
  by (simp_all add: tpublish_def)

lemma tpublish_ledger_fields [simp]:
  "tk_balances (tpublish e s) = tk_balances s" "tk_bulk_index (tpublish e s) = tk_bulk_index s"
  "tk_escrow_total (tpublish e s) = tk_escrow_total s" "tk_escrow_by_token (tpublish e s) = tk_escrow_by_token s"
  by (simp_all add: tpublish_def)

lemma tpublish_market_fields [simp]:
  "tk_highest_bid (tpublish e s) = tk_highest_bid s" "tk_auction_closed (tpublish e s) = tk_auction_closed s"
  "tk_listings (tpublish e s) = tk_listings s" "tk_escrow_state (tpublish e s) = tk_escrow_state s"
  by (simp_all add: tpublish_def)


section \<open>What an update leaves alone\<close>

text \<open>
  The configuration and the payments with their index by event, as far as the invariants look at them.
\<close>

definition same_ticket :: "payment \<Rightarrow> payment \<Rightarrow> bool" where
  "same_ticket p q \<longleftrightarrow> pay_id q = pay_id p \<and> pay_event q = pay_event p \<and> pay_tier q = pay_tier p
     \<and> pay_token q = pay_token p \<and> pay_amount q = pay_amount p"

definition edited :: "'a ticket_payments_scheme \<Rightarrow> 'a ticket_payments_scheme \<Rightarrow> bool" where
  "edited s t \<longleftrightarrow> tk_event_payment t = tk_event_payment s \<and> tk_event_shard t = tk_event_shard s
     \<and> tk_event_count t = tk_event_count s \<and> (\<forall>i. rel_option same_ticket (tk_payments s i) (tk_payments t i))"

lemma same_ticket_refl [simp]: "same_ticket p p"
  by (simp add: same_ticket_def)

lemma rel_same_ticket_refl [simp]: "rel_option same_ticket x x"
  by (cases x) auto

lemma edited_refl [simp]: "edited s s"
  by (simp add: edited_def)

lemma edited_trans:
  assumes "edited s t" "edited t u"
  shows "edited s u"
proof -
  have "rel_option same_ticket x z" if "rel_option same_ticket x y" "rel_option same_ticket y z" for x y z
    using that by (cases x; cases y; cases z) (auto simp: same_ticket_def)
  then show ?thesis using assms unfolding edited_def by metis
qed

lemma edited_cong:
  "tk_event_payment t = tk_event_payment s \<Longrightarrow> tk_event_shard t = tk_event_shard s \<Longrightarrow>
   tk_event_count t = tk_event_count s \<Longrightarrow> tk_payments t = tk_payments s \<Longrightarrow> edited s t"
  by (simp add: edited_def)

lemma edited_same_ticketD:
  "edited s t \<Longrightarrow> tk_payments s i = Some p \<Longrightarrow> \<exists>q. tk_payments t i = Some q \<and> same_ticket p q"
  unfolding edited_def by (metis option_rel_Some1)

lemma edited_NoneD: "edited s t \<Longrightarrow> tk_payments t i = None \<longleftrightarrow> tk_payments s i = None"
  unfolding edited_def by (metis option.rel_distinct not_Some_eq)

end
