(* ===== verification/Ticket_Sales.thy ===== *)
theory Ticket_Sales
  imports Ticket_State
begin

text \<open>
  Selling tickets and admitting their holders
  (\<open>src/contract/contracts/ticket_payment/src/contract.rs\<close>): discounts, the price check, the division of a
  payment, \<open>process_payment\<close>, \<open>confirm_payment\<close>, \<open>check_in\<close> and the attendance tokens.  A long entry point
  is divided into definitions in the order of its code.
\<close>

section \<open>Discounts and rates\<close>

definition create_discount_code ::
    "ticket_env \<Rightarrow> string \<Rightarrow> string \<Rightarrow> nat \<Rightarrow> nat \<Rightarrow> nat \<Rightarrow> 'a ticket_ledger_scheme
     \<Rightarrow> (ticket_error, 'a ticket_ledger_scheme) result" where
  "create_discount_code env event_id code percentage expires_at max_uses s =
     rbind (ticket_require_admin env s) (\<lambda>_.
     if percentage = 0 \<or> percentage > 100 then Err InvalidFeePercent
     else Ok (s\<lparr>tk_discount_codes := (tk_discount_codes s)((event_id, code) \<mapsto>
            \<lparr>disc_percentage = percentage, disc_expires_at = expires_at, disc_max_uses = max_uses,
              disc_current_uses = 0\<rparr>)\<rparr>))"

definition MAX_BATCH_SIZE :: nat where "MAX_BATCH_SIZE = 50"

definition add_discount_hashes ::
    "ticket_env \<Rightarrow> string \<Rightarrow> string list \<Rightarrow> 'a ticket_ledger_scheme
     \<Rightarrow> (ticket_error, 'a ticket_ledger_scheme) result" where
  "add_discount_hashes env event_id hashes s =
     (if \<not> tk_initialized s then Trap PanicTrap
      else if hashes = [] then Err EmptyBatch
      else if length hashes > MAX_BATCH_SIZE then Err BatchTooLarge
      else
        rbind (lookup_event env event_id s) (\<lambda>event_info.
        rbind (require_auth env (ei_organizer event_info)) (\<lambda>_.
        Ok (s\<lparr>tk_discount_hashes := tk_discount_hashes s \<union> set hashes\<rparr>))))"

definition set_affiliate_rate ::
    "ticket_env \<Rightarrow> string \<Rightarrow> address \<Rightarrow> nat \<Rightarrow> 'a ticket_ledger_scheme
     \<Rightarrow> (ticket_error, 'a ticket_ledger_scheme) result" where
  "set_affiliate_rate env event_id affiliate rate_bps s =
     (if \<not> tk_initialized s then Trap PanicTrap
      else if rate_bps > MAX_BPS then Err InvalidFeePercent
      else
        rbind (lookup_event env event_id s) (\<lambda>event_info.
        rbind (require_auth env (ei_organizer event_info)) (\<lambda>_.
        Ok (s\<lparr>tk_affiliate_rate := (tk_affiliate_rate s)((event_id, affiliate) \<mapsto> rate_bps)\<rparr>))))"

definition ticket_cancel_event ::
    "ticket_env \<Rightarrow> string \<Rightarrow> 'a ticket_ledger_scheme \<Rightarrow> (ticket_error, 'a ticket_ledger_scheme) result" where
  "ticket_cancel_event env event_id s =
     (if \<not> tk_initialized s then Trap PanicTrap
      else
        rbind (lookup_event env event_id s) (\<lambda>event_info.
        rbind (require_auth env (ei_organizer event_info)) (\<lambda>_.
        Ok (tpublish (EventCancelled_event event_id (ei_organizer event_info) (timestamp env))
             (s\<lparr>tk_cancelled_for_refund := insert event_id (tk_cancelled_for_refund s)\<rparr>)))))"


section \<open>The price of a purchase\<close>

definition apply_global_promo ::
    "ticket_env \<Rightarrow> address \<Rightarrow> int \<Rightarrow> (ticket_error, int \<times> nat) result" where
  "apply_global_promo env registry total_amount =
     rbind (call (registry_promo_bps env registry)) (\<lambda>global_promo_bps.
     rbind (call (registry_promo_expiry env registry)) (\<lambda>promo_expiry.
     if global_promo_bps > 0 \<and> timestamp env < promo_expiry
     then
       rbind (sub_u MAX_BPS global_promo_bps) (\<lambda>share.
       rbind (ok_or (checked_mul_div total_amount (int share) (int MAX_BPS)) ArithmeticError) (\<lambda>discounted.
       Ok (discounted, global_promo_bps)))
     else Ok (total_amount, 0)))"

definition apply_code_preimage ::
    "ticket_env \<Rightarrow> string option \<Rightarrow> int \<Rightarrow> 'a ticket_ledger_scheme \<Rightarrow> (ticket_error, int \<times> string option) result" where
  "apply_code_preimage env preimage after_promo s =
     (case preimage of
        Some bytes \<Rightarrow>
          let hash = crypto_sha256 env bytes in
          if hash \<notin> tk_discount_hashes s then Err InvalidDiscountCode
          else if hash \<in> tk_discount_used s then Err DiscountCodeUsed
          else
            rbind (ok_or (checked_mul_div after_promo 90 100) ArithmeticError) (\<lambda>discounted.
            Ok (discounted, Some hash))
      | None \<Rightarrow> Ok (after_promo, None))"

definition apply_discount_code ::
    "ticket_env \<Rightarrow> string \<Rightarrow> string option \<Rightarrow> int \<Rightarrow> 'a ticket_ledger_scheme
     \<Rightarrow> (ticket_error, int \<times> 'a ticket_ledger_scheme) result" where
  "apply_discount_code env event_id discount_code effective_total s =
     (case discount_code of
        Some code \<Rightarrow>
          rbind (ok_or (tk_discount_codes s (event_id, code)) InvalidDiscountCode) (\<lambda>data.
          if timestamp env > disc_expires_at data then Err DiscountExpired
          else if disc_current_uses data \<ge> disc_max_uses data
          then Err (if disc_max_uses data = 1 then DiscountCodeUsed else DiscountMaxUsesReached)
          else
            rbind (sub_u 100 (disc_percentage data)) (\<lambda>share.
            rbind (ok_or (checked_mul_div effective_total (int share) 100) ArithmeticError) (\<lambda>discounted.
            rbind (add_u 32 (disc_current_uses data) 1) (\<lambda>uses.
            Ok (discounted, s\<lparr>tk_discount_codes := (tk_discount_codes s)((event_id, code) \<mapsto>
                  data\<lparr>disc_current_uses := uses\<rparr>)\<rparr>)))))
      | None \<Rightarrow> Ok (effective_total, s))"

fun get_scheduled_price :: "price_schedule list \<Rightarrow> nat \<Rightarrow> int \<Rightarrow> int" where
  "get_scheduled_price [] current_time final_price = final_price"
| "get_scheduled_price (p # ps) current_time final_price =
     (if sched_valid_until p > current_time then sched_price p
      else get_scheduled_price ps current_time final_price)"

definition check_ticket_price ::
    "ticket_env \<Rightarrow> address \<Rightarrow> int \<Rightarrow> ticket_tier_info \<Rightarrow> 'a ticket_ledger_scheme \<Rightarrow> (ticket_error, unit) result" where
  "check_ticket_price env token_address amount tier s =
     (if tt_usd_price tier > 0
      then
        rbind (fetch_fresh_asset_price env token_address s) (\<lambda>price_data.
        rbind (ok_or (checked_mul_div (tt_usd_price tier) (pd_price price_data) 10000000) ArithmeticError) (\<lambda>expected.
        let bps = int (tk_slippage_bps s) in
        rbind (ok_or (checked_mul_div expected (int MAX_BPS - bps) (int MAX_BPS)) ArithmeticError) (\<lambda>min_amount.
        rbind (ok_or (checked_mul_div expected (int MAX_BPS + bps) (int MAX_BPS)) ArithmeticError) (\<lambda>max_amount.
        if amount < min_amount \<or> amount > max_amount then Err PriceOutsideSlippage else Ok ()))))
      else
        let scheduled = get_scheduled_price [] (timestamp env) (tt_price tier);
            active_price = (if tt_early_bird_deadline tier > 0 \<and> timestamp env \<le> tt_early_bird_deadline tier
                            then tt_early_bird_price tier else scheduled)
        in
        if amount \<noteq> active_price then Err InvalidPrice else Ok ())"

definition note_price_switch ::
    "ticket_env \<Rightarrow> string \<Rightarrow> string \<Rightarrow> ticket_tier_info \<Rightarrow> 'a ticket_ledger_scheme \<Rightarrow> 'a ticket_ledger_scheme" where
  "note_price_switch env event_id tier_id tier s =
     (if tt_early_bird_deadline tier > 0 \<and> timestamp env > tt_early_bird_deadline tier
        \<and> (event_id, tier_id) \<notin> tk_price_switched s
      then tpublish (PriceSwitched_event event_id tier_id (tt_price tier) (timestamp env))
             (s\<lparr>tk_price_switched := insert (event_id, tier_id) (tk_price_switched s)\<rparr>)
      else s)"


section \<open>The division of a payment\<close>

text \<open>
  The platform fee, reduced by the loyalty discount and by the referral reward, the organizer's part and
  the reward: the effective total, the platform fee, the organizer's amount and the referral reward.
\<close>

definition referral_part :: "nat option \<Rightarrow> int \<Rightarrow> int \<Rightarrow> (ticket_error, int \<times> int) result" where
  "referral_part rate_bps total_platform_fee total_organizer_amount =
     (case rate_bps of
        Some rate \<Rightarrow>
          rbind (ok_or (checked_mul_div total_platform_fee (int rate) (int MAX_BPS)) ArithmeticError) (\<lambda>uncapped.
          let reward = min uncapped total_platform_fee in
          rbind (ok_or (checked_sub_i128 total_platform_fee reward) ArithmeticError) (\<lambda>fee.
          Ok (fee, min reward total_organizer_amount)))
      | None \<Rightarrow> Ok (total_platform_fee, 0))"

definition split_payment ::
    "nat \<Rightarrow> nat \<Rightarrow> nat option \<Rightarrow> int \<Rightarrow> (ticket_error, int \<times> int \<times> int \<times> int) result" where
  "split_payment fee_bps loyalty_discount_bps rate_bps subtotal =
     rbind (ok_or (checked_mul_div subtotal (int fee_bps) (int MAX_BPS)) ArithmeticError) (\<lambda>gross_fee.
     rbind (if loyalty_discount_bps > 0
            then
              rbind (ok_or (checked_mul_div gross_fee (int loyalty_discount_bps) (int MAX_BPS)) ArithmeticError) (\<lambda>d.
              Ok (min d gross_fee))
            else Ok 0) (\<lambda>loyalty_discount_amount.
     rbind (ok_or (checked_sub_i128 gross_fee loyalty_discount_amount) ArithmeticError) (\<lambda>platform_fee.
     rbind (ok_or (checked_sub_i128 subtotal loyalty_discount_amount) ArithmeticError) (\<lambda>effective_total.
     rbind (ok_or (checked_sub_i128 effective_total platform_fee) ArithmeticError) (\<lambda>organizer_amount.
     rbind (referral_part rate_bps platform_fee organizer_amount) (\<lambda>(total_platform_fee, referral_reward).
     rbind (ok_or (checked_sub_i128 organizer_amount referral_reward) ArithmeticError) (\<lambda>total_organizer_amount.
     Ok (effective_total, total_platform_fee, total_organizer_amount, referral_reward))))))))"

definition platform_fee_bps ::
    "ticket_env \<Rightarrow> ticket_event_info \<Rightarrow> 'a ticket_ledger_scheme \<Rightarrow> nat" where
  "platform_fee_bps env event_info s =
     (let is_pro = (case tk_pro_subscription s of
          Some pro_contract \<Rightarrow> unwrap_or (pro_member env pro_contract (ei_organizer event_info)) False
        | None \<Rightarrow> False)
      in if is_pro then 0 else unwrap_or (ei_custom_fee_bps event_info) (ei_platform_fee_percent event_info))"


section \<open>Processing a payment\<close>

definition take_payment ::
    "ticket_env \<Rightarrow> address \<Rightarrow> address \<Rightarrow> address option \<Rightarrow> int \<Rightarrow> int \<Rightarrow> 'a ticket_ledger_scheme
     \<Rightarrow> (ticket_error, 'a ticket_ledger_scheme) result" where
  "take_payment env token buyer referrer effective_total referral_reward s =
     (let contract_address = current_contract env in
      if token_allowance env (tk_transfers s) token buyer contract_address < effective_total
      then Err InsufficientAllowance
      else
        let balance_before = token_balance env (tk_transfers s) token contract_address in
        rbind (transfer_tokens_from env token buyer contract_address effective_total s) (\<lambda>s1.
        let balance_after = token_balance env (tk_transfers s1) token contract_address in
        rbind (ok_or (checked_sub_i128 balance_after balance_before) ArithmeticError) (\<lambda>received.
        if received \<noteq> effective_total then Err TransferVerificationFailed
        else
          case referrer of
            Some ref_addr \<Rightarrow>
              if referral_reward > 0
              then transfer_tokens env token contract_address ref_addr referral_reward s1
              else Ok s1
          | None \<Rightarrow> Ok s1)))"

definition book_sale ::
    "string \<Rightarrow> address \<Rightarrow> int \<Rightarrow> int \<Rightarrow> int \<Rightarrow> 'a ticket_ledger_scheme
     \<Rightarrow> (ticket_error, 'a ticket_ledger_scheme) result" where
  "book_sale event_id token total_amount total_organizer_amount total_platform_fee s =
     rbind (update_event_balance event_id total_organizer_amount total_platform_fee s) (\<lambda>s1.
     rbind (add_to_total_volume_processed total_amount s1) (\<lambda>s2.
     rbind (add_to_total_fees_collected_by_token token total_platform_fee s2) (\<lambda>s3.
     rbind (add_to_active_escrow_total total_amount s3) (\<lambda>s4.
     add_to_active_escrow_by_token token total_amount s4))))"

definition sub_payment_id :: "string \<Rightarrow> nat \<Rightarrow> nat \<Rightarrow> string" where
  "sub_payment_id payment_id quantity i =
     (if quantity = 1 then payment_id
      else if i = 0 then ''p-0'' else if i = 1 then ''p-1'' else if i = 2 then ''p-2''
      else if i = 3 then ''p-3'' else if i = 4 then ''p-4'' else ''p-many'')"

fun store_tickets ::
    "string \<Rightarrow> (nat \<Rightarrow> payment) \<Rightarrow> nat list \<Rightarrow> 'a ticket_payments_scheme
     \<Rightarrow> (ticket_error, 'a ticket_payments_scheme) result" where
  "store_tickets validation_hash ticket_of [] s = Ok s"
| "store_tickets validation_hash ticket_of (i # is) s =
     rbind (store_payment (ticket_of i) s) (\<lambda>s1.
     store_tickets validation_hash ticket_of is
       (s1\<lparr>tk_validation_hash := (tk_validation_hash s1)(pay_id (ticket_of i) \<mapsto> validation_hash)\<rparr>))"

definition award_loyalty ::
    "ticket_env \<Rightarrow> address \<Rightarrow> nat \<Rightarrow> int \<Rightarrow> nat \<Rightarrow> 'a ticket_config_scheme \<Rightarrow> 'a ticket_config_scheme" where
  "award_loyalty env buyer quantity effective_total multiplier s =
     (case call_registry env (UpdateLoyaltyScore (current_contract env) buyer quantity effective_total multiplier) s of
        Ok s' \<Rightarrow> s'
      | _ \<Rightarrow> s)"

definition publish_sale ::
    "ticket_env \<Rightarrow> string \<Rightarrow> string \<Rightarrow> address \<Rightarrow> int \<Rightarrow> int \<Rightarrow> 'a ticket_config_scheme \<Rightarrow> 'a ticket_config_scheme" where
  "publish_sale env payment_id event_id buyer effective_total total_platform_fee s =
     tpublish (PaymentProcessed_event payment_id event_id buyer effective_total total_platform_fee (timestamp env)) s"

definition publish_discounts ::
    "ticket_env \<Rightarrow> string \<Rightarrow> string \<Rightarrow> string option \<Rightarrow> nat \<Rightarrow> int \<Rightarrow> int \<Rightarrow> int
     \<Rightarrow> 'a ticket_config_scheme \<Rightarrow> 'a ticket_config_scheme" where
  "publish_discounts env payment_id event_id code_hash promo_bps total_amount after_promo effective_total s =
     (let s1 = (case code_hash of
          Some hash \<Rightarrow> tpublish (DiscountCodeApplied_event payment_id event_id hash
              (unwrap_or (checked_sub_i128 total_amount effective_total) 0) (timestamp env)) s
        | None \<Rightarrow> s)
      in
      if promo_bps > 0
      then tpublish (GlobalPromoApplied_event payment_id event_id promo_bps
             (unwrap_or (checked_sub_i128 total_amount after_promo) 0) (timestamp env)) s1
      else s1)"

text \<open>From the division of the payment to the stored tickets.\<close>

definition settle_sale ::
    "ticket_env \<Rightarrow> string \<Rightarrow> string \<Rightarrow> string \<Rightarrow> address \<Rightarrow> address \<Rightarrow> address \<Rightarrow> int \<Rightarrow> nat \<Rightarrow> address option \<Rightarrow> string
     \<Rightarrow> int \<Rightarrow> string option \<Rightarrow> int \<times> int \<times> int \<times> int \<Rightarrow> 'a ticket_ledger_scheme
     \<Rightarrow> (ticket_error, 'a ticket_ledger_scheme) result" where
  "settle_sale env payment_id event_id tier_id buyer owner token amount quantity referrer validation_hash
     total_amount code_hash parts s =
     (case parts of (effective_total, total_platform_fee, total_organizer_amount, referral_reward) \<Rightarrow>
      rbind (take_payment env token buyer referrer effective_total referral_reward s) (\<lambda>s1.
      rbind (book_sale event_id token total_amount total_organizer_amount total_platform_fee s1) (\<lambda>s2.
      let s3 = (case code_hash of
                  Some hash \<Rightarrow> s2\<lparr>tk_discount_used := insert hash (tk_discount_used s2)\<rparr>
                | None \<Rightarrow> s2)
      in
      rbind (call_registry env (IncrementInventory event_id tier_id owner quantity token) s3) (\<lambda>s4.
      rbind (ok_or (checked_div_i128 total_platform_fee (int quantity)) ArithmeticError) (\<lambda>fee_per_ticket.
      rbind (ok_or (checked_div_i128 total_organizer_amount (int quantity)) ArithmeticError) (\<lambda>organizer_per_ticket.
      rbind (ok_or (checked_div_i128 referral_reward (int quantity)) ArithmeticError) (\<lambda>referral_per_ticket.
      store_tickets validation_hash
        (\<lambda>i. \<lparr>pay_id = sub_payment_id payment_id quantity i, pay_event = event_id, pay_buyer = buyer,
               pay_owner = owner, pay_tier = tier_id, pay_token = token, pay_amount = amount,
               pay_platform_fee = fee_per_ticket, pay_organizer_amount = organizer_per_ticket,
               pay_status = Pending, pay_transaction_hash = [], pay_created_at = timestamp env,
               pay_confirmed_at = None, pay_refunded_amount = 0, pay_is_soulbound = False,
               pay_last_checked_in_at = 0, pay_referral_amount = referral_per_ticket,
               pay_referrer = referrer\<rparr>)
        [0..<quantity] s4)))))))"

definition process_payment ::
    "ticket_env \<Rightarrow> string \<Rightarrow> string \<Rightarrow> string \<Rightarrow> address \<Rightarrow> address option \<Rightarrow> address \<Rightarrow> int \<Rightarrow> nat \<Rightarrow> purchase_options
     \<Rightarrow> string \<Rightarrow> 'a ticket_ledger_scheme \<Rightarrow> (ticket_error, 'a ticket_ledger_scheme \<times> string) result" where
  "process_payment env payment_id event_id ticket_tier_id buyer_address recipient_address token_address amount
     quantity options validation_hash s =
     (if \<not> tk_initialized s then Trap PanicTrap
      else if tk_paused s then Err ContractPaused
      else
        rbind (require_auth env buyer_address) (\<lambda>_.
        if tk_payments s payment_id \<noteq> None then Err PaymentAlreadyExists
        else
          let owner_address = unwrap_or recipient_address buyer_address in
          if opt_referrer options = Some buyer_address then Err SelfReferralNotAllowed
          else if amount < 0 then Err InvalidAmount
          else if quantity = 0 then Err InvalidAmount
          else if token_address \<notin> tk_whitelist s then Err TokenNotWhitelisted
          else
            rbind (ok_or (checked_mul_i128 amount (int quantity)) ArithmeticError) (\<lambda>total_amount.
            rbind (unwrap (tk_event_registry s)) (\<lambda>registry.
            rbind (apply_global_promo env registry total_amount) (\<lambda>(after_promo, promo_applied_bps).
            rbind (apply_code_preimage env (opt_code_preimage options) after_promo s) (\<lambda>(after_code, code_hash).
            rbind (apply_discount_code env event_id (opt_discount_code options) after_code s) (\<lambda>(subtotal, s1).
            rbind (ok_or (registry_event env registry event_id) EventNotFound) (\<lambda>event_info.
            if \<not> ei_is_active event_info \<or> ei_status event_info = Cancelled then Err EventInactive
            else if \<not> event_accepts_token event_info token_address s1 then Err TokenNotWhitelisted
            else if event_id \<in> tk_cancelled_for_refund s1 then Err EventCancelled
            else
              rbind (ok_or (map_of (ei_tiers event_info) ticket_tier_id) TierNotFound) (\<lambda>tier.
              rbind (check_ticket_price env token_address amount tier s1) (\<lambda>_.
              let s2 = note_price_switch env event_id ticket_tier_id tier s1;
                  rate = (case opt_referrer options of
                      Some ref_addr \<Rightarrow> Some (unwrap_or (tk_affiliate_rate s2 (event_id, ref_addr)) 2000)
                    | None \<Rightarrow> None)
              in
              rbind (split_payment (platform_fee_bps env event_info s2)
                       (unwrap_or (registry_loyalty_bps env registry buyer_address) 0) rate subtotal) (\<lambda>parts.
              rbind (settle_sale env payment_id event_id ticket_tier_id buyer_address owner_address token_address
                       amount quantity (opt_referrer options) validation_hash total_amount code_hash parts s2) (\<lambda>s3.
              let effective_total = fst parts;
                  s4 = award_loyalty env buyer_address quantity effective_total (tt_loyalty_multiplier tier)
                         (publish_sale env payment_id event_id buyer_address effective_total (fst (snd parts)) s3)
              in
              Ok (publish_discounts env payment_id event_id code_hash promo_applied_bps total_amount after_promo
                    effective_total s4, payment_id)))))))))))))"


section \<open>Confirmation and admission\<close>

definition confirm_payment ::
    "ticket_env \<Rightarrow> string \<Rightarrow> string \<Rightarrow> 'a ticket_payments_scheme \<Rightarrow> (ticket_error, 'a ticket_payments_scheme) result" where
  "confirm_payment env payment_id transaction_hash s =
     (if \<not> tk_initialized s then Trap PanicTrap
      else
        rbind (unwrap_result (ticket_require_admin env s)) (\<lambda>_.
        let s1 = (case tk_payments s payment_id of
            Some payment \<Rightarrow>
              let old_status = pay_status payment;
                  s' = put_payment payment_id (payment\<lparr>pay_status := Confirmed,
                         pay_confirmed_at := Some (timestamp env), pay_transaction_hash := transaction_hash\<rparr>) s
              in if old_status \<noteq> Confirmed
                 then update_payment_status_index (pay_event payment) old_status Confirmed payment_id s'
                 else s'
          | None \<Rightarrow> s)
        in
        Ok (tpublish (PaymentStatusChanged_event payment_id Pending Confirmed transaction_hash (timestamp env)) s1)))"

definition check_in ::
    "ticket_env \<Rightarrow> string \<Rightarrow> address \<Rightarrow> string \<Rightarrow> 'a ticket_payments_scheme
     \<Rightarrow> (ticket_error, 'a ticket_payments_scheme) result" where
  "check_in env payment_id scanner raw_secret s =
     (if \<not> tk_initialized s then Trap PanicTrap
      else if tk_paused s then Err ContractPaused
      else
        rbind (ok_or (tk_payments s payment_id) PaymentNotFound) (\<lambda>payment.
        rbind (require_auth env scanner) (\<lambda>_.
        if pay_status payment = CheckedIn then Err TicketAlreadyUsed
        else if \<not> verify_secret env payment_id raw_secret s then Err InvalidSecret
        else
          rbind (unwrap (tk_event_registry s)) (\<lambda>registry.
          rbind (ok_or (registry_event env registry (pay_event payment)) EventNotFound) (\<lambda>event_info.
          rbind (call (registry_scanner env registry (pay_event payment) scanner)) (\<lambda>is_scanner.
          if scanner \<noteq> ei_organizer event_info \<and> \<not> is_scanner then Err UnauthorizedScanner
          else if ei_end_time event_info > 0 \<and> timestamp env > ei_end_time event_info then Err EventEnded
          else
            let checked = payment\<lparr>pay_status := CheckedIn, pay_last_checked_in_at := timestamp env\<rparr> in
            rbind (store_payment checked s) (\<lambda>s1.
            let s2 = tpublish (TicketCheckedIn_event payment_id (pay_event payment) (pay_buyer payment) scanner
                       (timestamp env)) s1
            in
            if payment_id \<notin> tk_poap_minted s2
            then
              rbind (mark_poap_minted payment_id (pay_buyer payment) s2) (\<lambda>s3.
              Ok (tpublish (PoapMinted_event payment_id (pay_event payment) (pay_buyer payment) (timestamp env)) s3))
            else Ok s2))))))) "

definition mint_poap ::
    "ticket_env \<Rightarrow> string \<Rightarrow> 'a ticket_payments_scheme \<Rightarrow> (ticket_error, 'a ticket_payments_scheme) result" where
  "mint_poap env payment_id s =
     (if \<not> tk_initialized s then Err NotInitialized
      else if tk_paused s then Err ContractPaused
      else
        rbind (ok_or (tk_payments s payment_id) PaymentNotFound) (\<lambda>payment.
        if pay_status payment \<noteq> CheckedIn then Err InvalidPaymentStatus
        else if payment_id \<in> tk_poap_minted s then Err TicketAlreadyUsed
        else
          rbind (mark_poap_minted payment_id (pay_buyer payment) s) (\<lambda>s1.
          Ok (tpublish (PoapMinted_event payment_id (pay_event payment) (pay_buyer payment) (timestamp env)) s1))))"

end
