(* ===== verification/Ticket_Refunds.thy ===== *)
theory Ticket_Refunds
  imports Ticket_Sales
begin

text \<open>
  Refunds of the ticket payment contract (\<open>src/contract/contracts/ticket_payment/src/contract.rs\<close>): the
  refund of one payment with its four entry points, the refund of a cancelled event, the batch refunds of
  an organizer and the refunds after a dispute.
\<close>

section \<open>One payment\<close>

definition goal_failed :: "ticket_env \<Rightarrow> ticket_event_info \<Rightarrow> bool" where
  "goal_failed env event_info \<longleftrightarrow> \<not> ei_goal_met event_info \<and> ei_min_sales_target event_info > 0
     \<and> timestamp env > ei_target_deadline event_info"

definition effective_restocking_fee :: "ticket_env \<Rightarrow> ticket_event_info \<Rightarrow> payment \<Rightarrow> int" where
  "effective_restocking_fee env event_info payment =
     (if ei_status event_info = Cancelled \<or> goal_failed env event_info then 0
      else if ei_restocking_fee event_info > pay_amount payment then pay_amount payment
      else if ei_restocking_fee event_info > 0 then ei_restocking_fee event_info
      else 0)"

definition check_refundable ::
    "ticket_env \<Rightarrow> ticket_event_info \<Rightarrow> ticket_tier_info \<Rightarrow> (ticket_error, unit) result" where
  "check_refundable env event_info tier =
     (let is_cancelled = (ei_status event_info = Cancelled) in
      if \<not> tt_is_refundable tier \<and> \<not> is_cancelled \<and> \<not> goal_failed env event_info \<and> ei_is_active event_info
      then Err TicketNotRefundable
      else if \<not> is_cancelled \<and> ei_is_active event_info \<and> ei_refund_deadline event_info > 0
        \<and> timestamp env > ei_refund_deadline event_info
      then Err RefundDeadlinePassed
      else Ok ())"

text \<open>The payment becomes refunded, in its entry and in the status index.\<close>

definition mark_refunded ::
    "ticket_env \<Rightarrow> string \<Rightarrow> payment \<Rightarrow> payment_status \<Rightarrow> 'a ticket_payments_scheme \<Rightarrow> 'a ticket_payments_scheme" where
  "mark_refunded env payment_id refunded old_status s =
     (let s1 = put_payment payment_id refunded s in
      if old_status \<noteq> Refunded
      then update_payment_status_index (pay_event refunded) old_status Refunded payment_id s1
      else s1)"

definition internal_refund ::
    "ticket_env \<Rightarrow> string \<Rightarrow> 'a ticket_ledger_scheme \<Rightarrow> (ticket_error, 'a ticket_ledger_scheme) result" where
  "internal_refund env payment_id s =
     rbind (ok_or (tk_payments s payment_id) PaymentNotFound) (\<lambda>payment.
     rbind (require_auth env (pay_buyer payment)) (\<lambda>_.
     if pay_status payment = Refunded \<or> pay_status payment = Failed then Err InvalidPaymentStatus
     else
       rbind (lookup_event env (pay_event payment) s) (\<lambda>event_info.
       rbind (is_event_disputed env (pay_event payment) s) (\<lambda>disputed.
       if disputed then Err EventDisputed
       else
         rbind (ok_or (map_of (ei_tiers event_info) (pay_tier payment)) TierNotFound) (\<lambda>tier.
         rbind (check_refundable env event_info tier) (\<lambda>_.
         let fee = effective_restocking_fee env event_info payment in
         rbind (ok_or (checked_sub_i128 (pay_amount payment) fee) ArithmeticError) (\<lambda>refund_amount.
         rbind (call_registry env (DecrementInventory (pay_event payment) (pay_tier payment) (pay_buyer payment)) s) (\<lambda>s1.
         let refunded = payment\<lparr>pay_status := Refunded, pay_confirmed_at := Some (timestamp env)\<rparr>;
             s2 = mark_refunded env payment_id refunded (pay_status payment) s1
         in
         rbind (if refund_amount > 0
                then transfer_tokens env (pay_token payment) (current_contract env) (pay_buyer payment) refund_amount s2
                else Ok s2) (\<lambda>s3.
         rbind (ok_or (checked_sub_i128 (pay_organizer_amount payment) fee) ArithmeticError) (\<lambda>org_adjustment.
         rbind (sub_i128 0 org_adjustment) (\<lambda>neg_org.
         rbind (sub_i128 0 (pay_platform_fee payment)) (\<lambda>neg_fee.
         rbind (update_event_balance (pay_event payment) neg_org neg_fee s3) (\<lambda>s4.
         rbind (subtract_from_active_escrow_total refund_amount s4) (\<lambda>s5.
         rbind (subtract_from_active_escrow_by_token (pay_token payment) refund_amount s5) (\<lambda>s6.
         rbind (let balance = tk_balances s6 (pay_event payment) in
                if bal_organizer_amount balance = 0 \<and> bal_platform_fee balance = 0
                then update_event_balance (pay_event payment) 0 0 s6 else Ok s6) (\<lambda>s7.
         Ok (tpublish (PaymentStatusChanged_event payment_id (pay_status payment) Refunded ''refund'' (timestamp env))
              s7)))))))))))))))))"

definition request_guest_refund ::
    "ticket_env \<Rightarrow> string \<Rightarrow> 'a ticket_ledger_scheme \<Rightarrow> (ticket_error, 'a ticket_ledger_scheme) result" where
  "request_guest_refund env payment_id s =
     (if \<not> tk_initialized s then Trap PanicTrap
      else if tk_paused s then Err ContractPaused
      else internal_refund env payment_id s)"

definition get_ticket_payment_id :: "nat \<Rightarrow> string option" where
  "get_ticket_payment_id ticket_id = None"

definition request_refund ::
    "ticket_env \<Rightarrow> nat \<Rightarrow> 'a ticket_ledger_scheme \<Rightarrow> (ticket_error, 'a ticket_ledger_scheme) result" where
  "request_refund env ticket_id s =
     (if \<not> tk_initialized s then Trap PanicTrap
      else if tk_paused s then Err ContractPaused
      else
        rbind (ok_or (get_ticket_payment_id ticket_id) PaymentNotFound) (\<lambda>payment_id.
        rbind (ok_or (tk_payments s payment_id) PaymentNotFound) (\<lambda>payment.
        if pay_status payment = CheckedIn then Err TicketAlreadyUsed
        else if pay_status payment = Refunded then Err InvalidPaymentStatus
        else
          rbind (lookup_event env (pay_event payment) s) (\<lambda>event_info.
          if ei_status event_info \<noteq> Cancelled \<and> ei_refund_deadline event_info > 0
            \<and> timestamp env > ei_refund_deadline event_info
          then Err RefundDeadlinePassed
          else internal_refund env payment_id s))))"

definition admin_refund ::
    "ticket_env \<Rightarrow> string \<Rightarrow> 'a ticket_ledger_scheme \<Rightarrow> (ticket_error, 'a ticket_ledger_scheme) result" where
  "admin_refund env payment_id s =
     rbind (ticket_require_admin env s) (\<lambda>_. internal_refund env payment_id s)"

definition claim_automatic_refund ::
    "ticket_env \<Rightarrow> string \<Rightarrow> 'a ticket_ledger_scheme \<Rightarrow> (ticket_error, 'a ticket_ledger_scheme) result" where
  "claim_automatic_refund env payment_id s =
     (if \<not> tk_initialized s then Trap PanicTrap
      else if tk_paused s then Err ContractPaused
      else
        rbind (ok_or (tk_payments s payment_id) PaymentNotFound) (\<lambda>payment.
        rbind (lookup_event env (pay_event payment) s) (\<lambda>event_info.
        if ei_status event_info \<noteq> Cancelled \<and> \<not> goal_failed env event_info then Err InvalidPaymentStatus
        else internal_refund env payment_id s)))"


section \<open>A cancelled event\<close>

definition check_cancelled ::
    "ticket_env \<Rightarrow> string \<Rightarrow> 'a ticket_ledger_scheme \<Rightarrow> (ticket_error, unit) result" where
  "check_cancelled env event_id s =
     (if event_id \<in> tk_cancelled_for_refund s then Ok ()
      else
        rbind (lookup_event env event_id s) (\<lambda>event_info.
        if ei_status event_info \<noteq> Cancelled then Err EventNotCompleted else Ok ()))"

definition claim_cancellation_refund ::
    "ticket_env \<Rightarrow> string \<Rightarrow> 'a ticket_ledger_scheme \<Rightarrow> (ticket_error, 'a ticket_ledger_scheme) result" where
  "claim_cancellation_refund env payment_id s =
     (if \<not> tk_initialized s then Trap PanicTrap
      else if tk_paused s then Err ContractPaused
      else
        rbind (ok_or (tk_payments s payment_id) PaymentNotFound) (\<lambda>payment.
        rbind (require_auth env (pay_buyer payment)) (\<lambda>_.
        rbind (check_cancelled env (pay_event payment) s) (\<lambda>_.
        if pay_status payment = Refunded \<or> pay_status payment = Failed then Err InvalidPaymentStatus
        else
          let refund_amount = pay_amount payment;
              refunded = payment\<lparr>pay_status := Refunded, pay_confirmed_at := Some (timestamp env),
                           pay_refunded_amount := refund_amount\<rparr>;
              s1 = mark_refunded env payment_id refunded (pay_status payment) s
          in
          rbind (unwrap (tk_event_registry s1)) (\<lambda>_.
          rbind (call_registry env (DecrementInventory (pay_event payment) (pay_tier payment) (pay_buyer payment)) s1) (\<lambda>s2.
          rbind (transfer_tokens env (pay_token payment) (current_contract env) (pay_buyer payment) refund_amount s2) (\<lambda>s3.
          rbind (sub_i128 0 (pay_organizer_amount payment)) (\<lambda>neg_org.
          rbind (sub_i128 0 (pay_platform_fee payment)) (\<lambda>neg_fee.
          rbind (update_event_balance (pay_event payment) neg_org neg_fee s3) (\<lambda>s4.
          rbind (subtract_from_active_escrow_total refund_amount s4) (\<lambda>s5.
          rbind (subtract_from_active_escrow_by_token (pay_token payment) refund_amount s5) (\<lambda>s6.
          Ok (tpublish (CancellationRefundClaimed_event payment_id (pay_event payment) (pay_buyer payment)
                refund_amount (timestamp env)) s6)))))))))))))"


section \<open>Batches\<close>

text \<open>The variables of a batch loop: the balance of the event, the total refunded and the number of refunds.\<close>

record batch =
  bt_balance :: event_balance
  bt_refunded :: int
  bt_count :: nat

definition bulk_refund_one ::
    "ticket_env \<Rightarrow> payment \<Rightarrow> batch \<Rightarrow> 'a ticket_ledger_scheme \<Rightarrow> (ticket_error, 'a ticket_ledger_scheme \<times> batch) result" where
  "bulk_refund_one env payment b s =
     rbind (transfer_tokens env (pay_token payment) (current_contract env) (pay_buyer payment) (pay_amount payment) s) (\<lambda>s1.
     rbind (store_payment (payment\<lparr>pay_status := Refunded, pay_confirmed_at := Some (timestamp env)\<rparr>) s1) (\<lambda>s2.
     rbind (sub_i128 (bal_organizer_amount (bt_balance b)) (pay_organizer_amount payment)) (\<lambda>organizer.
     rbind (sub_i128 (bal_platform_fee (bt_balance b)) (pay_platform_fee payment)) (\<lambda>fee.
     rbind (add_i128 (bt_refunded b) (pay_amount payment)) (\<lambda>refunded.
     rbind (add_u 32 (bt_count b) 1) (\<lambda>count.
     rbind (subtract_from_active_escrow_by_token (pay_token payment) (pay_amount payment) s2) (\<lambda>s3.
     Ok (s3, b\<lparr>bt_balance := (bt_balance b)\<lparr>bal_organizer_amount := organizer, bal_platform_fee := fee\<rparr>,
                bt_refunded := refunded, bt_count := count\<rparr>))))))))"

fun bulk_refund_loop ::
    "ticket_env \<Rightarrow> string list \<Rightarrow> batch \<Rightarrow> 'a ticket_ledger_scheme \<Rightarrow> (ticket_error, 'a ticket_ledger_scheme \<times> batch) result" where
  "bulk_refund_loop env [] b s = Ok (s, b)"
| "bulk_refund_loop env (payment_id # ids) b s =
     (case tk_payments s payment_id of
        Some payment \<Rightarrow>
          if pay_status payment = Confirmed
          then rbind (bulk_refund_one env payment b s) (\<lambda>(s1, b1). bulk_refund_loop env ids b1 s1)
          else bulk_refund_loop env ids b s
      | None \<Rightarrow> bulk_refund_loop env ids b s)"

text \<open>The balance is written and the escrow total lowered once per batch.\<close>

definition finish_batch ::
    "string \<Rightarrow> batch \<Rightarrow> 'a ticket_ledger_scheme \<Rightarrow> (ticket_error, 'a ticket_ledger_scheme) result" where
  "finish_batch event_id b s =
     (if bt_count b > 0
      then subtract_from_active_escrow_total (bt_refunded b) (set_event_balance event_id (bt_balance b) s)
      else Ok s)"

definition trigger_bulk_refund ::
    "ticket_env \<Rightarrow> string \<Rightarrow> nat \<Rightarrow> 'a ticket_ledger_scheme \<Rightarrow> (ticket_error, 'a ticket_ledger_scheme \<times> nat) result" where
  "trigger_bulk_refund env event_id batch_size s =
     (if \<not> tk_initialized s then Trap PanicTrap
      else if tk_paused s then Err ContractPaused
      else
        rbind (lookup_event env event_id s) (\<lambda>event_info.
        rbind (require_auth env (ei_organizer event_info)) (\<lambda>_.
        if ei_is_active event_info \<or> ei_status event_info \<noteq> Cancelled then Err EventNotCompleted
        else
          let start_index = tk_bulk_index s event_id;
              payment_ids = get_event_payments event_id s;
              total_payments = length payment_ids
          in
          if start_index \<ge> total_payments then Ok (s, 0)
          else
            rbind (add_u 32 start_index batch_size) (\<lambda>upper.
            let end_index = min upper total_payments in
            rbind (bulk_refund_loop env (take (end_index - start_index) (drop start_index payment_ids))
                     \<lparr>bt_balance = tk_balances s event_id, bt_refunded = 0, bt_count = 0\<rparr> s) (\<lambda>(s1, b).
            rbind (finish_batch event_id b s1) (\<lambda>s2.
            Ok (tpublish (BulkRefundProcessed_event event_id (bt_count b) (bt_refunded b) (timestamp env))
                  (s2\<lparr>tk_bulk_index := (tk_bulk_index s2)(event_id := end_index)\<rparr>), bt_count b)))))))"

definition partial_refund_one ::
    "ticket_env \<Rightarrow> int \<Rightarrow> payment \<Rightarrow> batch \<Rightarrow> 'a ticket_ledger_scheme
     \<Rightarrow> (ticket_error, 'a ticket_ledger_scheme \<times> batch) result" where
  "partial_refund_one env refund_amount payment b s =
     rbind (transfer_tokens env (pay_token payment) (current_contract env) (pay_buyer payment) refund_amount s) (\<lambda>s1.
     rbind (add_i128 (pay_refunded_amount payment) refund_amount) (\<lambda>refunded_amount.
     rbind (sub_i128 (pay_organizer_amount payment) refund_amount) (\<lambda>organizer_amount.
     rbind (store_payment (payment\<lparr>pay_refunded_amount := refunded_amount, pay_organizer_amount := organizer_amount\<rparr>) s1) (\<lambda>s2.
     rbind (sub_i128 (bal_organizer_amount (bt_balance b)) refund_amount) (\<lambda>organizer.
     rbind (add_i128 (bt_refunded b) refund_amount) (\<lambda>refunded.
     rbind (add_u 32 (bt_count b) 1) (\<lambda>count.
     rbind (subtract_from_active_escrow_by_token (pay_token payment) refund_amount s2) (\<lambda>s3.
     Ok (s3, b\<lparr>bt_balance := (bt_balance b)\<lparr>bal_organizer_amount := organizer\<rparr>,
                bt_refunded := refunded, bt_count := count\<rparr>)))))))))"

fun partial_refund_loop ::
    "ticket_env \<Rightarrow> nat \<Rightarrow> string list \<Rightarrow> batch \<Rightarrow> 'a ticket_ledger_scheme
     \<Rightarrow> (ticket_error, 'a ticket_ledger_scheme \<times> batch) result" where
  "partial_refund_loop env active_pct [] b s = Ok (s, b)"
| "partial_refund_loop env active_pct (payment_id # ids) b s =
     (case tk_payments s payment_id of
        Some payment \<Rightarrow>
          if pay_status payment = Confirmed
          then
            rbind (ok_or (checked_mul_i128 (pay_amount payment) (int active_pct)) ArithmeticError) (\<lambda>v.
            let refund_amount = trunc_div v (int MAX_BPS) in
            if refund_amount > 0 \<and> pay_organizer_amount payment \<ge> refund_amount
            then rbind (partial_refund_one env refund_amount payment b s) (\<lambda>(s1, b1).
                 partial_refund_loop env active_pct ids b1 s1)
            else partial_refund_loop env active_pct ids b s)
          else partial_refund_loop env active_pct ids b s
      | None \<Rightarrow> partial_refund_loop env active_pct ids b s)"

definition reset_partial_refund :: "string \<Rightarrow> 'a ticket_ledger_scheme \<Rightarrow> 'a ticket_ledger_scheme" where
  "reset_partial_refund event_id s =
     s\<lparr>tk_partial_percentage := (tk_partial_percentage s)(event_id := 0),
       tk_partial_index := (tk_partial_index s)(event_id := 0)\<rparr>"

definition issue_partial_refund ::
    "ticket_env \<Rightarrow> string \<Rightarrow> nat \<Rightarrow> nat \<Rightarrow> 'a ticket_ledger_scheme
     \<Rightarrow> (ticket_error, 'a ticket_ledger_scheme \<times> nat) result" where
  "issue_partial_refund env event_id percentage_bps batch_size s =
     (if \<not> tk_initialized s then Trap PanicTrap
      else if tk_paused s then Err ContractPaused
      else if percentage_bps > MAX_BPS then Trap PanicTrap
      else
        rbind (lookup_event env event_id s) (\<lambda>event_info.
        rbind (require_auth env (ei_organizer event_info)) (\<lambda>_.
        let start_index = tk_partial_index s event_id;
            payment_ids = get_event_payments event_id s;
            total_payments = length payment_ids
        in
        if start_index \<ge> total_payments
        then Ok (if tk_partial_percentage s event_id > 0 then reset_partial_refund event_id s else s, 0)
        else
          let s1 = (if start_index = 0
                    then s\<lparr>tk_partial_percentage := (tk_partial_percentage s)(event_id := percentage_bps)\<rparr>
                    else s);
              active_pct = tk_partial_percentage s1 event_id
          in
          rbind (add_u 32 start_index batch_size) (\<lambda>upper.
          let end_index = min upper total_payments in
          rbind (partial_refund_loop env active_pct (take (end_index - start_index) (drop start_index payment_ids))
                   \<lparr>bt_balance = tk_balances s1 event_id, bt_refunded = 0, bt_count = 0\<rparr> s1) (\<lambda>(s2, b).
          rbind (finish_batch event_id b s2) (\<lambda>s3.
          let s4 = s3\<lparr>tk_partial_index := (tk_partial_index s3)(event_id := end_index)\<rparr>;
              s5 = (if end_index \<ge> total_payments then reset_partial_refund event_id s4 else s4)
          in
          Ok (tpublish (PartialRefundProcessed_event event_id (bt_count b) (bt_refunded b) active_pct (timestamp env))
                s5, bt_count b)))))))"


section \<open>After a dispute\<close>

definition cascade_one ::
    "ticket_env \<Rightarrow> string \<Rightarrow> payment \<Rightarrow> nat \<Rightarrow> 'a ticket_ledger_scheme \<Rightarrow> (ticket_error, 'a ticket_ledger_scheme \<times> nat) result" where
  "cascade_one env event_id payment refunded s =
     rbind (transfer_tokens env (pay_token payment) (current_contract env) (pay_buyer payment) (pay_amount payment) s) (\<lambda>s1.
     rbind (store_payment (payment\<lparr>pay_status := Refunded, pay_confirmed_at := Some (timestamp env)\<rparr>) s1) (\<lambda>s2.
     rbind (sub_i128 0 (pay_organizer_amount payment)) (\<lambda>neg_org.
     rbind (sub_i128 0 (pay_platform_fee payment)) (\<lambda>neg_fee.
     rbind (update_event_balance event_id neg_org neg_fee s2) (\<lambda>s3.
     rbind (subtract_from_active_escrow_total (pay_amount payment) s3) (\<lambda>s4.
     rbind (subtract_from_active_escrow_by_token (pay_token payment) (pay_amount payment) s4) (\<lambda>s5.
     rbind (add_u 32 refunded 1) (\<lambda>count.
     Ok (s5, count)))))))))"

fun cascade_loop ::
    "ticket_env \<Rightarrow> string \<Rightarrow> string list \<Rightarrow> nat \<Rightarrow> 'a ticket_ledger_scheme
     \<Rightarrow> (ticket_error, 'a ticket_ledger_scheme \<times> nat) result" where
  "cascade_loop env event_id [] refunded s = Ok (s, refunded)"
| "cascade_loop env event_id (payment_id # ids) refunded s =
     (case tk_payments s payment_id of
        Some payment \<Rightarrow>
          if pay_status payment = Confirmed
          then rbind (cascade_one env event_id payment refunded s) (\<lambda>(s1, count). cascade_loop env event_id ids count s1)
          else cascade_loop env event_id ids refunded s
      | None \<Rightarrow> cascade_loop env event_id ids refunded s)"

definition trigger_dispute_refund_cascade ::
    "ticket_env \<Rightarrow> string \<Rightarrow> 'a ticket_ledger_scheme \<Rightarrow> (ticket_error, 'a ticket_ledger_scheme \<times> nat) result" where
  "trigger_dispute_refund_cascade env event_id s =
     (if \<not> tk_initialized s then Trap PanicTrap
      else if tk_paused s then Err ContractPaused
      else
        rbind (unwrap (tk_event_registry s)) (\<lambda>registry.
        rbind (ok_or (registry_dispute env registry event_id) EventNotFound) (\<lambda>status.
        if status \<noteq> ResolvedBuyer then Err DisputeNotResolved
        else
          rbind (cascade_loop env event_id (get_event_payments event_id s) 0 s) (\<lambda>(s1, refunded).
          Ok (tpublish (BulkRefundProcessed_event event_id refunded 0 (timestamp env)) s1, refunded)))))"

end
