(* ===== verification/Ticket_Funds.thy ===== *)
theory Ticket_Funds
  imports Ticket_Sales
begin

text \<open>
  Paying out what the ticket payment contract holds
  (\<open>src/contract/contracts/ticket_payment/src/contract.rs\<close> and \<open>escrow.rs\<close>): the organizer's withdrawals and
  claim, the platform's fees and the milestone escrow.
\<close>

section \<open>The organizer\<close>

definition ESCROW_DELAY :: nat where "ESCROW_DELAY = 86400"
definition DUST_THRESHOLD :: int where "DUST_THRESHOLD = 10000"

fun highest_met :: "int \<Rightarrow> ticket_milestone list \<Rightarrow> nat \<Rightarrow> nat" where
  "highest_met current_supply [] m = m"
| "highest_met current_supply (x # xs) m =
     highest_met current_supply xs
       (if current_supply \<ge> mst_sales_threshold x \<and> mst_release_percent x > m then mst_release_percent x else m)"

definition release_percent :: "ticket_event_info \<Rightarrow> nat" where
  "release_percent event_info =
     (case ei_milestone_plan event_info of
        Some milestones \<Rightarrow>
          if milestones \<noteq> [] then highest_met (ei_current_supply event_info) milestones 0 else MAX_BPS
      | None \<Rightarrow> MAX_BPS)"

definition withdraw_organizer_funds ::
    "ticket_env \<Rightarrow> string \<Rightarrow> address \<Rightarrow> 'a ticket_ledger_scheme
     \<Rightarrow> (ticket_error, 'a ticket_ledger_scheme \<times> int) result" where
  "withdraw_organizer_funds env event_id token_address s =
     rbind (lookup_event env event_id s) (\<lambda>event_info.
     rbind (require_auth env (ei_organizer event_info)) (\<lambda>_.
     rbind (if ei_end_time event_info > 0
            then rbind (add_u 64 (ei_end_time event_info) ESCROW_DELAY) (\<lambda>release_at.
                 if timestamp env < release_at then Err EventNotCompleted else Ok ())
            else Ok ()) (\<lambda>_.
     let balance = tk_balances s event_id in
     rbind (is_event_disputed env event_id s) (\<lambda>disputed.
     if disputed then Err EventDisputed
     else if ei_status event_info = Cancelled then Err EventCancelled
     else if ei_min_sales_target event_info > 0 \<and> \<not> ei_goal_met event_info then Err GoalNotMet
     else
       rbind (ok_or (checked_add_i128 (bal_organizer_amount balance) (bal_total_withdrawn balance)) ArithmeticError) (\<lambda>total_revenue.
       if total_revenue = 0 then Ok (s, 0)
       else
         rbind (ok_or (checked_mul_div total_revenue (int (release_percent event_info)) (int MAX_BPS)) ArithmeticError) (\<lambda>max_allowed.
         rbind (ok_or (checked_sub_i128 max_allowed (bal_total_withdrawn balance)) ArithmeticError) (\<lambda>available.
         if available \<le> 0 then Ok (s, 0)
         else
           let amount = (if available > bal_organizer_amount balance then bal_organizer_amount balance else available) in
           rbind (transfer_tokens env token_address (current_contract env) (ei_organizer event_info) amount s) (\<lambda>s1.
           rbind (ok_or (checked_sub_i128 (bal_organizer_amount balance) amount) ArithmeticError) (\<lambda>organizer.
           rbind (ok_or (checked_add_i128 (bal_total_withdrawn balance) amount) ArithmeticError) (\<lambda>withdrawn.
           rbind (subtract_from_active_escrow_total amount
                    (set_event_balance event_id \<lparr>bal_organizer_amount = organizer,
                       bal_total_withdrawn = withdrawn, bal_platform_fee = bal_platform_fee balance\<rparr> s1)) (\<lambda>s2.
           rbind (subtract_from_active_escrow_by_token token_address amount s2) (\<lambda>s3.
           Ok (s3, amount)))))))))))))"

definition claimed_amount :: "ticket_env \<Rightarrow> address \<Rightarrow> event_balance \<Rightarrow> 'a ticket_ledger_scheme \<Rightarrow> int" where
  "claimed_amount env token_address balance s =
     (let organizer_amount = bal_organizer_amount balance;
          contract_token_balance = token_balance env (tk_transfers s) token_address (current_contract env)
      in
      if organizer_amount > 0 \<and> organizer_amount \<le> DUST_THRESHOLD \<and> contract_token_balance \<ge> organizer_amount
      then max (unwrap_or (checked_sub_i128 contract_token_balance (bal_platform_fee balance)) organizer_amount)
             organizer_amount
      else organizer_amount)"

definition claim_revenue ::
    "ticket_env \<Rightarrow> string \<Rightarrow> address \<Rightarrow> 'a ticket_ledger_scheme
     \<Rightarrow> (ticket_error, 'a ticket_ledger_scheme \<times> int) result" where
  "claim_revenue env event_id token_address s =
     (if tk_paused s then Err ContractPaused
      else
        rbind (lookup_event env event_id s) (\<lambda>event_info.
        rbind (require_auth env (ei_organizer event_info)) (\<lambda>_.
        if ei_is_active event_info \<or> ei_status event_info \<noteq> Inactive then Err EventNotCompleted
        else if ei_min_sales_target event_info > 0 \<and> \<not> ei_goal_met event_info then Err GoalNotMet
        else
          rbind (is_event_disputed env event_id s) (\<lambda>disputed.
          if disputed then Err EventDisputed
          else
            let balance = tk_balances s event_id in
            if bal_organizer_amount balance = 0 \<and> bal_platform_fee balance = 0 then Err NoFundsAvailable
            else
              rbind (unwrap (tk_platform_wallet s)) (\<lambda>platform_wallet.
              let organizer_amount = claimed_amount env token_address balance s;
                  s1 = (if bal_platform_fee balance > 0
                        then tpublish (FeeSettled_event event_id platform_wallet (bal_platform_fee balance)
                               (unwrap_or (ei_custom_fee_bps event_info) (ei_platform_fee_percent event_info))
                               (timestamp env)) s
                        else s)
              in
              rbind (if organizer_amount > 0
                     then transfer_tokens env token_address (current_contract env) (ei_payment_address event_info)
                            organizer_amount s1
                     else Ok s1) (\<lambda>s2.
              rbind (add_i128 (bal_total_withdrawn balance) organizer_amount) (\<lambda>withdrawn.
              let s3 = set_event_balance event_id \<lparr>bal_organizer_amount = 0, bal_total_withdrawn = withdrawn,
                         bal_platform_fee = 0\<rparr> s2
              in
              rbind (if organizer_amount > 0
                     then rbind (subtract_from_active_escrow_total organizer_amount s3)
                            (subtract_from_active_escrow_by_token token_address organizer_amount)
                     else Ok s3) (\<lambda>s4.
              Ok (tpublish (RevenueClaimed_event event_id (ei_organizer event_info) organizer_amount (timestamp env)) s4,
                  organizer_amount))))))))) "


section \<open>The platform\<close>

definition settle_platform_fees ::
    "ticket_env \<Rightarrow> string \<Rightarrow> 'a ticket_ledger_scheme \<Rightarrow> (ticket_error, 'a ticket_ledger_scheme \<times> int) result" where
  "settle_platform_fees env event_id s =
     rbind (ticket_require_admin env s) (\<lambda>_.
     let balance = tk_balances s event_id in
     if bal_platform_fee balance = 0 then Ok (s, 0)
     else
       rbind (unwrap (tk_platform_wallet s)) (\<lambda>platform_wallet.
       Ok (tpublish (FeeSettled_event event_id platform_wallet (bal_platform_fee balance) 0 (timestamp env))
             (set_event_balance event_id (balance\<lparr>bal_platform_fee := 0\<rparr>) s), bal_platform_fee balance)))"

definition charge_daily_cap ::
    "ticket_env \<Rightarrow> int \<Rightarrow> address \<Rightarrow> 'a ticket_ledger_scheme \<Rightarrow> (ticket_error, 'a ticket_ledger_scheme) result" where
  "charge_daily_cap env amount token_address s =
     (let cap = tk_withdrawal_cap s token_address in
      if cap > 0
      then
        let current_day = timestamp env div 86400 in
        rbind (ok_or (checked_add_i128 (tk_daily_withdrawn s (token_address, current_day)) amount) ArithmeticError) (\<lambda>n.
        if n > cap then Err WithdrawalCapExceeded
        else add_to_daily_withdrawn_amount token_address current_day amount s)
      else Ok s)"

definition withdraw_platform_fees ::
    "ticket_env \<Rightarrow> int \<Rightarrow> address \<Rightarrow> 'a ticket_ledger_scheme \<Rightarrow> (ticket_error, 'a ticket_ledger_scheme) result" where
  "withdraw_platform_fees env amount token_address s =
     rbind (ticket_require_admin env s) (\<lambda>_.
     if amount \<le> 0 then Err ArithmeticError
     else if amount > tk_fees s token_address then Err InsufficientFees
     else
       rbind (charge_daily_cap env amount token_address s) (\<lambda>s1.
       rbind (unwrap (tk_platform_wallet s1)) (\<lambda>platform_wallet.
       rbind (transfer_tokens env token_address (current_contract env) platform_wallet amount s1) (\<lambda>s2.
       rbind (subtract_from_total_fees_collected_by_token token_address amount s2) (\<lambda>s3.
       rbind (subtract_from_active_escrow_total amount s3) (\<lambda>s4.
       subtract_from_active_escrow_by_token token_address amount s4))))))"


section \<open>Milestone escrow\<close>

text \<open>
  The loop that reads the milestones runs over all indexes below \<open>2 ^ 32 - 1\<close> and leaves at the first index
  after 0 that is unset; index 0 may be unset.  With a bound on the indexes left it is a recursion.
\<close>

fun milestones_from :: "nat \<Rightarrow> nat \<Rightarrow> (nat \<Rightarrow> escrow_milestone option) \<Rightarrow> escrow_milestone list" where
  "milestones_from 0 i get_at = []"
| "milestones_from (Suc fuel) i get_at =
     (case get_at i of
        Some m \<Rightarrow> m # milestones_from fuel (Suc i) get_at
      | None \<Rightarrow> if i > 0 then [] else milestones_from fuel (Suc i) get_at)"

definition get_escrow_milestones :: "string \<Rightarrow> 'a ticket_scheme \<Rightarrow> escrow_milestone list" where
  "get_escrow_milestones event_id s =
     milestones_from (2 ^ 32 - 1) 0 (\<lambda>i. tk_escrow_milestones s (event_id, i))"

fun release_loop ::
    "int \<Rightarrow> int \<Rightarrow> nat \<Rightarrow> escrow_milestone list \<Rightarrow> nat \<Rightarrow> int \<times> int \<times> nat \<Rightarrow> (ticket_error, int \<times> int \<times> nat) result" where
  "release_loop organizer_amount current_supply reached [] i acc = Ok acc"
| "release_loop organizer_amount current_supply reached (m # ms) i (amount_released, total_released, newly_reached) =
     (if i < reached \<or> ms_released m \<or> current_supply < ms_sales_threshold m
      then release_loop organizer_amount current_supply reached ms (Suc i) (amount_released, total_released, newly_reached)
      else
        rbind (ok_or (checked_mul_div organizer_amount (int (ms_release_percent m)) 10000) ArithmeticError) (\<lambda>release_amount.
        rbind (if release_amount > 0
               then
                 rbind (ok_or (checked_add_i128 amount_released release_amount) ArithmeticError) (\<lambda>a.
                 rbind (ok_or (checked_add_i128 total_released release_amount) ArithmeticError) (\<lambda>t. Ok (a, t)))
               else Ok (amount_released, total_released)) (\<lambda>(a, t).
        rbind (ok_or (checked_add_u 32 newly_reached 1) ArithmeticError) (\<lambda>n.
        release_loop organizer_amount current_supply reached ms (Suc i) (a, t, n)))))"

definition release_escrow_milestone ::
    "ticket_env \<Rightarrow> string \<Rightarrow> 'a ticket_scheme \<Rightarrow> (ticket_error, 'a ticket_scheme \<times> int) result" where
  "release_escrow_milestone env event_id s =
     rbind (lookup_event env event_id s) (\<lambda>event_info.
     if ei_is_active event_info \<or> ei_status event_info = Active then Err EventInactive
     else
       rbind (require_auth env (ei_organizer event_info)) (\<lambda>_.
       rbind (ok_or (tk_escrow_state s event_id) EscrowNotInitialized) (\<lambda>escrow_state.
       let balance = tk_balances s event_id in
       rbind (release_loop (bal_organizer_amount balance) (ei_current_supply event_info)
                (esc_milestones_reached escrow_state) (get_escrow_milestones event_id s) 0
                (0, esc_total_released escrow_state, 0)) (\<lambda>(amount_released, total_released, newly_reached).
       if amount_released = 0 then Ok (s, 0)
       else
         rbind (ok_or (checked_add_u 32 (esc_milestones_reached escrow_state) newly_reached) ArithmeticError) (\<lambda>reached.
         rbind (ok_or (checked_sub_i128 (bal_organizer_amount balance) amount_released) ArithmeticError) (\<lambda>organizer.
         rbind (ok_or (checked_add_i128 (bal_total_withdrawn balance) amount_released) ArithmeticError) (\<lambda>withdrawn.
         let s1 = set_event_balance event_id
                    (balance\<lparr>bal_organizer_amount := organizer, bal_total_withdrawn := withdrawn\<rparr>) s
         in
         Ok (tpublish (MilestoneReleased_event event_id reached amount_released (timestamp env))
               (s1\<lparr>tk_escrow_state := (tk_escrow_state s1)(event_id \<mapsto>
                  escrow_state\<lparr>esc_total_released := total_released, esc_milestones_reached := reached\<rparr>)\<rparr>),
             amount_released))))))))"

text \<open>The two writers of escrow plans, which no entry point calls.\<close>

definition init_escrow_for_event :: "string \<Rightarrow> 'a ticket_scheme \<Rightarrow> 'a ticket_scheme \<times> escrow_state" where
  "init_escrow_for_event event_id s =
     (let st = \<lparr>esc_total_collected = 0, esc_total_released = 0, esc_milestones_reached = 0\<rparr>
      in (s\<lparr>tk_escrow_state := (tk_escrow_state s)(event_id \<mapsto> st)\<rparr>, st))"

definition store_escrow_milestone :: "string \<Rightarrow> nat \<Rightarrow> escrow_milestone \<Rightarrow> 'a ticket_scheme \<Rightarrow> 'a ticket_scheme" where
  "store_escrow_milestone event_id index m s =
     s\<lparr>tk_escrow_milestones := (tk_escrow_milestones s)((event_id, index) \<mapsto> m)\<rparr>"

end
