(* ===== verification/Ticket_Market.thy ===== *)
theory Ticket_Market
  imports Ticket_Sales
begin

text \<open>
  The secondary market and the auctions of the ticket payment contract
  (\<open>src/contract/contracts/ticket_payment/src/contract.rs\<close> and \<open>resale.rs\<close>): transferring a ticket, resale
  listings, bids and the close of an auction.
\<close>

section \<open>Transfer\<close>

text \<open>The highest price that the organizer's resale cap allows for a tier.\<close>

definition resale_max_price :: "int \<Rightarrow> nat \<Rightarrow> (ticket_error, int) result" where
  "resale_max_price price cap_bps =
     rbind (ok_or (checked_mul_i128 price (unwrap_or (checked_add_i128 (int MAX_BPS) (int cap_bps)) i128_max))
              ArithmeticError) (\<lambda>v. Ok (trunc_div v (int MAX_BPS)))"

definition check_resale_cap :: "ticket_event_info \<Rightarrow> string \<Rightarrow> int \<Rightarrow> (ticket_error, unit) result" where
  "check_resale_cap event_info tier_id price =
     (case ei_resale_cap_bps event_info of
        Some cap_bps \<Rightarrow>
          rbind (ok_or (map_of (ei_tiers event_info) tier_id) TierNotFound) (\<lambda>tier.
          rbind (resale_max_price (tt_price tier) cap_bps) (\<lambda>max_price.
          if price > max_price then Err ResalePriceExceedsCap else Ok ()))
      | None \<Rightarrow> Ok ())"

definition collect_transfer_fee ::
    "ticket_env \<Rightarrow> payment \<Rightarrow> 'a ticket_ledger_scheme \<Rightarrow> (ticket_error, 'a ticket_ledger_scheme \<times> int) result" where
  "collect_transfer_fee env payment s =
     (let transfer_fee_bps = unwrap_or (tk_transfer_fee s (pay_event payment)) TRANSFER_FEE_BPS in
      if transfer_fee_bps > 0
      then
        rbind (ok_or (checked_mul_div (pay_amount payment) (int transfer_fee_bps) (int MAX_BPS)) ArithmeticError) (\<lambda>fee.
        if fee > 0
        then
          rbind (transfer_tokens_from env (pay_token payment) (pay_buyer payment) (current_contract env) fee s) (\<lambda>s1.
          rbind (update_event_balance (pay_event payment) fee 0 s1) (\<lambda>s2. Ok (s2, fee)))
        else Ok (s, fee))
      else Ok (s, 0))"

definition move_ticket ::
    "string \<Rightarrow> address \<Rightarrow> address \<Rightarrow> payment \<Rightarrow> 'a ticket_payments_scheme
     \<Rightarrow> (ticket_error, 'a ticket_payments_scheme) result" where
  "move_ticket payment_id from to payment s =
     add_payment_to_buyer_index to payment_id
       (remove_payment_from_buyer_index from payment_id (put_payment payment_id (payment\<lparr>pay_buyer := to\<rparr>) s))"

definition transfer_ticket ::
    "ticket_env \<Rightarrow> string \<Rightarrow> address \<Rightarrow> int option \<Rightarrow> 'a ticket_ledger_scheme
     \<Rightarrow> (ticket_error, 'a ticket_ledger_scheme) result" where
  "transfer_ticket env payment_id to sale_price s =
     (if \<not> tk_initialized s then Trap PanicTrap
      else if tk_paused s then Err ContractPaused
      else
        rbind (ok_or (tk_payments s payment_id) PaymentNotFound) (\<lambda>payment.
        if pay_status payment \<noteq> Confirmed then Err InvalidPaymentStatus
        else if pay_is_soulbound payment then Err NonTransferable
        else
          let from = pay_buyer payment in
          rbind (require_auth env from) (\<lambda>_.
          if from = to then Err InvalidAddress
          else
            rbind (validate_recipient env to) (\<lambda>_.
            rbind (case sale_price of
                     Some price \<Rightarrow>
                       rbind (lookup_event env (pay_event payment) s) (\<lambda>event_info.
                       check_resale_cap event_info (pay_tier payment) price)
                   | None \<Rightarrow> Ok ()) (\<lambda>_.
            rbind (collect_transfer_fee env payment s) (\<lambda>(s1, fee).
            rbind (move_ticket payment_id from to payment s1) (\<lambda>s2.
            Ok (tpublish (TicketTransferred_event payment_id from to fee (timestamp env)) s2))))))))"


section \<open>Resale\<close>

definition MAX_RESALE_ROYALTY_BPS :: nat where "MAX_RESALE_ROYALTY_BPS = 5000"

definition store_resale_listing :: "resale_listing \<Rightarrow> 'a ticket_scheme \<Rightarrow> 'a ticket_scheme" where
  "store_resale_listing listing s = s\<lparr>tk_listings := (tk_listings s)(lst_payment_id listing \<mapsto> listing)\<rparr>"

definition set_resale_royalty_bps ::
    "ticket_env \<Rightarrow> string \<Rightarrow> nat \<Rightarrow> 'a ticket_scheme \<Rightarrow> (ticket_error, 'a ticket_scheme) result" where
  "set_resale_royalty_bps env event_id bps s =
     rbind (ticket_require_admin env s) (\<lambda>_.
     if bps > MAX_RESALE_ROYALTY_BPS then Err InvalidRoyaltyBps
     else Ok (s\<lparr>tk_royalty_bps := (tk_royalty_bps s)(event_id := bps)\<rparr>))"

text \<open>
  The struct literal of \<open>list_for_resale\<close> leaves out \<open>price\<close>, \<open>max_price\<close> and \<open>royalty_bps\<close>, which the struct
  declares; nothing reads them.  Their values are the argument \<open>unset\<close>.
\<close>

definition list_for_resale ::
    "ticket_env \<Rightarrow> int \<times> int \<times> nat \<Rightarrow> string \<Rightarrow> int \<Rightarrow> 'a ticket_scheme \<Rightarrow> (ticket_error, 'a ticket_scheme) result" where
  "list_for_resale env unset payment_id ask_price s =
     (if \<not> tk_initialized s then Trap PanicTrap
      else if tk_paused s then Err ContractPaused
      else if ask_price \<le> 0 then Err InvalidPrice
      else
        rbind (ok_or (tk_payments s payment_id) PaymentNotFound) (\<lambda>payment.
        if pay_status payment \<noteq> Confirmed then Err InvalidPaymentStatus
        else
          rbind (require_auth env (pay_buyer payment)) (\<lambda>_.
          if (case tk_listings s payment_id of
                Some existing \<Rightarrow> lst_status existing = Listing_Active
              | None \<Rightarrow> False)
          then Err TicketAlreadyListed
          else
            rbind (unwrap (tk_event_registry s)) (\<lambda>registry.
            rbind (case registry_event env registry (pay_event payment) of
                     Some event_info \<Rightarrow> check_resale_cap event_info (pay_tier payment) ask_price
                   | None \<Rightarrow> Ok ()) (\<lambda>_.
            Ok (tpublish (ResaleListed_event payment_id (pay_buyer payment) ask_price (timestamp env))
                 (store_resale_listing
                    \<lparr>lst_payment_id = payment_id, lst_event_id = pay_event payment,
                      lst_seller = pay_buyer payment, lst_ask_price = ask_price,
                      lst_price = fst unset, lst_max_price = fst (snd unset), lst_royalty_bps = snd (snd unset),
                      lst_status = Listing_Active, lst_listed_at = timestamp env\<rparr> s)))))))"

definition cancel_resale_listing ::
    "ticket_env \<Rightarrow> string \<Rightarrow> 'a ticket_scheme \<Rightarrow> (ticket_error, 'a ticket_scheme) result" where
  "cancel_resale_listing env payment_id s =
     (if \<not> tk_initialized s then Trap PanicTrap
      else if tk_paused s then Err ContractPaused
      else
        rbind (ok_or (tk_listings s payment_id) ResaleListingNotFound) (\<lambda>listing.
        if lst_status listing \<noteq> Listing_Active then Err ResaleListingNotActive
        else
          rbind (require_auth env (lst_seller listing)) (\<lambda>_.
          Ok (tpublish (ResaleCancelled_event payment_id (lst_seller listing) (timestamp env))
               (store_resale_listing (listing\<lparr>lst_status := Listing_Cancelled\<rparr>) s)))))"

text \<open>The money of a resale: from the buyer into the contract, to the seller and to the organizer.\<close>

definition pay_resale ::
    "ticket_env \<Rightarrow> resale_listing \<Rightarrow> address \<Rightarrow> address \<Rightarrow> int \<Rightarrow> int \<Rightarrow> 'a ticket_scheme \<Rightarrow> (ticket_error, 'a ticket_scheme) result" where
  "pay_resale env listing buyer token royalty seller_proceeds s =
     (let contract_address = current_contract env in
      rbind (transfer_tokens_from env token buyer contract_address (lst_ask_price listing) s) (\<lambda>s1.
      rbind (if seller_proceeds > 0
             then transfer_tokens env token contract_address (lst_seller listing) seller_proceeds s1
             else Ok s1) (\<lambda>s2.
      if royalty > 0
      then
        rbind (unwrap (tk_event_registry s2)) (\<lambda>registry.
        transfer_tokens env token contract_address
          (case registry_event env registry (lst_event_id listing) of
             Some event_info \<Rightarrow> ei_organizer event_info
           | None \<Rightarrow> lst_seller listing) royalty s2)
      else Ok s2)))"

definition purchase_resale_ticket ::
    "ticket_env \<Rightarrow> string \<Rightarrow> address \<Rightarrow> int \<Rightarrow> 'a ticket_scheme \<Rightarrow> (ticket_error, 'a ticket_scheme) result" where
  "purchase_resale_ticket env payment_id buyer max_price s =
     (if \<not> tk_initialized s then Trap PanicTrap
      else if tk_paused s then Err ContractPaused
      else
        rbind (require_auth env buyer) (\<lambda>_.
        rbind (ok_or (tk_listings s payment_id) ResaleListingNotFound) (\<lambda>listing.
        if lst_status listing \<noteq> Listing_Active then Err ResaleListingNotActive
        else if buyer = lst_seller listing then Err InvalidAddress
        else
          let ask_price = lst_ask_price listing in
          if ask_price > max_price then Err PriceMismatch
          else
            let royalty_bps = tk_royalty_bps s (lst_event_id listing) in
            rbind (if royalty_bps > 0
                   then ok_or (checked_mul_div ask_price (int royalty_bps) (int MAX_BPS)) ArithmeticError
                   else Ok 0) (\<lambda>royalty.
            rbind (ok_or (checked_sub_i128 ask_price royalty) ArithmeticError) (\<lambda>seller_proceeds.
            rbind (unwrap (tk_usdc_token s)) (\<lambda>token_address.
            if token_allowance env (tk_transfers s) token_address buyer (current_contract env) < ask_price
            then Err InsufficientAllowance
            else
              rbind (pay_resale env listing buyer token_address royalty seller_proceeds s) (\<lambda>s1.
              rbind (ok_or (tk_payments s1 payment_id) PaymentNotFound) (\<lambda>payment.
              let s2 = put_payment payment_id (payment\<lparr>pay_buyer := buyer\<rparr>)
                         (remove_payment_from_buyer_index (lst_seller listing) payment_id s1)
              in
              rbind (add_payment_to_buyer_index buyer payment_id s2) (\<lambda>s3.
              Ok (tpublish (ResalePurchased_event payment_id (lst_seller listing) buyer ask_price royalty (timestamp env))
                   (store_resale_listing (listing\<lparr>lst_status := Listing_Completed\<rparr>) s3)))))))))))"


section \<open>Auctions\<close>

definition auction_of ::
    "ticket_env \<Rightarrow> ticket_event_info \<Rightarrow> string \<Rightarrow> (ticket_error, ticket_auction_config) result" where
  "auction_of env event_info tier_id =
     rbind (ok_or (map_of (ei_tiers event_info) tier_id) TierNotFound) (\<lambda>tier.
     case tt_auction_config tier of
       [] \<Rightarrow> Err NotAuctionTier
     | config # _ \<Rightarrow> Ok config)"

definition refund_previous_bid ::
    "ticket_env \<Rightarrow> highest_bid option \<Rightarrow> 'a ticket_scheme \<Rightarrow> (ticket_error, 'a ticket_scheme) result" where
  "refund_previous_bid env previous s =
     (case previous of
        Some prev \<Rightarrow>
          rbind (transfer_tokens env (bid_token prev) (current_contract env) (bid_bidder prev) (bid_amount prev) s) (\<lambda>s1.
          rbind (subtract_from_active_escrow_total (bid_amount prev) s1)
            (subtract_from_active_escrow_by_token (bid_token prev) (bid_amount prev)))
      | None \<Rightarrow> Ok s)"

definition place_bid ::
    "ticket_env \<Rightarrow> string \<Rightarrow> string \<Rightarrow> address \<Rightarrow> address \<Rightarrow> int \<Rightarrow> 'a ticket_scheme
     \<Rightarrow> (ticket_error, 'a ticket_scheme) result" where
  "place_bid env event_id ticket_tier_id bidder_address token_address amount s =
     (if \<not> tk_initialized s then Trap PanicTrap
      else if tk_paused s then Err ContractPaused
      else
        rbind (require_auth env bidder_address) (\<lambda>_.
        if token_address \<notin> tk_whitelist s then Err TokenNotWhitelisted
        else
          rbind (lookup_event env event_id s) (\<lambda>event_info.
          if \<not> ei_is_active event_info \<or> ei_status event_info = Cancelled then Err EventInactive
          else if \<not> event_accepts_token event_info token_address s then Err TokenNotWhitelisted
          else
            rbind (auction_of env event_info ticket_tier_id) (\<lambda>auction_config.
            if timestamp env > ac_end_time auction_config then Err AuctionEnded
            else
              let previous_bidder = tk_highest_bid s (event_id, ticket_tier_id) in
              rbind (case previous_bidder of
                       Some highest_bid \<Rightarrow>
                         ok_or (checked_add_i128 (bid_amount highest_bid) (ac_min_increment auction_config)) ArithmeticError
                     | None \<Rightarrow> Ok (ac_start_price auction_config)) (\<lambda>min_required.
              if amount < min_required then Err BidTooLow
              else if token_allowance env (tk_transfers s) token_address bidder_address (current_contract env) < amount
              then Err InsufficientAllowance
              else
                rbind (transfer_tokens_from env token_address bidder_address (current_contract env) amount s) (\<lambda>s1.
                rbind (add_to_active_escrow_total amount s1) (\<lambda>s2.
                rbind (add_to_active_escrow_by_token token_address amount s2) (\<lambda>s3.
                rbind (refund_previous_bid env previous_bidder s3) (\<lambda>s4.
                Ok (tpublish (BidPlaced_event event_id ticket_tier_id bidder_address amount (timestamp env))
                     (s4\<lparr>tk_highest_bid := (tk_highest_bid s4)((event_id, ticket_tier_id) \<mapsto>
                        \<lparr>bid_bidder = bidder_address, bid_token = token_address, bid_amount = amount\<rparr>)\<rparr>)))))))))))"

definition close_auction ::
    "ticket_env \<Rightarrow> string \<Rightarrow> string \<Rightarrow> string \<Rightarrow> 'a ticket_scheme \<Rightarrow> (ticket_error, 'a ticket_scheme) result" where
  "close_auction env payment_id event_id ticket_tier_id s =
     (if \<not> tk_initialized s then Trap PanicTrap
      else if tk_paused s then Err ContractPaused
      else
        rbind (lookup_event env event_id s) (\<lambda>event_info.
        if \<not> ei_is_active event_info \<or> ei_status event_info = Cancelled then Err EventInactive
        else
          rbind (auction_of env event_info ticket_tier_id) (\<lambda>auction_config.
          if timestamp env \<le> ac_end_time auction_config then Err AuctionNotEnded
          else if (event_id, ticket_tier_id) \<in> tk_auction_closed s then Err AuctionEnded
          else
            rbind (ok_or (tk_highest_bid s (event_id, ticket_tier_id)) NoFundsAvailable) (\<lambda>winning_bid.
            let amount = bid_amount winning_bid;
                s1 = s\<lparr>tk_auction_closed := insert (event_id, ticket_tier_id) (tk_auction_closed s)\<rparr>;
                fee_bps = unwrap_or (ei_custom_fee_bps event_info) (ei_platform_fee_percent event_info)
            in
            rbind (ok_or (checked_mul_div amount (int fee_bps) (int MAX_BPS)) ArithmeticError) (\<lambda>total_platform_fee.
            rbind (ok_or (checked_sub_i128 amount total_platform_fee) ArithmeticError) (\<lambda>total_organizer_amount.
            rbind (update_event_balance event_id total_organizer_amount total_platform_fee s1) (\<lambda>s2.
            rbind (add_to_total_volume_processed amount s2) (\<lambda>s3.
            rbind (add_to_total_fees_collected_by_token (bid_token winning_bid) total_platform_fee s3) (\<lambda>s4.
            rbind (call_registry env (IncrementInventory event_id ticket_tier_id (bid_bidder winning_bid) 1
                     (bid_token winning_bid)) s4) (\<lambda>s5.
            rbind (store_payment
                     \<lparr>pay_id = payment_id, pay_event = event_id, pay_buyer = bid_bidder winning_bid,
                       pay_owner = bid_bidder winning_bid, pay_tier = ticket_tier_id,
                       pay_token = bid_token winning_bid, pay_amount = amount,
                       pay_platform_fee = total_platform_fee, pay_organizer_amount = total_organizer_amount,
                       pay_status = Confirmed, pay_transaction_hash = [], pay_created_at = timestamp env,
                       pay_confirmed_at = Some (timestamp env), pay_refunded_amount = 0,
                       pay_is_soulbound = False, pay_last_checked_in_at = 0, pay_referral_amount = 0,
                       pay_referrer = None\<rparr> s5) (\<lambda>s6.
            Ok (tpublish (PaymentProcessed_event payment_id event_id (bid_bidder winning_bid) amount
                   total_platform_fee (timestamp env))
                 (tpublish (AuctionClosed_event event_id ticket_tier_id (bid_bidder winning_bid) amount
                    (timestamp env)) s6)))))))))))))"

end
