(* ===== verification/Ticket_Index.thy ===== *)
theory Ticket_Index
  imports Ticket_Refunds Ticket_Funds Ticket_Market
begin

text \<open>
  The payment indexes: the bucketed lists of the contract are append-only indexes in the sense of
  \<open>Sharded_Index\<close>, and every operation either leaves the index of payments by event alone, edits stored
  payments without moving them between events, or appends a new payment.
\<close>

section \<open>The bucketed lists\<close>

interpretation event_payments: sharded_index TICKET_SHARD_SIZE tk_event_shard tk_event_count append_event_payment
  by unfold_locales (auto simp: TICKET_SHARD_SIZE_def append_event_payment_def Let_def)

interpretation buyer_payments: sharded_index TICKET_SHARD_SIZE tk_buyer_shard tk_buyer_count append_buyer_payment
  by unfold_locales (auto simp: TICKET_SHARD_SIZE_def append_buyer_payment_def Let_def)

interpretation poaps: sharded_index TICKET_SHARD_SIZE tk_poap_shard tk_poap_count "\<lambda>a p. mark_poap_minted p a"
  by unfold_locales (auto simp: TICKET_SHARD_SIZE_def mark_poap_minted_def Let_def)

lemma get_event_payments_contents: "get_event_payments e s = event_payments.contents s e"
  by (simp add: get_event_payments_def event_payments.contents_def read_shards_def Let_def div_ceil_def)

lemma get_buyer_payments_contents: "get_buyer_payments a s = buyer_payments.contents s a"
  by (simp add: get_buyer_payments_def buyer_payments.contents_def read_shards_def Let_def div_ceil_def)

lemma get_poaps_contents: "get_poaps_by_attendee a s = poaps.contents s a"
  by (simp add: get_poaps_by_attendee_def poaps.contents_def read_shards_def Let_def div_ceil_def)


section \<open>The invariant\<close>

text \<open>A stored payment is stored under its own id, and the list of an event is exactly its payments.\<close>

definition payments_inv :: "'a ticket_payments_scheme \<Rightarrow> bool" where
  "payments_inv s \<longleftrightarrow>
     (\<forall>i p. tk_payments s i = Some p \<longrightarrow> pay_id p = i)
     \<and> (\<forall>e i. (e, i) \<in> tk_event_payment s \<longleftrightarrow> (\<exists>p. tk_payments s i = Some p \<and> pay_event p = e))
     \<and> (\<forall>e. event_payments.dense s e \<and> distinct (get_event_payments e s)
          \<and> set (get_event_payments e s) = {i. (e, i) \<in> tk_event_payment s})"

lemma payments_invD:
  assumes "payments_inv s"
  shows "tk_payments s i = Some p \<Longrightarrow> pay_id p = i"
    and "i \<in> set (get_event_payments e s) \<longleftrightarrow> (\<exists>p. tk_payments s i = Some p \<and> pay_event p = e)"
    and "distinct (get_event_payments e s)"
  using assms by (auto simp: payments_inv_def)

section \<open>What the operations leave alone\<close>

text \<open>An operation that sells no ticket: the governors stay, and the payments are at most edited.\<close>

definition keeps_tickets :: "'a ticket_payments_scheme \<Rightarrow> 'a ticket_payments_scheme \<Rightarrow> bool" where
  "keeps_tickets s t \<longleftrightarrow> same_governors s t \<and> edited s t"

lemma keeps_tickets_refl [simp]: "keeps_tickets s s"
  by (simp add: keeps_tickets_def)

lemma keeps_tickets_trans: "keeps_tickets s t \<Longrightarrow> keeps_tickets t u \<Longrightarrow> keeps_tickets s u"
  unfolding keeps_tickets_def by (blast intro: same_governors_trans edited_trans)

lemma keeps_tickets_editI:
  assumes "same_governors s t" "tk_payments s i = Some p" "same_ticket p q" "tk_payments t = (tk_payments s)(i \<mapsto> q)"
    "tk_event_payment t = tk_event_payment s" "tk_event_shard t = tk_event_shard s" "tk_event_count t = tk_event_count s"
  shows "keeps_tickets s t"
  using assms by (auto simp: keeps_tickets_def edited_def)

lemma keeps_tickets_sameI:
  assumes "same_governors s t" "tk_payments t = tk_payments s"
    "tk_event_payment t = tk_event_payment s" "tk_event_shard t = tk_event_shard s" "tk_event_count t = tk_event_count s"
  shows "keeps_tickets s t"
  using assms by (auto simp: keeps_tickets_def edited_def)

lemma status_index_fields [simp]:
  "tk_payments (update_payment_status_index e a b i s) = tk_payments s"
  "tk_event_payment (update_payment_status_index e a b i s) = tk_event_payment s"
  "tk_event_shard (update_payment_status_index e a b i s) = tk_event_shard s"
  "tk_event_count (update_payment_status_index e a b i s) = tk_event_count s"
  "tk_transfers (update_payment_status_index e a b i s) = tk_transfers s"
  "tk_calls (update_payment_status_index e a b i s) = tk_calls s"
  "tk_event_registry (update_payment_status_index e a b i s) = tk_event_registry s"
  "ticket_payments.more (update_payment_status_index e a b i s) = ticket_payments.more s"
  by (simp_all add: update_payment_status_index_def add_payment_to_status_index_def
      remove_payment_from_status_index_def)

lemma status_index_governors [simp]: "same_governors s (update_payment_status_index e a b i s)"
  by (simp add: same_governors_def update_payment_status_index_def add_payment_to_status_index_def
      remove_payment_from_status_index_def)

lemmas keeps_simps = keeps_tickets_def same_governors_def edited_def

lemma keeps_tickets_edit:
  assumes "keeps_tickets r s" "tk_payments r i = Some p" "same_ticket p q" "same_governors s t"
    "tk_payments t = (tk_payments s)(i \<mapsto> q)" "tk_event_payment t = tk_event_payment s"
    "tk_event_shard t = tk_event_shard s" "tk_event_count t = tk_event_count s"
  shows "keeps_tickets r t"
  using assms by (auto simp: keeps_tickets_def edited_def intro: same_governors_trans)

lemma mark_refunded_keeps:
  "keeps_tickets r s \<Longrightarrow> tk_payments r i = Some p \<Longrightarrow> same_ticket p q \<Longrightarrow> keeps_tickets r (mark_refunded env i q st s)"
  by (erule keeps_tickets_edit)
    (auto simp: mark_refunded_def Let_def put_payment_def update_payment_status_index_def
      add_payment_to_status_index_def remove_payment_from_status_index_def same_governors_def)

lemma store_payment_keeps:
  assumes "store_payment q s = Ok t" "keeps_tickets r s" "tk_payments r (pay_id q) = Some p" "same_ticket p q"
  shows "keeps_tickets r t"
proof -
  have "tk_payments s (pay_id q) \<noteq> None" using assms(2,3) by (metis edited_NoneD keeps_tickets_def option.discI)
  then show ?thesis using assms(1) by (intro keeps_tickets_edit [OF assms(2-4)]) (auto simp: store_payment_def same_governors_def)
qed

lemma money_keeps:
  "transfer_tokens env tok a b n s = Ok t \<Longrightarrow> keeps_tickets s t"
  "transfer_tokens_from env' tok a b n s = Ok t \<Longrightarrow> keeps_tickets s t"
  "call_registry env' c s = Ok t \<Longrightarrow> keeps_tickets s t"
  by (auto simp: keeps_simps)

lemma accounts_keep:
  "update_event_balance e n m s = Ok t \<Longrightarrow> keeps_tickets s t"
  "add_to_total_volume_processed n s = Ok t \<Longrightarrow> keeps_tickets s t"
  "add_to_total_fees_collected_by_token k n s = Ok t \<Longrightarrow> keeps_tickets s t"
  "subtract_from_total_fees_collected_by_token k n s = Ok t \<Longrightarrow> keeps_tickets s t"
  "add_to_daily_withdrawn_amount k d n s = Ok t \<Longrightarrow> keeps_tickets s t"
  "add_to_active_escrow_total n s = Ok t \<Longrightarrow> keeps_tickets s t"
  "subtract_from_active_escrow_total n s = Ok t \<Longrightarrow> keeps_tickets s t"
  "add_to_active_escrow_by_token k n s = Ok t \<Longrightarrow> keeps_tickets s t"
  "subtract_from_active_escrow_by_token k n s = Ok t \<Longrightarrow> keeps_tickets s t"
  by (auto simp: keeps_simps)

lemma keeps_tickets_publish [simp]: "keeps_tickets s (tpublish e s)"
  by (simp add: keeps_simps)

lemma keeps_tickets_balance [simp]: "keeps_tickets s (set_event_balance e b s)"
  by (simp add: keeps_simps set_event_balance_def)

text \<open>
  The atomic steps as links of a chain: with them an operation keeps the tickets when each of its steps
  does.  In these proofs the steps stay opaque.
\<close>

lemmas step_simps = transfer_tokens_eq_Ok transfer_tokens_from_eq_Ok call_registry_eq_Ok
  update_event_balance_eq_Ok account_updates_eq_Ok

lemmas keeps_step = money_keeps [THEN keeps_tickets_trans [rotated]] accounts_keep [THEN keeps_tickets_trans [rotated]]

lemmas keeps_here = keeps_tickets_publish [THEN keeps_tickets_trans [rotated]]
  keeps_tickets_balance [THEN keeps_tickets_trans [rotated]] keeps_tickets_refl

lemma internal_refund_keeps:
  assumes "internal_refund env i s = Ok s'"
  shows "keeps_tickets s s'"
  using assms
  by (auto simp: internal_refund_def Let_def same_ticket_def simp del: step_simps split: if_splits
     elim!: keeps_step intro!: keeps_here mark_refunded_keeps)

lemma single_refunds_keep:
  "request_guest_refund env i s = Ok s' \<Longrightarrow> keeps_tickets s s'"
  "request_refund env n s = Ok s' \<Longrightarrow> keeps_tickets s s'"
  "admin_refund env i s = Ok s' \<Longrightarrow> keeps_tickets s s'"
  "claim_automatic_refund env i s = Ok s' \<Longrightarrow> keeps_tickets s s'"
  using internal_refund_keeps [of env _ s s']
  by (auto simp: request_guest_refund_def request_refund_def admin_refund_def claim_automatic_refund_def split: if_splits)

lemma claim_cancellation_refund_keeps:
  "claim_cancellation_refund env i s = Ok s' \<Longrightarrow> keeps_tickets s s'"
  by (auto simp: claim_cancellation_refund_def Let_def same_ticket_def simp del: step_simps split: if_splits
     elim!: keeps_step intro!: keeps_here mark_refunded_keeps)

lemma withdraw_organizer_funds_keeps:
  "withdraw_organizer_funds env e k s = Ok (s', v) \<Longrightarrow> keeps_tickets s s'"
  by (auto simp: withdraw_organizer_funds_def Let_def simp del: step_simps split: if_splits
     elim!: keeps_step intro!: keeps_here)

lemma claim_revenue_keeps:
  "claim_revenue env e k s = Ok (s', v) \<Longrightarrow> keeps_tickets s s'"
  by (auto simp: claim_revenue_def Let_def simp del: step_simps split: if_splits
     elim!: keeps_step intro!: keeps_here)

lemma platform_fees_keep:
  "settle_platform_fees env e s = Ok (s', v) \<Longrightarrow> keeps_tickets s s'"
  "withdraw_platform_fees env n k s = Ok s' \<Longrightarrow> keeps_tickets s s'"
  by (auto simp: settle_platform_fees_def withdraw_platform_fees_def charge_daily_cap_def Let_def
     simp del: step_simps split: if_splits elim!: keeps_step intro!: keeps_here)

lemma release_escrow_milestone_keeps:
  "release_escrow_milestone env e s = Ok (s', v) \<Longrightarrow> keeps_tickets s s'"
  by (auto simp: release_escrow_milestone_def Let_def keeps_simps set_event_balance_def split: if_splits)

lemma resale_keeps:
  "list_for_resale env u i n s = Ok s' \<Longrightarrow> keeps_tickets s s'"
  "cancel_resale_listing env i s = Ok s' \<Longrightarrow> keeps_tickets s s'"
  "set_resale_royalty_bps env e b s = Ok s' \<Longrightarrow> keeps_tickets s s'"
  by (auto simp: list_for_resale_def cancel_resale_listing_def set_resale_royalty_bps_def store_resale_listing_def
      keeps_simps split: if_splits)

text \<open>A batch writes a payment under the id it carries, which is the id it was read from.\<close>

definition own_ids :: "'a ticket_payments_scheme \<Rightarrow> bool" where
  "own_ids s \<longleftrightarrow> (\<forall>i p. tk_payments s i = Some p \<longrightarrow> pay_id p = i)"

lemma own_idsD: "own_ids s \<Longrightarrow> tk_payments s i = Some p \<Longrightarrow> pay_id p = i"
  by (simp add: own_ids_def)

lemma keeps_tickets_own_ids:
  assumes "keeps_tickets s t" "own_ids s"
  shows "own_ids t"
proof -
  have "rel_option same_ticket (tk_payments s i) (tk_payments t i)" for i
    using assms(1) by (simp add: keeps_tickets_def edited_def)
  then have "\<exists>q. tk_payments s i = Some q \<and> same_ticket q p" if "tk_payments t i = Some p" for i p
    using that by (metis option_rel_Some2)
  then show ?thesis using assms(2) by (fastforce simp: own_ids_def same_ticket_def)
qed

lemma batch_steps_keep:
  assumes "own_ids s" "tk_payments s i = Some p"
  shows "bulk_refund_one env p b s = Ok (s', b') \<Longrightarrow> keeps_tickets s s'"
    and "partial_refund_one env n p b s = Ok (s', b') \<Longrightarrow> keeps_tickets s s'"
    and "cascade_one env e p m s = Ok (s', m') \<Longrightarrow> keeps_tickets s s'"
  using assms own_idsD [OF assms]
  by (auto simp: bulk_refund_one_def partial_refund_one_def cascade_one_def same_ticket_def simp del: step_simps
      elim!: keeps_step store_payment_keeps)

lemma keeps_tickets_next:
  "keeps_tickets s s1 \<Longrightarrow> own_ids s \<Longrightarrow> (own_ids s1 \<Longrightarrow> keeps_tickets s1 t) \<Longrightarrow> keeps_tickets s t"
  by (blast intro: keeps_tickets_trans keeps_tickets_own_ids)

lemma bulk_refund_loop_keeps:
  "bulk_refund_loop env ids b s = Ok (s', b') \<Longrightarrow> own_ids s \<Longrightarrow> keeps_tickets s s'"
proof (induction ids arbitrary: b s)
  case (Cons i ids)
  then show ?case
    by (auto split: option.splits if_splits elim!: batch_steps_keep(1) [THEN keeps_tickets_next, rotated 2])
qed simp

lemma partial_refund_loop_keeps:
  "partial_refund_loop env pct ids b s = Ok (s', b') \<Longrightarrow> own_ids s \<Longrightarrow> keeps_tickets s s'"
proof (induction ids arbitrary: b s)
  case (Cons i ids)
  then show ?case
    by (auto simp: Let_def split: option.splits if_splits elim!: batch_steps_keep(2) [THEN keeps_tickets_next, rotated 2])
qed simp

lemma cascade_loop_keeps:
  "cascade_loop env e ids n s = Ok (s', m) \<Longrightarrow> own_ids s \<Longrightarrow> keeps_tickets s s'"
proof (induction ids arbitrary: n s)
  case (Cons i ids)
  then show ?case
    by (auto split: option.splits if_splits elim!: batch_steps_keep(3) [THEN keeps_tickets_next, rotated 2])
qed simp

lemma finish_batch_keeps: "finish_batch e b s = Ok s' \<Longrightarrow> keeps_tickets s s'"
  by (auto simp: finish_batch_def simp del: step_simps split: if_splits elim!: keeps_step intro!: keeps_here)

lemma bulk_indexes_keep [simp]:
  "keeps_tickets s (s\<lparr>tk_bulk_index := f\<rparr>)" "keeps_tickets s (s\<lparr>tk_partial_index := g\<rparr>)"
  "keeps_tickets s (s\<lparr>tk_partial_percentage := h\<rparr>)" "keeps_tickets s (reset_partial_refund e s)"
  by (simp_all add: keeps_simps reset_partial_refund_def)

lemmas index_keeps_here = bulk_indexes_keep [THEN keeps_tickets_trans [rotated]]

lemma trigger_bulk_refund_keeps:
  "trigger_bulk_refund env e n s = Ok (s', v) \<Longrightarrow> own_ids s \<Longrightarrow> keeps_tickets s s'"
  by (auto simp: trigger_bulk_refund_def Let_def split: if_splits intro!: keeps_here index_keeps_here
      elim!: finish_batch_keeps [THEN keeps_tickets_trans [rotated]] bulk_refund_loop_keeps)

lemma issue_partial_refund_keeps:
  assumes "issue_partial_refund env e pct n s = Ok (s', v)" "own_ids s"
  shows "keeps_tickets s s'"
proof -
  have "keeps_tickets s t" if "partial_refund_loop env k ids b (s\<lparr>tk_partial_percentage := h\<rparr>) = Ok (t, b')" for k ids b h t b'
    using partial_refund_loop_keeps [OF that] assms(2) bulk_indexes_keep(3) [of s h]
    by (blast intro: keeps_tickets_trans keeps_tickets_own_ids)
  then show ?thesis using assms
    by (auto simp: issue_partial_refund_def Let_def split: if_splits intro!: keeps_here index_keeps_here
      elim!: finish_batch_keeps [THEN keeps_tickets_trans [rotated]] partial_refund_loop_keeps)
qed

lemma trigger_dispute_refund_cascade_keeps:
  "trigger_dispute_refund_cascade env e s = Ok (s', v) \<Longrightarrow> own_ids s \<Longrightarrow> keeps_tickets s s'"
  by (auto simp: trigger_dispute_refund_cascade_def split: if_splits intro!: keeps_here elim!: cascade_loop_keeps)

lemma buyer_index_keeps:
  "add_payment_to_buyer_index a i s = Ok t \<Longrightarrow> keeps_tickets s t"
  "keeps_tickets s (remove_payment_from_buyer_index a i s)"
  by (auto simp: add_payment_to_buyer_index_def append_buyer_payment_def remove_payment_from_buyer_index_def
      keeps_simps Let_def split: if_splits prod.splits)

lemma put_payment_keeps:
  "keeps_tickets r s \<Longrightarrow> tk_payments r i = Some p \<Longrightarrow> same_ticket p q \<Longrightarrow> keeps_tickets r (put_payment i q s)"
  by (erule keeps_tickets_edit) (auto simp: put_payment_def same_governors_def)

lemma mark_poap_minted_keeps: "mark_poap_minted i a s = Ok t \<Longrightarrow> keeps_tickets s t"
  by (auto simp: mark_poap_minted_def Let_def keeps_simps)

lemmas buyer_step = buyer_index_keeps(1) [THEN keeps_tickets_trans [rotated]]
  mark_poap_minted_keeps [THEN keeps_tickets_trans [rotated]]

lemmas buyer_here = buyer_index_keeps(2) [THEN keeps_tickets_trans [rotated]]

lemma transfer_ticket_keeps:
  "transfer_ticket env i a v s = Ok s' \<Longrightarrow> keeps_tickets s s'"
  by (auto simp: transfer_ticket_def collect_transfer_fee_def move_ticket_def Let_def same_ticket_def
      simp del: step_simps split: if_splits elim!: keeps_step buyer_step intro!: keeps_here buyer_here put_payment_keeps)

lemma pay_resale_keeps: "pay_resale env l a k r q s = Ok s' \<Longrightarrow> keeps_tickets s s' \<and> tk_payments s' = tk_payments s"
  by (auto simp: pay_resale_def Let_def keeps_simps split: if_splits)

lemma purchase_resale_ticket_keeps:
  assumes "purchase_resale_ticket env i a m s = Ok s'"
  shows "keeps_tickets s s'"
proof -
  have "keeps_tickets t (store_resale_listing l t)" for t l
    by (simp add: store_resale_listing_def keeps_simps)
  note listing = this [THEN keeps_tickets_trans [rotated]]
  show ?thesis using assms
    by (auto simp: purchase_resale_ticket_def Let_def same_ticket_def simp del: step_simps split: if_splits
        dest!: pay_resale_keeps elim!: buyer_step intro!: keeps_here listing buyer_here put_payment_keeps)
qed

lemma place_bid_keeps:
  "place_bid env e j a k n s = Ok s' \<Longrightarrow> keeps_tickets s s'"
  by (auto simp: place_bid_def refund_previous_bid_def Let_def keeps_simps split: if_splits option.splits)

lemma confirm_payment_keeps:
  "confirm_payment env i h s = Ok s' \<Longrightarrow> keeps_tickets s s'"
proof -
  have "keeps_tickets s (update_payment_status_index e a b j s)" for e a b j and s :: "'a ticket_payments_scheme"
    by (simp add: keeps_tickets_def edited_def)
  note status = this [THEN keeps_tickets_trans [rotated]]
  show "confirm_payment env i h s = Ok s' \<Longrightarrow> keeps_tickets s s'"
    by (auto simp: confirm_payment_def Let_def same_ticket_def split: if_splits option.splits
      intro!: keeps_here status put_payment_keeps)
qed

lemma check_in_keeps:
  "check_in env i a x s = Ok s' \<Longrightarrow> own_ids s \<Longrightarrow> keeps_tickets s s'"
  by (auto simp: check_in_def Let_def same_ticket_def split: if_splits dest: own_idsD
      elim!: buyer_step store_payment_keeps intro!: keeps_here)

lemma mint_poap_keeps: "mint_poap env i s = Ok s' \<Longrightarrow> keeps_tickets s s'"
  by (auto simp: mint_poap_def split: if_splits elim!: buyer_step intro!: keeps_here)

lemma discounts_keep:
  "create_discount_code env e c n x m s = Ok s' \<Longrightarrow> keeps_tickets s s'"
  "add_discount_hashes env e hs s = Ok s' \<Longrightarrow> keeps_tickets s s'"
  "set_affiliate_rate env e a n s = Ok s' \<Longrightarrow> keeps_tickets s s'"
  "ticket_cancel_event env e s = Ok s' \<Longrightarrow> keeps_tickets s s'"
  by (auto simp: create_discount_code_def add_discount_hashes_def set_affiliate_rate_def ticket_cancel_event_def
      keeps_simps split: if_splits)

section \<open>The invariant is kept\<close>

lemma payments_inv_own_ids: "payments_inv s \<Longrightarrow> own_ids s"
  by (simp add: payments_inv_def own_ids_def)

lemma payments_inv_keeps:
  assumes "keeps_tickets s t" "payments_inv s"
  shows "payments_inv t"
proof -
  have e: "edited s t" using assms(1) by (simp add: keeps_tickets_def)
  have "own_ids t" using keeps_tickets_own_ids [OF assms(1) payments_inv_own_ids [OF assms(2)]] .
  moreover have "(\<exists>p. tk_payments t i = Some p \<and> pay_event p = x) \<longleftrightarrow> (\<exists>p. tk_payments s i = Some p \<and> pay_event p = x)" for i x
    using e edited_NoneD [OF e, of i] edited_same_ticketD [OF e, of i] unfolding same_ticket_def
    by (cases "tk_payments s i") auto
  ultimately show ?thesis using assms(2) e
    by (simp add: payments_inv_def own_ids_def edited_def get_event_payments_contents event_payments.contents_def
        event_payments.dense_def)
qed

lemma payments_inv_tk_empty: "payments_inv ticket_empty"
  by (simp add: payments_inv_def ticket_empty_def get_event_payments_def event_payments.dense_def)

text \<open>A payment under a new id is appended to the list of its event.\<close>

lemma other_indexes_fields:
  "add_payment_to_buyer_index a i s = Ok t \<Longrightarrow> same_governors s t \<and> tk_payments t = tk_payments s
     \<and> tk_event_payment t = tk_event_payment s \<and> tk_event_shard t = tk_event_shard s \<and> tk_event_count t = tk_event_count s"
  "same_governors s (add_payment_to_status_index e st i s) \<and> tk_payments (add_payment_to_status_index e st i s) = tk_payments s
     \<and> tk_event_payment (add_payment_to_status_index e st i s) = tk_event_payment s
     \<and> tk_event_shard (add_payment_to_status_index e st i s) = tk_event_shard s
     \<and> tk_event_count (add_payment_to_status_index e st i s) = tk_event_count s"
  by (auto simp: add_payment_to_buyer_index_def append_buyer_payment_def add_payment_to_status_index_def
      same_governors_def Let_def split: if_splits)

lemma store_payment_new:
  assumes "store_payment p s = Ok t" "payments_inv s" "tk_payments s (pay_id p) = None"
  shows "same_governors s t" "tk_payments t = (tk_payments s)(pay_id p \<mapsto> p)" "payments_inv t"
    "get_event_payments (pay_event p) t = get_event_payments (pay_event p) s @ [pay_id p]"
proof -
  let ?e = "pay_event p" and ?i = "pay_id p"
  let ?s0 = "s\<lparr>tk_payments := (tk_payments s)(?i \<mapsto> p)\<rparr>"
  have new: "(?e, ?i) \<notin> tk_event_payment s" using assms(2,3) by (simp add: payments_inv_def)
  then obtain s1 s3 where s1: "append_event_payment ?e ?i ?s0 = Ok s1"
    and s3: "add_payment_to_buyer_index (pay_buyer p) ?i
      (s1\<lparr>tk_event_payment := insert (?e, ?i) (tk_event_payment s1)\<rparr>) = Ok s3"
    and "t = add_payment_to_status_index ?e (pay_status p) ?i s3"
    using assms(1,3) by (auto simp: store_payment_def add_payment_to_event_index_def Let_def)
  then have t: "tk_event_shard t = tk_event_shard s1" "tk_event_count t = tk_event_count s1" "same_governors s1 t"
      "tk_event_payment t = insert (?e, ?i) (tk_event_payment s1)" "tk_payments t = tk_payments s1"
    using other_indexes_fields(1) [OF s3] other_indexes_fields(2) [of s3 ?e "pay_status p" ?i]
    by (auto simp: same_governors_def)
  have f: "tk_payments s1 = tk_payments ?s0" "tk_event_payment s1 = tk_event_payment s" "same_governors s s1"
    using s1 by (auto simp: append_event_payment_def same_governors_def Let_def)
  show "same_governors s t" by (rule same_governors_trans [OF f(3) t(3)])
  show pays: "tk_payments t = (tk_payments s)(?i \<mapsto> p)" using t(5) f(1) by simp
  have c0: "event_payments.contents ?s0 k = get_event_payments k s" "event_payments.dense ?s0 k = event_payments.dense s k" for k
    by (simp_all add: get_event_payments_contents event_payments.contents_def event_payments.dense_def)
  have c1: "get_event_payments k t = event_payments.contents s1 k" "event_payments.dense t k = event_payments.dense s1 k" for k
    using t by (simp_all add: get_event_payments_contents event_payments.contents_def event_payments.dense_def)
  have dense: "event_payments.dense s k" for k using assms(2) by (simp add: payments_inv_def)
  have list: "get_event_payments k t = get_event_payments k s @ (if k = ?e then [?i] else [])" for k
    using event_payments.append_contents [OF s1] event_payments.append_contents_other [OF s1, of k] dense
    by (simp add: c0 c1)
  then show "get_event_payments ?e t = get_event_payments ?e s @ [?i]" by simp
  have "event_payments.dense t k" for k
    using event_payments.append_dense [OF s1, of k] dense by (simp add: c0 c1)
  moreover have "?i \<notin> set (get_event_payments k s)" for k
    using assms(2,3) by (simp add: payments_invD)
  moreover have "own_ids t" using payments_inv_own_ids [OF assms(2)] pays by (auto simp: own_ids_def)
  moreover have "(k, j) \<in> tk_event_payment t \<longleftrightarrow> (\<exists>q. tk_payments t j = Some q \<and> pay_event q = k)" for k j
    using assms(2,3) t(4) f(2) pays by (cases "j = ?i") (auto simp: payments_inv_def)
  moreover have "set (get_event_payments k t) = {j. (k, j) \<in> tk_event_payment t}" for k
    using assms(2) t(4) f(2) by (auto simp: payments_inv_def list)
  ultimately show "payments_inv t" using assms(2) list
    by (simp add: payments_inv_def own_ids_def)
qed

lemma store_tickets_new:
  assumes "store_tickets h f is s = Ok t" "payments_inv s" "distinct (map (\<lambda>i. pay_id (f i)) is)"
    "\<And>i. i \<in> set is \<Longrightarrow> tk_payments s (pay_id (f i)) = None"
  shows "same_governors s t \<and> payments_inv t"
  using assms
proof (induction "is" arbitrary: s)
  case (Cons i "is")
  obtain s1 where s1: "store_payment (f i) s = Ok s1"
    and rest: "store_tickets h f is (s1\<lparr>tk_validation_hash := (tk_validation_hash s1)(pay_id (f i) \<mapsto> h)\<rparr>) = Ok t"
    using Cons.prems(1) by auto
  let ?s = "s1\<lparr>tk_validation_hash := (tk_validation_hash s1)(pay_id (f i) \<mapsto> h)\<rparr>"
  note new = store_payment_new [OF s1 Cons.prems(2) Cons.prems(4)]
  have keep: "keeps_tickets s1 ?s" by (simp add: keeps_simps)
  have "tk_payments ?s (pay_id (f j)) = None" if "j \<in> set is" for j
  proof -
    have "pay_id (f j) \<noteq> pay_id (f i)" using Cons.prems(3) that by (auto simp: image_iff)
    then show ?thesis using Cons.prems(4) [of j] new(2) that by simp
  qed
  then have "same_governors ?s t \<and> payments_inv t"
    using Cons.prems(3) new(3) by (intro Cons.IH [OF rest payments_inv_keeps [OF keep]]) auto
  then show ?case
    using new(1) keep unfolding keeps_tickets_def by (auto intro: same_governors_trans)
qed simp

text \<open>The parts of a sale before and after the tickets are stored.\<close>

lemma sale_parts_keep:
  "apply_discount_code env e c n s = Ok (m, s1) \<Longrightarrow> keeps_tickets s s1"
  "keeps_tickets s (note_price_switch env e j tier s)"
  "take_payment env k a r n m s = Ok s1 \<Longrightarrow> keeps_tickets s s1"
  "book_sale e k n m q s = Ok s1 \<Longrightarrow> keeps_tickets s s1"
  by (auto simp: apply_discount_code_def note_price_switch_def take_payment_def book_sale_def keeps_simps Let_def
      split: option.splits if_splits)

lemma sale_announced_keeps:
  "keeps_tickets s (publish_sale env i e a n m s)"
  "keeps_tickets s (award_loyalty env a x m l s)"
  "keeps_tickets s (publish_discounts env i e h b n m q s)"
  by (auto simp: publish_sale_def award_loyalty_def publish_discounts_def call_registry_def keeps_simps Let_def
      split: option.splits)

text \<open>
  The ids under which a sale stores its tickets: they do not collide with each other or with stored
  payments.  A sale of one ticket rejects a used id itself.
\<close>

definition fresh_sale :: "string \<Rightarrow> nat \<Rightarrow> 'a ticket_payments_scheme \<Rightarrow> bool" where
  "fresh_sale payment_id quantity s \<longleftrightarrow> quantity = 1 \<or>
     quantity \<le> 6 \<and> list_all (\<lambda>i. tk_payments s (sub_payment_id payment_id quantity i) = None) [0..<quantity]"

lemma sub_payment_id_distinct: "n \<le> 6 \<Longrightarrow> distinct (map (sub_payment_id i n) [0..<n])"
  by (auto simp: distinct_map inj_on_def sub_payment_id_def)

lemma settle_sale_inv:
  assumes "settle_sale env i e j a ow k v n r h m c parts s = Ok t" "payments_inv s" "fresh_sale i n s"
    "tk_payments s i = None"
  shows "same_governors s t \<and> payments_inv t"
proof -
  obtain et pf oa rr where parts: "parts = (et, pf, oa, rr)" by (cases parts) auto
  obtain s1 s2 s4 f where s1: "take_payment env k a r et rr s = Ok s1" and s2: "book_sale e k m oa pf s1 = Ok s2"
    and s4: "call_registry env (IncrementInventory e j ow n k)
      (case c of Some hash \<Rightarrow> s2\<lparr>tk_discount_used := insert hash (tk_discount_used s2)\<rparr> | None \<Rightarrow> s2) = Ok s4"
    and st: "store_tickets h f [0..<n] s4 = Ok t" and f: "\<And>x. pay_id (f x) = sub_payment_id i n x"
    using assms(1) by (auto simp: settle_sale_def parts Let_def simp del: step_simps)
  have "keeps_tickets s2 (case c of Some hash \<Rightarrow> s2\<lparr>tk_discount_used := insert hash (tk_discount_used s2)\<rparr> | None \<Rightarrow> s2)"
    by (simp add: keeps_simps split: option.split)
  then have keep: "keeps_tickets s s4"
    using sale_parts_keep(3) [OF s1] sale_parts_keep(4) [OF s2] money_keeps(3) [OF s4] by (blast intro: keeps_tickets_trans)
  have "distinct (map (\<lambda>x. pay_id (f x)) [0..<n])"
    using assms(3) sub_payment_id_distinct [of n i] by (auto simp: f fresh_sale_def)
  moreover have "tk_payments s4 (pay_id (f x)) = None" if "x \<in> set [0..<n]" for x
  proof -
    have "tk_payments s (sub_payment_id i n x) = None"
    proof (cases "n = 1")
      case False
      then show ?thesis using assms(3) that by (auto simp: fresh_sale_def list_all_iff)
    qed (use assms(4) in \<open>simp add: sub_payment_id_def\<close>)
    then show ?thesis using keep edited_NoneD unfolding keeps_tickets_def f by blast
  qed
  ultimately have "same_governors s4 t \<and> payments_inv t"
    using store_tickets_new [OF st payments_inv_keeps [OF keep assms(2)]] by blast
  then show ?thesis using keep unfolding keeps_tickets_def by (blast intro: same_governors_trans)
qed

lemma process_payment_inv:
  assumes "process_payment env i e j a ow k v n opts h s = Ok (s', x)" "payments_inv s" "fresh_sale i n s"
  shows "same_governors s s' \<and> payments_inv s'"
proof -
  obtain s1 s2 s3 et m c parts ow' r' w1 w2 w3 w4 w5 w6 w7 w8 w9 where
      s1: "apply_discount_code env e (opt_discount_code opts) m s = Ok (w1, s1)"
    and s2: "s2 = note_price_switch env e j w2 s1"
    and s3: "settle_sale env i e j a ow' k v n r' h w3 c parts s2 = Ok s3"
    and s': "s' = publish_discounts env i e c w4 w3 w5 et (award_loyalty env a n et w7
        (publish_sale env i e a et w6 s3))"
    and fresh: "tk_payments s i = None"
    using assms(1) by (auto simp: process_payment_def Let_def split: if_splits)
  have keep: "keeps_tickets s s2" "keeps_tickets s3 s'"
    unfolding s2 s' using sale_parts_keep(1) [OF s1]
    by (intro sale_parts_keep(2) [THEN keeps_tickets_trans [rotated]]
        sale_announced_keeps [THEN keeps_tickets_trans [rotated]] keeps_tickets_refl | assumption)+
  have "tk_payments s2 y = None \<longleftrightarrow> tk_payments s y = None" for y
    using keep(1) edited_NoneD unfolding keeps_tickets_def by blast
  then have "same_governors s2 s3 \<and> payments_inv s3"
    using assms(3) fresh by (intro settle_sale_inv [OF s3 payments_inv_keeps [OF keep(1) assms(2)]]) (auto simp: fresh_sale_def)
  then show ?thesis using keep payments_inv_keeps [OF keep(2)] unfolding keeps_tickets_def
    by (blast intro: same_governors_trans)
qed

lemma close_auction_inv:
  assumes "close_auction env i e j s = Ok s'" "payments_inv s" "tk_payments s i = None"
  shows "same_governors s s' \<and> payments_inv s'"
proof -
  obtain s2 s3 s4 t u p k n fee org call ev1 ev2 where
      s2: "update_event_balance e org fee (s\<lparr>tk_auction_closed := insert (e, j) (tk_auction_closed s)\<rparr>) = Ok s2"
    and s3: "add_to_total_volume_processed n s2 = Ok s3"
    and s4: "add_to_total_fees_collected_by_token k fee s3 = Ok s4"
    and s5: "call_registry env call s4 = Ok t"
    and u: "store_payment p t = Ok u" and p: "pay_id p = i" and s': "s' = tpublish ev1 (tpublish ev2 u)"
    using assms(1) by (auto simp: close_auction_def Let_def simp del: step_simps split: if_splits)
  have "keeps_tickets s (s\<lparr>tk_auction_closed := insert (e, j) (tk_auction_closed s)\<rparr>)" by (simp add: keeps_simps)
  then have t: "keeps_tickets s t"
    by (intro keeps_step(3) [OF s5] keeps_step(6) [OF s4] keeps_step(5) [OF s3] keeps_step(4) [OF s2])
  have s': "keeps_tickets u s'" unfolding s' by (intro keeps_here)
  have "tk_payments t (pay_id p) = None" using t edited_NoneD assms(3) unfolding keeps_tickets_def p by blast
  note new = store_payment_new [OF u payments_inv_keeps [OF t assms(2)] this]
  show ?thesis using payments_inv_keeps [OF s' new(3)] new(1) t s' unfolding keeps_tickets_def
    by (blast intro: same_governors_trans)
qed

end
