(* ===== verification/Ticket_Machine.thy ===== *)
theory Ticket_Machine
  imports Ticket_Index
begin

text \<open>
  The ticket payment contract as a state machine: one constructor per state-changing entry point of
  \<open>src/contract/contracts/ticket_payment/src/contract.rs\<close>, the states that sequences of invocations reach,
  and the invariants of these states.
\<close>

section \<open>Entry points\<close>

datatype ticket_config_call =
  TInitialize address address address address
| TSetPause bool
| TSetEventDispute string bool
| TUpgrade "string option" string
| TSetOracle address
| TSetWithdrawalCap address int
| TSetTransferFee string nat
| TProposeParameterChange address ticket_parameter_change
| TVoteOnProposal address nat
| TExecuteProposal address nat
| TProposeEscrowWithdrawal string int
| TApproveEscrowWithdrawal nat
| TExecuteEscrowWithdrawal nat

datatype ticket_sale_call =
  TCreateDiscountCode string string nat nat nat
| TAddDiscountHashes string "string list"
| TSetAffiliateRate string address nat
| TCancelEvent string
| TProcessPayment string string string address "address option" address int nat purchase_options string
| TConfirmPayment string string
| TCheckIn string address string
| TMintPoap string

datatype ticket_refund_call =
  TRequestGuestRefund string
| TRequestRefund nat
| TAdminRefund string
| TClaimAutomaticRefund string
| TClaimCancellationRefund string
| TTriggerBulkRefund string nat
| TIssuePartialRefund string nat nat
| TTriggerDisputeRefundCascade string

datatype ticket_fund_call =
  TWithdrawOrganizerFunds string address
| TSettlePlatformFees string
| TWithdrawPlatformFees int address
| TClaimRevenue string address
| TReleaseMilestoneEscrow string

datatype ticket_market_call =
  TTransferTicket string address "int option"
| TListForResale "int \<times> int \<times> nat" string int
| TCancelResaleListing string
| TPurchaseResaleTicket string address int
| TSetResaleRoyaltyBps string nat
| TPlaceBid string string address address int
| TCloseAuction string string string

datatype ticket_call =
  TConfig ticket_config_call
| TSale ticket_sale_call
| TRefund ticket_refund_call
| TFund ticket_fund_call
| TMarket ticket_market_call

fun ticket_config_dispatch :: "ticket_env \<Rightarrow> ticket_config_call \<Rightarrow> ticket \<Rightarrow> (ticket_error, ticket) result" where
  "ticket_config_dispatch env (TInitialize a u w r) s = ticket_initialize env a u w r s"
| "ticket_config_dispatch env (TSetPause b) s = set_pause env b s"
| "ticket_config_dispatch env (TSetEventDispute e b) s = set_event_dispute env e b s"
| "ticket_config_dispatch env (TUpgrade old new) s = ticket_upgrade env old new s"
| "ticket_config_dispatch env (TSetOracle a) s = set_oracle env a s"
| "ticket_config_dispatch env (TSetWithdrawalCap k n) s = set_withdrawal_cap env k n s"
| "ticket_config_dispatch env (TSetTransferFee e b) s = set_transfer_fee env e b s"
| "ticket_config_dispatch env (TProposeParameterChange a c) s = drop_value (ticket_propose_parameter_change env a c s)"
| "ticket_config_dispatch env (TVoteOnProposal a i) s = vote_on_proposal env a i s"
| "ticket_config_dispatch env (TExecuteProposal a i) s = ticket_execute_proposal env a i s"
| "ticket_config_dispatch env (TProposeEscrowWithdrawal e n) s = drop_value (propose_escrow_withdrawal env e n s)"
| "ticket_config_dispatch env (TApproveEscrowWithdrawal i) s = approve_escrow_withdrawal env i s"
| "ticket_config_dispatch env (TExecuteEscrowWithdrawal i) s = execute_escrow_withdrawal env i s"

fun ticket_sale_dispatch :: "ticket_env \<Rightarrow> ticket_sale_call \<Rightarrow> ticket \<Rightarrow> (ticket_error, ticket) result" where
  "ticket_sale_dispatch env (TCreateDiscountCode e c n x m) s = create_discount_code env e c n x m s"
| "ticket_sale_dispatch env (TAddDiscountHashes e hs) s = add_discount_hashes env e hs s"
| "ticket_sale_dispatch env (TSetAffiliateRate e a n) s = set_affiliate_rate env e a n s"
| "ticket_sale_dispatch env (TCancelEvent e) s = ticket_cancel_event env e s"
| "ticket_sale_dispatch env (TProcessPayment i e j a ow k v n opts h) s =
     drop_value (process_payment env i e j a ow k v n opts h s)"
| "ticket_sale_dispatch env (TConfirmPayment i h) s = confirm_payment env i h s"
| "ticket_sale_dispatch env (TCheckIn i a x) s = check_in env i a x s"
| "ticket_sale_dispatch env (TMintPoap i) s = mint_poap env i s"

fun ticket_refund_dispatch :: "ticket_env \<Rightarrow> ticket_refund_call \<Rightarrow> ticket \<Rightarrow> (ticket_error, ticket) result" where
  "ticket_refund_dispatch env (TRequestGuestRefund i) s = request_guest_refund env i s"
| "ticket_refund_dispatch env (TRequestRefund n) s = request_refund env n s"
| "ticket_refund_dispatch env (TAdminRefund i) s = admin_refund env i s"
| "ticket_refund_dispatch env (TClaimAutomaticRefund i) s = claim_automatic_refund env i s"
| "ticket_refund_dispatch env (TClaimCancellationRefund i) s = claim_cancellation_refund env i s"
| "ticket_refund_dispatch env (TTriggerBulkRefund e n) s = drop_value (trigger_bulk_refund env e n s)"
| "ticket_refund_dispatch env (TIssuePartialRefund e b n) s = drop_value (issue_partial_refund env e b n s)"
| "ticket_refund_dispatch env (TTriggerDisputeRefundCascade e) s = drop_value (trigger_dispute_refund_cascade env e s)"

fun ticket_fund_dispatch :: "ticket_env \<Rightarrow> ticket_fund_call \<Rightarrow> ticket \<Rightarrow> (ticket_error, ticket) result" where
  "ticket_fund_dispatch env (TWithdrawOrganizerFunds e k) s = drop_value (withdraw_organizer_funds env e k s)"
| "ticket_fund_dispatch env (TSettlePlatformFees e) s = drop_value (settle_platform_fees env e s)"
| "ticket_fund_dispatch env (TWithdrawPlatformFees n k) s = withdraw_platform_fees env n k s"
| "ticket_fund_dispatch env (TClaimRevenue e k) s = drop_value (claim_revenue env e k s)"
| "ticket_fund_dispatch env (TReleaseMilestoneEscrow e) s = drop_value (release_escrow_milestone env e s)"

fun ticket_market_dispatch :: "ticket_env \<Rightarrow> ticket_market_call \<Rightarrow> ticket \<Rightarrow> (ticket_error, ticket) result" where
  "ticket_market_dispatch env (TTransferTicket i a v) s = transfer_ticket env i a v s"
| "ticket_market_dispatch env (TListForResale u i v) s = list_for_resale env u i v s"
| "ticket_market_dispatch env (TCancelResaleListing i) s = cancel_resale_listing env i s"
| "ticket_market_dispatch env (TPurchaseResaleTicket i a v) s = purchase_resale_ticket env i a v s"
| "ticket_market_dispatch env (TSetResaleRoyaltyBps e b) s = set_resale_royalty_bps env e b s"
| "ticket_market_dispatch env (TPlaceBid e j a k v) s = place_bid env e j a k v s"
| "ticket_market_dispatch env (TCloseAuction i e j) s = close_auction env i e j s"

fun ticket_dispatch :: "ticket_env \<Rightarrow> ticket_call \<Rightarrow> ticket \<Rightarrow> (ticket_error, ticket) result" where
  "ticket_dispatch env (TConfig c) s = ticket_config_dispatch env c s"
| "ticket_dispatch env (TSale c) s = ticket_sale_dispatch env c s"
| "ticket_dispatch env (TRefund c) s = ticket_refund_dispatch env c s"
| "ticket_dispatch env (TFund c) s = ticket_fund_dispatch env c s"
| "ticket_dispatch env (TMarket c) s = ticket_market_dispatch env c s"


section \<open>Reachable states\<close>

text \<open>
  Reachability by invocations whose purchases use fresh payment ids.  The contract itself rejects a used id
  in a purchase of one ticket; for the ids of a purchase of several tickets and for the close of an auction
  this is a condition on the caller.
\<close>

fun fresh_call :: "ticket_call \<Rightarrow> ticket \<Rightarrow> bool" where
  "fresh_call (TSale (TProcessPayment i e j a ow k v n opts h)) s = fresh_sale i n s"
| "fresh_call (TMarket (TCloseAuction i e j)) s = (tk_payments s i = None)"
| "fresh_call c s = True"

inductive ticket_reachable :: "(ticket_call \<Rightarrow> ticket \<Rightarrow> bool) \<Rightarrow> ticket \<Rightarrow> bool" for P where
  start: "ticket_reachable P ticket_empty"
| step: "ticket_reachable P s \<Longrightarrow> P c s \<Longrightarrow> ticket_dispatch env c s = Ok s' \<Longrightarrow> ticket_reachable P s'"

fun ticket_run :: "(ticket_env \<times> ticket_call) list \<Rightarrow> ticket \<Rightarrow> (ticket_error, ticket) result" where
  "ticket_run [] s = Ok s"
| "ticket_run ((env, c) # cs) s = rbind (ticket_dispatch env c s) (ticket_run cs)"

lemma ticket_run_reachable:
  "ticket_run cs s = Ok t \<Longrightarrow> ticket_reachable (\<lambda>_ _. True) s \<Longrightarrow> ticket_reachable (\<lambda>_ _. True) t"
  by (induction cs s rule: ticket_run.induct) (auto intro: ticket_reachable.step)

definition ticket_inv :: "ticket \<Rightarrow> bool" where
  "ticket_inv s \<longleftrightarrow> governors_inv s \<and> payments_inv s"

lemma ticket_inv_keeps: "keeps_tickets s t \<Longrightarrow> ticket_inv s \<Longrightarrow> ticket_inv t"
  using same_governors_inv payments_inv_keeps unfolding ticket_inv_def keeps_tickets_def by blast

lemma ticket_inv_own_ids: "ticket_inv s \<Longrightarrow> own_ids s"
  by (simp add: ticket_inv_def payments_inv_own_ids)

lemma payments_inv_more:
  fixes s t :: "'a ticket_payments_scheme"
  assumes "ticket_config.more t = ticket_config.more s"
  shows "payments_inv t \<longleftrightarrow> payments_inv s"
proof -
  have "tk_payments t = tk_payments s \<and> tk_event_payment t = tk_event_payment s
      \<and> tk_event_shard t = tk_event_shard s \<and> tk_event_count t = tk_event_count s"
    using assms by (cases s, cases t) auto
  then show ?thesis
    by (simp add: payments_inv_def get_event_payments_contents event_payments.contents_def event_payments.dense_def)
qed

lemma ticket_config_dispatch_inv:
  assumes "ticket_config_dispatch env c s = Ok s'" "ticket_inv s"
  shows "ticket_inv s'"
proof -
  have "ticket_config.more s' = ticket_config.more s"
    using assms(1) by (cases c) (auto dest: config_ops_more governance_ops_more ticket_execute_proposal_more)
  moreover have "governors_inv s'" using assms unfolding ticket_inv_def
    by (cases c) (auto dest: governors_inv_initialize governors_inv_propose governors_inv_vote governors_inv_execute
        governors_inv_propose_withdrawal governors_inv_approve governors_inv_execute_withdrawal
        administration_same_governors [THEN same_governors_inv])
  ultimately show ?thesis using assms(2) payments_inv_more unfolding ticket_inv_def by blast
qed

lemma ticket_sale_dispatch_inv:
  assumes "ticket_sale_dispatch env c s = Ok s'" "ticket_inv s" "fresh_call (TSale c) s"
  shows "ticket_inv s'"
proof (cases "\<exists>i e j a ow k v n opts h. c = TProcessPayment i e j a ow k v n opts h")
  case True
  then show ?thesis using assms by (auto simp: ticket_inv_def dest!: process_payment_inv intro: same_governors_inv)
next
  case False
  then have "keeps_tickets s s'" using assms(1) ticket_inv_own_ids [OF assms(2)]
    by (cases c) (auto dest: discounts_keep confirm_payment_keeps check_in_keeps mint_poap_keeps)
  then show ?thesis using ticket_inv_keeps assms(2) by blast
qed

lemma ticket_refund_dispatch_keeps:
  assumes "ticket_refund_dispatch env c s = Ok s'" "own_ids s"
  shows "keeps_tickets s s'"
  using assms by (cases c) (auto dest: single_refunds_keep claim_cancellation_refund_keeps
      trigger_bulk_refund_keeps issue_partial_refund_keeps trigger_dispute_refund_cascade_keeps)

lemma ticket_fund_dispatch_keeps:
  assumes "ticket_fund_dispatch env c s = Ok s'"
  shows "keeps_tickets s s'"
  using assms by (cases c) (auto dest: withdraw_organizer_funds_keeps platform_fees_keep claim_revenue_keeps
      release_escrow_milestone_keeps)

lemma ticket_market_dispatch_inv:
  assumes "ticket_market_dispatch env c s = Ok s'" "ticket_inv s" "fresh_call (TMarket c) s"
  shows "ticket_inv s'"
proof (cases "\<exists>i e j. c = TCloseAuction i e j")
  case True
  then show ?thesis using assms by (auto simp: ticket_inv_def dest!: close_auction_inv intro: same_governors_inv)
next
  case False
  then have "keeps_tickets s s'" using assms
    by (cases c) (auto dest: transfer_ticket_keeps resale_keeps purchase_resale_ticket_keeps place_bid_keeps)
  then show ?thesis using ticket_inv_keeps assms(2) by blast
qed

lemma ticket_dispatch_inv:
  assumes "ticket_dispatch env c s = Ok s'" "ticket_inv s" "fresh_call c s"
  shows "ticket_inv s'"
proof -
  have "own_ids s" by (rule ticket_inv_own_ids [OF assms(2)])
  with assms show ?thesis
    by (cases c) (auto intro: ticket_config_dispatch_inv ticket_sale_dispatch_inv ticket_market_dispatch_inv
        dest: ticket_refund_dispatch_keeps ticket_fund_dispatch_keeps elim: ticket_inv_keeps)
qed

lemma ticket_empty_inv: "ticket_inv ticket_empty"
  using payments_inv_tk_empty
  by (simp add: ticket_inv_def governors_inv_def ticket_proposals_ok_def ticket_empty_def)

lemma ticket_reachable_inv: "ticket_reachable fresh_call s \<Longrightarrow> ticket_inv s"
  by (induction rule: ticket_reachable.induct) (auto intro: ticket_empty_inv ticket_dispatch_inv)

end
