(* ===== verification/Ticket_Demo.thy ===== *)
theory Ticket_Demo
  imports Ticket_Machine
begin

text \<open>
  Concrete runs of the ticket payment contract, used to show that the hypotheses of the properties can
  hold.  The contracts it calls are instantiated: a token that follows the transfers and refuses to overdraw
  an account, where everybody but the contract starts with 5000, a registry with one event, and an injective
  stand-in for the hash function.
\<close>

section \<open>Environment\<close>

definition ticket_demo_tier :: ticket_tier_info where
  "ticket_demo_tier = \<lparr>tt_name = ''general'', tt_price = 1000, tt_early_bird_price = 0, tt_early_bird_deadline = 0,
     tt_usd_price = 0, tt_tier_limit = 10, tt_current_sold = 0, tt_is_refundable = True,
     tt_auction_config = [\<lparr>ac_start_price = 50, ac_end_time = 500, ac_min_increment = 10\<rparr>],
     tt_loyalty_multiplier = 1\<rparr>"

definition ticket_demo_event :: "ticket_event_status \<Rightarrow> ticket_event_info" where
  "ticket_demo_event st = \<lparr>ei_event_id = ''e1'', ei_name = ''Concert'', ei_organizer = ''olga'', ei_payment_address = ''olga'',
     ei_platform_fee_percent = 500, ei_is_active = (st = Active), ei_status = st, ei_created_at = 0,
     ei_metadata_cid = '''', ei_max_supply = 20, ei_current_supply = 1, ei_milestone_plan = None,
     ei_tiers = [(''ga'', ticket_demo_tier)], ei_refund_deadline = 0, ei_restocking_fee = 0,
     ei_resale_cap_bps = Some 5000, ei_min_sales_target = 0, ei_target_deadline = 0, ei_goal_met = False,
     ei_custom_fee_bps = None, ei_banner_cid = None, ei_tags = None, ei_start_time = 0, ei_end_time = 1000,
     ei_accepted_tokens = [], ei_use_global_whitelist = True, ei_referral_rate_bps = 0\<rparr>"

definition demo_balance :: "transfer list \<Rightarrow> address \<Rightarrow> address \<Rightarrow> int" where
  "demo_balance log token a = (if a = ''tickets'' then 0 else 5000) + net_inflow token a log"

definition demo_accepts :: "transfer list \<Rightarrow> transfer \<Rightarrow> bool" where
  "demo_accepts log t \<longleftrightarrow> 0 \<le> tr_amount t \<and> tr_amount t \<le> demo_balance log (tr_token t) (tr_from t)"

definition ticket_demo_env :: "ticket_event_status \<Rightarrow> nat \<Rightarrow> ticket_env" where
  "ticket_demo_env st t = \<lparr>current_contract = ''tickets'', timestamp = t, authorised = (\<lambda>a. a \<noteq> ''tickets''),
     token_accepts = demo_accepts, token_accepts_from = demo_accepts, token_balance = demo_balance, token_allowance = (\<lambda>_ _ _ _. 1000000),
     crypto_sha256 = (\<lambda>x. x),
     registry_event = (\<lambda>_ e. if e = ''e1'' then Some (ticket_demo_event st) else None),
     registry_dispute = (\<lambda>_ _. None), registry_scanner = (\<lambda>_ _ _. Some False),
     registry_promo_bps = (\<lambda>_. Some 0), registry_promo_expiry = (\<lambda>_. Some 0),
     registry_loyalty_bps = (\<lambda>_ _. Some 0), registry_accepts = (\<lambda>_ _. True),
     pro_member = (\<lambda>_ _. None), oracle_lastprice = (\<lambda>_ _. None)\<rparr>"

definition no_options :: purchase_options where
  "no_options = \<lparr>opt_code_preimage = None, opt_referrer = None, opt_discount_code = None\<rparr>"


section \<open>Runs\<close>

definition ticket_demo_setup :: "(ticket_env \<times> ticket_call) list" where
  "ticket_demo_setup =
     [(ticket_demo_env Active 1, TConfig (TInitialize ''admin'' ''usdc'' ''wallet'' ''registry'')),
      (ticket_demo_env Active 2, TSale (TProcessPayment ''p1'' ''e1'' ''ga'' ''bob'' None ''usdc'' 1000 1 no_options ''secret'')),
      (ticket_demo_env Active 3, TSale (TConfirmPayment ''p1'' ''tx''))]"

fun ticket_run_ok :: "(ticket_call \<Rightarrow> ticket \<Rightarrow> bool) \<Rightarrow> (ticket_env \<times> ticket_call) list \<Rightarrow> ticket \<Rightarrow> bool" where
  "ticket_run_ok P [] s = True"
| "ticket_run_ok P ((env, c) # cs) s =
     (P c s \<and> (case ticket_dispatch env c s of Ok s' \<Rightarrow> ticket_run_ok P cs s' | _ \<Rightarrow> False))"

definition ticket_result :: "('e, ticket) result \<Rightarrow> ticket" where
  "ticket_result r = (case r of Ok s \<Rightarrow> s | _ \<Rightarrow> ticket_empty)"

lemma ticket_run_ok_reachable:
  "ticket_run_ok P cs s \<Longrightarrow> ticket_reachable P s \<Longrightarrow>
   \<exists>t. ticket_run cs s = Ok t \<and> ticket_result (ticket_run cs s) = t \<and> ticket_reachable P t"
proof (induction cs arbitrary: s)
  case (Cons c cs)
  obtain env k where c: "c = (env, k)" by (cases c)
  show ?case using Cons by (auto simp: c split: result.splits intro: ticket_reachable.step)
qed (simp add: ticket_result_def)

lemma ticket_result_reachable:
  "ticket_run_ok P cs ticket_empty \<Longrightarrow> ticket_reachable P (ticket_result (ticket_run cs ticket_empty))"
  using ticket_run_ok_reachable [OF _ ticket_reachable.start] by blast

definition ticket_demo_state :: ticket where
  "ticket_demo_state = ticket_result (ticket_run ticket_demo_setup ticket_empty)"

lemmas ticket_host_eval = require_auth_def ok_or_def unwrap_def call_def unwrap_or_def checked_mul_div_def
  checked_mul_i128_def checked_add_i128_def checked_sub_i128_def checked_div_i128_def checked_i128_def
  in_i128_def i128_min_def i128_max_def trunc_div_def add_u_def sub_u_def add_i128_def sub_i128_def mul_i128_def
  drop_value_def div_ceil_def Let_def checked_add_u_def

lemmas ticket_env_eval = ticket_demo_env_def demo_accepts_def demo_balance_def ticket_demo_event_def ticket_demo_tier_def no_options_def ticket_empty_def
  zero_balance_def MAX_BPS_def TICKET_SHARD_SIZE_def tpublish_def

lemmas ticket_config_eval = ticket_initialize_def ticket_validate_address_def zero_address_def ticket_require_admin_def
  transfer_tokens_def transfer_tokens_from_def call_registry_def lookup_event_def is_event_disputed_def
  event_accepts_token_def validate_recipient_def

lemmas ticket_sale_eval = process_payment_def apply_global_promo_def apply_code_preimage_def apply_discount_code_def
  check_ticket_price_def note_price_switch_def split_payment_def referral_part_def platform_fee_bps_def
  take_payment_def book_sale_def update_event_balance_def add_to_total_volume_processed_def
  add_to_total_fees_collected_by_token_def add_to_active_escrow_total_def add_to_active_escrow_by_token_def
  sub_payment_id_def award_loyalty_def publish_sale_def publish_discounts_def settle_sale_def store_payment_def
  add_payment_to_event_index_def append_event_payment_def add_payment_to_buyer_index_def append_buyer_payment_def
  add_payment_to_status_index_def

lemmas ticket_edit_eval = confirm_payment_def put_payment_def update_payment_status_index_def
  remove_payment_from_status_index_def

lemma ticket_demo_setup_ok: "ticket_run_ok fresh_call ticket_demo_setup ticket_empty"
  by (simp add: ticket_demo_setup_def ticket_host_eval ticket_env_eval ticket_config_eval ticket_sale_eval
      ticket_edit_eval fresh_sale_def)

text \<open>The payment of the run, confirmed.\<close>

definition ticket_demo_payment :: payment where
  "ticket_demo_payment = \<lparr>pay_id = ''p1'', pay_event = ''e1'', pay_buyer = ''bob'', pay_owner = ''bob'', pay_tier = ''ga'',
     pay_token = ''usdc'', pay_amount = 1000, pay_platform_fee = 50, pay_organizer_amount = 950,
     pay_status = Confirmed, pay_transaction_hash = ''tx'', pay_created_at = 2, pay_confirmed_at = Some 3,
     pay_refunded_amount = 0, pay_is_soulbound = False, pay_last_checked_in_at = 0, pay_referral_amount = 0,
     pay_referrer = None\<rparr>"

lemma ticket_demo_reachable: "ticket_reachable fresh_call ticket_demo_state"
  unfolding ticket_demo_state_def by (rule ticket_result_reachable [OF ticket_demo_setup_ok])

lemma ticket_demo_fields:
  "tk_payments ticket_demo_state = [''p1'' \<mapsto> ticket_demo_payment]"
  "get_event_payments ''e1'' ticket_demo_state = [''p1'']"
  "tk_balances ticket_demo_state =
     (\<lambda>_. zero_balance)(''e1'' := \<lparr>bal_organizer_amount = 950, bal_total_withdrawn = 0, bal_platform_fee = 50\<rparr>)"
  "tk_initialized ticket_demo_state" "\<not> tk_paused ticket_demo_state" "tk_event_registry ticket_demo_state = Some ''registry''"
  "tk_transfers ticket_demo_state = [\<lparr>tr_token = ''usdc'', tr_from = ''bob'', tr_to = ''tickets'', tr_amount = 1000\<rparr>]"
  "tk_escrow_total ticket_demo_state = 1000" "tk_escrow_by_token ticket_demo_state = (\<lambda>_. 0)(''usdc'' := 1000)"
  "tk_usdc_token ticket_demo_state = Some ''usdc''" "tk_royalty_bps ticket_demo_state = (\<lambda>_. 500)"
  "tk_listings ticket_demo_state = Map.empty" "tk_bulk_index ticket_demo_state = (\<lambda>_. 0)"
  by (simp_all add: ticket_demo_state_def ticket_demo_payment_def ticket_demo_setup_def ticket_result_def ticket_host_eval ticket_env_eval
      ticket_config_eval ticket_sale_eval ticket_edit_eval get_event_payments_def DEFAULT_RESALE_ROYALTY_BPS_def)

text \<open>
  A ticket that is refunded, admitted and refunded again: the second refund is paid with what another
  buyer paid.
\<close>

definition ticket_refund_twice :: "(ticket_env \<times> ticket_call) list" where
  "ticket_refund_twice = ticket_demo_setup @
     [(ticket_demo_env Active 4, TSale (TProcessPayment ''p2'' ''e1'' ''ga'' ''carol'' None ''usdc'' 1000 1 no_options ''word'')),
      (ticket_demo_env Active 5, TRefund (TRequestGuestRefund ''p1'')),
      (ticket_demo_env Active 6, TSale (TCheckIn ''p1'' ''olga'' ''secret'')),
      (ticket_demo_env Active 7, TRefund (TRequestGuestRefund ''p1''))]"

lemmas ticket_refund_eval = request_guest_refund_def internal_refund_def goal_failed_def effective_restocking_fee_def
  check_refundable_def mark_refunded_def subtract_from_active_escrow_total_def subtract_from_active_escrow_by_token_def
  check_in_def verify_secret_def mark_poap_minted_def

lemma ticket_refund_twice_run:
  "\<exists>t. ticket_run ticket_refund_twice ticket_empty = Ok t
     \<and> tk_transfers t = [\<lparr>tr_token = ''usdc'', tr_from = ''bob'', tr_to = ''tickets'', tr_amount = 1000\<rparr>,
         \<lparr>tr_token = ''usdc'', tr_from = ''carol'', tr_to = ''tickets'', tr_amount = 1000\<rparr>,
         \<lparr>tr_token = ''usdc'', tr_from = ''tickets'', tr_to = ''bob'', tr_amount = 1000\<rparr>,
         \<lparr>tr_token = ''usdc'', tr_from = ''tickets'', tr_to = ''bob'', tr_amount = 1000\<rparr>]"
  by (simp add: ticket_refund_twice_def ticket_demo_setup_def ticket_host_eval ticket_env_eval
      ticket_config_eval ticket_sale_eval ticket_edit_eval ticket_refund_eval)

end
