(* ===== verification/Ticket_Bulk.thy ===== *)
theory Ticket_Bulk
  imports Ticket_Index
begin

text \<open>
  The batch refund of a cancelled event (\<open>trigger_bulk_refund\<close> of
  \<open>src/contract/contracts/ticket_payment/src/contract.rs\<close>) completes: with a positive batch size, every call
  succeeds and moves on, and after as many calls as the event has payments every confirmed payment has been
  paid back, once and in full, and is marked as refunded.
  The amounts have to be small enough for the checked arithmetic; \<open>within\<close> says so with a bound on the
  payments and a bound on the accounts, which grows with each refund.  The contract has to hold the money, and
  its tokens have to pay out what it holds.
\<close>

section \<open>Bounds\<close>

definition within :: "int \<Rightarrow> int \<Rightarrow> 'a ticket_ledger_scheme \<Rightarrow> bool" where
  "within B C s \<longleftrightarrow>
     (\<forall>i p. tk_payments s i = Some p \<longrightarrow>
        \<bar>pay_amount p\<bar> \<le> B \<and> \<bar>pay_organizer_amount p\<bar> \<le> B \<and> \<bar>pay_platform_fee p\<bar> \<le> B)
     \<and> \<bar>tk_escrow_total s\<bar> \<le> C \<and> (\<forall>k. \<bar>tk_escrow_by_token s k\<bar> \<le> C)
     \<and> (\<forall>e. \<bar>bal_organizer_amount (tk_balances s e)\<bar> \<le> C \<and> \<bar>bal_platform_fee (tk_balances s e)\<bar> \<le> C)"

definition batch_within :: "int \<Rightarrow> int \<Rightarrow> batch \<Rightarrow> bool" where
  "batch_within C D b \<longleftrightarrow> \<bar>bal_organizer_amount (bt_balance b)\<bar> \<le> C \<and> \<bar>bal_platform_fee (bt_balance b)\<bar> \<le> C
     \<and> \<bar>bt_refunded b\<bar> \<le> D"

lemma within_mono: "within B C s \<Longrightarrow> C \<le> D \<Longrightarrow> within B D s"
  unfolding within_def by (meson order_trans)

lemma batch_within_mono: "batch_within C D b \<Longrightarrow> C \<le> C' \<Longrightarrow> D \<le> D' \<Longrightarrow> batch_within C' D' b"
  by (auto simp: batch_within_def)

lemma in_i128_abs: "\<bar>x\<bar> \<le> c \<Longrightarrow> c \<le> i128_max \<Longrightarrow> in_i128 x"
  by (auto simp: in_i128_def i128_min_def i128_max_def)

lemma in_i128_sum: "\<bar>x\<bar> \<le> c \<Longrightarrow> \<bar>y\<bar> \<le> b \<Longrightarrow> c + b \<le> i128_max \<Longrightarrow> in_i128 (x + y) \<and> in_i128 (x - y)"
  by (auto intro!: in_i128_abs [of _ "c + b"])

section \<open>The transfers that are due\<close>

definition refund_transfer :: "ticket_env \<Rightarrow> payment \<Rightarrow> transfer" where
  "refund_transfer env p = \<lparr>tr_token = pay_token p, tr_from = current_contract env, tr_to = pay_buyer p, tr_amount = pay_amount p\<rparr>"

definition confirmed_payment :: "'a ticket_payments_scheme \<Rightarrow> string \<Rightarrow> payment option" where
  "confirmed_payment s i =
     (case tk_payments s i of Some p \<Rightarrow> if pay_status p = Confirmed then Some p else None | None \<Rightarrow> None)"

definition refunds_due :: "ticket_env \<Rightarrow> string list \<Rightarrow> 'a ticket_payments_scheme \<Rightarrow> transfer list" where
  "refunds_due env ids s = map (refund_transfer env) (List.map_filter (confirmed_payment s) ids)"

definition refund_mark :: "ticket_env \<Rightarrow> payment \<Rightarrow> payment" where
  "refund_mark env p =
     (if pay_status p = Confirmed then p\<lparr>pay_status := Refunded, pay_confirmed_at := Some (timestamp env)\<rparr> else p)"

definition refund_marks :: "ticket_env \<Rightarrow> string set \<Rightarrow> (string \<rightharpoonup> payment) \<Rightarrow> (string \<rightharpoonup> payment)" where
  "refund_marks env ids m = (\<lambda>i. if i \<in> ids then map_option (refund_mark env) (m i) else m i)"

lemma refunds_due_simps [simp]:
  "refunds_due env [] s = []"
  "refunds_due env (i # ids) s =
     (case confirmed_payment s i of Some p \<Rightarrow> [refund_transfer env p] | None \<Rightarrow> []) @ refunds_due env ids s"
  "refunds_due env (ids @ js) s = refunds_due env ids s @ refunds_due env js s"
  by (auto simp: refunds_due_def map_filter_def split: option.splits)

lemma refunds_due_cong:
  "(\<And>i. i \<in> set ids \<Longrightarrow> tk_payments t i = tk_payments s i) \<Longrightarrow> refunds_due env ids t = refunds_due env ids s"
  by (induction ids) (auto simp: confirmed_payment_def split: option.splits)

lemma refund_marks_empty [simp]: "refund_marks env {} m = m"
  by (auto simp: refund_marks_def)

lemma refund_marks_apply: "refund_marks env X m i = (if i \<in> X then map_option (refund_mark env) (m i) else m i)"
  by (simp add: refund_marks_def)

lemma refund_mark_idem [simp]: "refund_mark env (refund_mark env p) = refund_mark env p"
  by (simp add: refund_mark_def)

lemma refund_marks_marks: "refund_marks env X (refund_marks env Y m) = refund_marks env (X \<union> Y) m"
  by (rule ext) (auto simp: refund_marks_apply option.map_comp comp_def intro!: option.map_cong)

text \<open>
  The behaviour that a payout needs of a token: a transfer of an amount that is not negative and that
  the contract has received and not yet paid out is accepted.
\<close>

definition token_pays_out :: "'x env_scheme \<Rightarrow> bool" where
  "token_pays_out env \<longleftrightarrow> (\<forall>log t. tr_from t = current_contract env \<and> 0 \<le> tr_amount t
     \<and> tr_amount t \<le> net_inflow (tr_token t) (current_contract env) log \<longrightarrow> token_accepts env log t)"

definition token_total :: "address \<Rightarrow> transfer list \<Rightarrow> int" where
  "token_total k ts = sum_list (map (\<lambda>t. if tr_token t = k then tr_amount t else 0) ts)"

text \<open>The contract holds what the transfers take.\<close>

definition funded :: "ticket_env \<Rightarrow> transfer list \<Rightarrow> transfer list \<Rightarrow> bool" where
  "funded env ts log \<longleftrightarrow> (\<forall>t\<in>set ts. 0 \<le> tr_amount t \<and> tr_from t = current_contract env)
     \<and> (\<forall>k. token_total k ts \<le> net_inflow k (current_contract env) log)"

lemma token_total_simps [simp]:
  "token_total k [] = 0"
  "token_total k (t # ts) = (if tr_token t = k then tr_amount t else 0) + token_total k ts"
  "token_total k (ts @ us) = token_total k ts + token_total k us"
  by (simp_all add: token_total_def)

lemma token_total_nonneg: "\<forall>t\<in>set ts. 0 \<le> tr_amount t \<Longrightarrow> 0 \<le> token_total k ts"
  by (induction ts) auto

lemma funded_Cons:
  assumes "funded env (t # ts) log" "token_pays_out env"
  shows "token_accepts env log t" "funded env ts (log @ [t])"
proof -
  have t: "0 \<le> tr_amount t" "tr_from t = current_contract env"
    and tot: "\<And>k. token_total k (t # ts) \<le> net_inflow k (current_contract env) log"
    using assms(1) by (auto simp: funded_def)
  have "0 \<le> token_total k ts" for k using assms(1) by (intro token_total_nonneg) (auto simp: funded_def)
  then have "tr_amount t \<le> net_inflow (tr_token t) (current_contract env) log"
    using tot [of "tr_token t"] by (smt (verit) token_total_simps(2))
  then show "token_accepts env log t" using assms(2) t by (simp add: token_pays_out_def)
  have "token_total k ts \<le> net_inflow k (current_contract env) (log @ [t])" for k
    using tot [of k] t by (cases "tr_token t = k") auto
  then show "funded env ts (log @ [t])" using assms(1) by (simp add: funded_def)
qed

lemma funded_append: "funded env (ts @ us) log \<Longrightarrow> funded env us (log @ ts)"
proof (induction ts arbitrary: log)
  case (Cons t ts)
  have t: "0 \<le> tr_amount t" "tr_from t = current_contract env" using Cons.prems by (auto simp: funded_def)
  have "token_total k (ts @ us) \<le> net_inflow k (current_contract env) (log @ [t])" for k
    using Cons.prems t by (auto simp: funded_def split: if_splits) (smt (verit))+
  then have "funded env (ts @ us) (log @ [t])" using Cons.prems by (auto simp: funded_def)
  then show ?case using Cons.IH by fastforce
qed simp

lemma funded_left: "funded env (ts @ us) log \<Longrightarrow> funded env ts log"
proof -
  assume f: "funded env (ts @ us) log"
  have "token_total k ts \<le> net_inflow k (current_contract env) log" for k
  proof -
    have "0 \<le> token_total k us" using f by (intro token_total_nonneg) (simp add: funded_def)
    moreover have "token_total k ts + token_total k us \<le> net_inflow k (current_contract env) log"
      using f by (simp add: funded_def)
    ultimately show ?thesis by linarith
  qed
  then show ?thesis using f by (simp add: funded_def)
qed

text \<open>What a call leaves alone.\<close>

definition same_guards :: "'a ticket_ledger_scheme \<Rightarrow> 'a ticket_ledger_scheme \<Rightarrow> bool" where
  "same_guards s t \<longleftrightarrow> tk_initialized t = tk_initialized s \<and> tk_paused t = tk_paused s
     \<and> tk_event_registry t = tk_event_registry s \<and> tk_bulk_index t = tk_bulk_index s
     \<and> tk_balances t = tk_balances s \<and> tk_escrow_total t = tk_escrow_total s"

lemma same_guards_trans: "same_guards s t \<Longrightarrow> same_guards t u \<Longrightarrow> same_guards s u"
  by (simp add: same_guards_def)

lemma keeps_tickets_list: "keeps_tickets s t \<Longrightarrow> get_event_payments e t = get_event_payments e s"
  by (simp only: keeps_tickets_def edited_def get_event_payments_def)


section \<open>The loop\<close>

lemma bulk_refund_one_ok:
  assumes "token_accepts env (tk_transfers s) (refund_transfer env p)" "own_ids s" "tk_payments s i = Some p"
    "pay_status p = Confirmed" "within B C s" "batch_within C D b" "D \<le> C" "C + B \<le> i128_max" "bt_count b + 1 < 2 ^ 32"
  obtains s' b' where "bulk_refund_one env p b s = Ok (s', b')" "within B (C + B) s'" "batch_within (C + B) (D + B) b'"
    "bt_count b' = bt_count b + 1" "same_guards s s'" "tk_transfers s' = tk_transfers s @ [refund_transfer env p]"
    "tk_payments s' = refund_marks env {i} (tk_payments s)"
proof -
  let ?q = "p\<lparr>pay_status := Refunded, pay_confirmed_at := Some (timestamp env)\<rparr>"
  let ?s = "s\<lparr>tk_transfers := tk_transfers s @ [refund_transfer env p], tk_payments := (tk_payments s)(i \<mapsto> ?q),
    tk_escrow_by_token := (tk_escrow_by_token s)(pay_token p := tk_escrow_by_token s (pay_token p) - pay_amount p)\<rparr>"
  let ?b = "b\<lparr>bt_balance := (bt_balance b)\<lparr>bal_organizer_amount := bal_organizer_amount (bt_balance b) - pay_organizer_amount p,
      bal_platform_fee := bal_platform_fee (bt_balance b) - pay_platform_fee p\<rparr>,
    bt_refunded := bt_refunded b + pay_amount p, bt_count := bt_count b + 1\<rparr>"
  have B: "\<bar>pay_amount p\<bar> \<le> B" "\<bar>pay_organizer_amount p\<bar> \<le> B" "\<bar>pay_platform_fee p\<bar> \<le> B"
    using assms(3,5) by (auto simp: within_def)
  have i: "pay_id p = i" by (rule own_idsD [OF assms(2,3)])
  have b: "\<bar>bal_organizer_amount (bt_balance b)\<bar> \<le> C" "\<bar>bal_platform_fee (bt_balance b)\<bar> \<le> C" "\<bar>bt_refunded b\<bar> \<le> D"
    using assms(6) by (auto simp: batch_within_def)
  have k: "\<bar>tk_escrow_by_token s k\<bar> \<le> C" for k using assms(5) by (simp add: within_def)
  have "in_i128 (bal_organizer_amount (bt_balance b) - pay_organizer_amount p)"
      "in_i128 (bal_platform_fee (bt_balance b) - pay_platform_fee p)" "in_i128 (bt_refunded b + pay_amount p)"
      "in_i128 (tk_escrow_by_token s (pay_token p) - pay_amount p)"
    using in_i128_sum [OF b(1) B(2) assms(8)] in_i128_sum [OF b(2) B(3) assms(8)] in_i128_sum [OF b(3) B(1)]
      in_i128_sum [OF k B(1) assms(8), of "pay_token p"] assms(7,8) by simp_all
  then have run: "bulk_refund_one env p b s = Ok (?s, ?b)"
    using assms(1,3,9) i by (simp add: bulk_refund_one_def store_payment_def refund_transfer_def)
  have bound: "within B (C + B) ?s"
  proof -
    have "0 \<le> B" using B(1) by simp
    then have "within B (C + B) s" by (intro within_mono [OF assms(5)]) simp
    moreover have "\<bar>tk_escrow_by_token s (pay_token p) - pay_amount p\<bar> \<le> C + B" using k [of "pay_token p"] B(1) by linarith
    ultimately show ?thesis using B by (simp add: within_def)
  qed
  have batch: "batch_within (C + B) (D + B) ?b" using b B unfolding batch_within_def by simp linarith
  have marks: "tk_payments ?s = refund_marks env {i} (tk_payments s)"
    using assms(3,4) by (auto simp: refund_marks_apply refund_mark_def fun_eq_iff)
  show ?thesis by (rule that [OF run bound batch _ _ _ marks]) (simp_all add: same_guards_def)
qed

lemma bulk_refund_loop_ok:
  assumes "token_pays_out env" "own_ids s" "within B C s" "batch_within C D b" "D \<le> C" "0 \<le> B"
    "C + B * int (length ids) \<le> i128_max" "bt_count b + length ids < 2 ^ 32" "distinct ids"
    "funded env (refunds_due env ids s) (tk_transfers s)"
  shows "\<exists>s' b'. bulk_refund_loop env ids b s = Ok (s', b') \<and> within B (C + B * int (length ids)) s'
    \<and> batch_within (C + B * int (length ids)) (D + B * int (length ids)) b' \<and> bt_count b' \<le> bt_count b + length ids \<and> same_guards s s'
    \<and> tk_transfers s' = tk_transfers s @ refunds_due env ids s \<and> tk_payments s' = refund_marks env (set ids) (tk_payments s)"
  using assms(2-10)
proof (induction ids arbitrary: b s C D)
  case Nil
  then show ?case by (simp add: same_guards_def)
next
  case (Cons i ids)
  have more: "C + B * int (length (i # ids)) = (C + B) + B * int (length ids)" "D + B * int (length (i # ids)) = (D + B) + B * int (length ids)"
    by (simp_all add: algebra_simps)
  have "0 \<le> B * int (length ids)" using Cons.prems(5) by simp
  then have C: "C + B \<le> i128_max" using Cons.prems(6) unfolding more by linarith
  show ?case
  proof (cases "confirmed_payment s i")
    case (Some p)
    then have p: "tk_payments s i = Some p" "pay_status p = Confirmed"
      by (auto simp: confirmed_payment_def split: option.splits if_splits)
    have "funded env (refund_transfer env p # refunds_due env ids s) (tk_transfers s)" using Cons.prems(9) Some by simp
    note pays = funded_Cons [OF this assms(1)]
    obtain s1 b1 where one: "bulk_refund_one env p b s = Ok (s1, b1)" "within B (C + B) s1" "batch_within (C + B) (D + B) b1"
        "bt_count b1 = bt_count b + 1" "same_guards s s1" "tk_transfers s1 = tk_transfers s @ [refund_transfer env p]"
        "tk_payments s1 = refund_marks env {i} (tk_payments s)"
      using Cons.prems(7) by (elim bulk_refund_one_ok [OF pays(1) Cons.prems(1) p Cons.prems(2-4) C, rotated]) simp_all
    have own: "own_ids s1" by (rule keeps_tickets_own_ids [OF batch_steps_keep(1) [OF Cons.prems(1) p(1) one(1)] Cons.prems(1)])
    have due: "refunds_due env ids s1 = refunds_due env ids s"
      using Cons.prems(8) by (intro refunds_due_cong) (auto simp: one(7) refund_marks_apply)
    obtain s' b' where rest: "bulk_refund_loop env ids b1 s1 = Ok (s', b')" "within B (C + B + B * int (length ids)) s'"
        "batch_within (C + B + B * int (length ids)) (D + B + B * int (length ids)) b'" "bt_count b' \<le> bt_count b1 + length ids" "same_guards s1 s'"
        "tk_transfers s' = tk_transfers s1 @ refunds_due env ids s" "tk_payments s' = refund_marks env (set ids) (tk_payments s1)"
      using Cons.IH [OF own one(2,3) _ Cons.prems(5)] Cons.prems(4,6,7,8) one(4,6) more pays(2) due by auto
    have "bulk_refund_loop env (i # ids) b s = Ok (s', b')" using p one(1) rest(1) by simp
    moreover have "tk_payments s' = refund_marks env (set (i # ids)) (tk_payments s)"
      by (simp add: rest(7) one(7) refund_marks_marks)
    ultimately show ?thesis using rest(2-6) one(4,6) Some same_guards_trans [OF one(5) rest(5)] unfolding more by auto
  next
    case None
    then have "bulk_refund_loop env (i # ids) b s = bulk_refund_loop env ids b s"
      by (auto simp: confirmed_payment_def split: option.splits if_splits)
    moreover have "refund_marks env (set (i # ids)) (tk_payments s) = refund_marks env (set ids) (tk_payments s)"
      using None by (auto simp: fun_eq_iff refund_marks_apply confirmed_payment_def refund_mark_def split: option.splits if_splits)
    moreover have "within B (C + B) s" "batch_within (C + B) (D + B) b"
      using within_mono [OF Cons.prems(2)] batch_within_mono [OF Cons.prems(3)] Cons.prems(5) by auto
    ultimately show ?thesis
      using Cons.IH [OF Cons.prems(1), of "C + B" "D + B" b] Cons.prems(4-9) None unfolding more by auto
  qed
qed

section \<open>One call\<close>

text \<open>The conditions under which a call is made: the contract runs, the event is cancelled, its organizer calls.\<close>

definition bulk_ready :: "ticket_env \<Rightarrow> string \<Rightarrow> 'a ticket_ledger_scheme \<Rightarrow> bool" where
  "bulk_ready env e s \<longleftrightarrow> tk_initialized s \<and> \<not> tk_paused s \<and> payments_inv s
     \<and> (case tk_event_registry s of
          Some r \<Rightarrow> (case registry_event env r e of
             Some info \<Rightarrow> authorised env (ei_organizer info) \<and> \<not> ei_is_active info \<and> ei_status info = Cancelled
           | None \<Rightarrow> False)
        | None \<Rightarrow> False)"

lemma bulk_ready_lookup:
  assumes "bulk_ready env e s"
  obtains info where "lookup_event env e s = Ok info" "authorised env (ei_organizer info)" "\<not> ei_is_active info"
    "ei_status info = Cancelled"
  using assms that by (auto simp: bulk_ready_def split: option.splits)

lemma finish_batch_ok:
  assumes "within B C s" "batch_within C D b" "\<bar>tk_escrow_total s\<bar> + D \<le> C" "C \<le> i128_max"
  obtains t where "finish_batch e b s = Ok t" "within B C t" "tk_payments t = tk_payments s" "tk_transfers t = tk_transfers s" "keeps_tickets s t"
    "tk_initialized t = tk_initialized s" "tk_paused t = tk_paused s" "tk_event_registry t = tk_event_registry s"
    "tk_bulk_index t = tk_bulk_index s"
proof (cases "bt_count b > 0")
  case True
  have "\<bar>tk_escrow_total s - bt_refunded b\<bar> \<le> C" using assms(2,3) by (auto simp: batch_within_def)
  then have fin: "finish_batch e b s = Ok (s\<lparr>tk_balances := (tk_balances s)(e := bt_balance b), tk_escrow_total := tk_escrow_total s - bt_refunded b\<rparr>)"
    and "within B C (s\<lparr>tk_balances := (tk_balances s)(e := bt_balance b), tk_escrow_total := tk_escrow_total s - bt_refunded b\<rparr>)"
    using True assms(1,2,4) in_i128_abs by (auto simp: finish_batch_def set_event_balance_def within_def batch_within_def)
  with finish_batch_keeps [OF fin] show ?thesis by (intro that [OF fin]) auto
next
  case False
  then have "finish_batch e b s = Ok s" by (simp add: finish_batch_def)
  then show ?thesis by (rule that) (use assms in auto)
qed

lemma trigger_bulk_refund_ok:
  assumes pays: "token_pays_out env" and ready: "bulk_ready env e s" and "0 < n" "0 \<le> B"
    and bound: "within B C s" "C + B * int m \<le> i128_max" "m = min n (length (get_event_payments e s) - tk_bulk_index s e)"
    and size: "tk_bulk_index s e < length (get_event_payments e s)" "length (get_event_payments e s) + n < 2 ^ 32"
    and ids: "ids = take m (drop (tk_bulk_index s e) (get_event_payments e s))"
    and funds: "funded env (refunds_due env ids s) (tk_transfers s)"
  obtains s' v where "trigger_bulk_refund env e n s = Ok (s', v)" "bulk_ready env e s'" "within B (C + B * int m) s'"
    "get_event_payments e s' = get_event_payments e s" "tk_bulk_index s' e = tk_bulk_index s e + m"
    "tk_transfers s' = tk_transfers s @ refunds_due env ids s" "tk_payments s' = refund_marks env (set ids) (tk_payments s)"
proof -
  let ?L = "get_event_payments e s" and ?k = "tk_bulk_index s e"
  let ?b = "\<lparr>bt_balance = tk_balances s e, bt_refunded = 0, bt_count = 0\<rparr>"
  have inv: "payments_inv s" using ready by (simp add: bulk_ready_def)
  have dist: "distinct ids" using payments_invD(3) [OF inv, of e] by (simp add: ids)
  have len: "length ids = m" using bound(3) by (simp add: ids)
  have stop: "min (?k + n) (length ?L) = ?k + m" using bound(3) size(1) by simp
  have "0 \<le> B * int m" using assms(4) by simp
  have C: "\<bar>tk_escrow_total s\<bar> \<le> C" "batch_within C 0 ?b" using bound(1) by (auto simp: within_def batch_within_def)
  have pre: "0 \<le> C" "C + B * int (length ids) \<le> i128_max" "bt_count ?b + length ids < 2 ^ 32"
    using C(1) bound(2) size(2) bound(3) unfolding len by simp_all
  obtain s1 b where loop: "bulk_refund_loop env ids ?b s = Ok (s1, b)" "within B (C + B * int m) s1"
      "batch_within (C + B * int m) (B * int m) b" "same_guards s s1" "tk_transfers s1 = tk_transfers s @ refunds_due env ids s"
      "tk_payments s1 = refund_marks env (set ids) (tk_payments s)"
    using bulk_refund_loop_ok [OF pays payments_inv_own_ids [OF inv] bound(1) C(2) pre(1) assms(4) pre(2,3) dist funds] unfolding len by auto
  obtain s2 where fin: "finish_batch e b s1 = Ok s2" "within B (C + B * int m) s2" "tk_payments s2 = tk_payments s1"
      "tk_transfers s2 = tk_transfers s1" "keeps_tickets s1 s2"
      "tk_initialized s2 = tk_initialized s1" "tk_paused s2 = tk_paused s1" "tk_event_registry s2 = tk_event_registry s1"
      "tk_bulk_index s2 = tk_bulk_index s1"
    using C(1) loop(4) bound(2) by (elim finish_batch_ok [OF loop(2,3), rotated 2]) (auto simp: same_guards_def)
  let ?s = "tpublish (BulkRefundProcessed_event e (bt_count b) (bt_refunded b) (timestamp env))
    (s2\<lparr>tk_bulk_index := (tk_bulk_index s2)(e := ?k + m)\<rparr>)"
  obtain info where info: "lookup_event env e s = Ok info" "authorised env (ei_organizer info)" "\<not> ei_is_active info"
    "ei_status info = Cancelled" by (rule bulk_ready_lookup [OF ready])
  have run: "trigger_bulk_refund env e n s = Ok (?s, bt_count b)"
    unfolding trigger_bulk_refund_def info(1) rbind.simps Let_def
    using ready info(2-4) size stop loop(1) fin(1) by (simp add: bulk_ready_def require_auth_def add_u_def ids)
  have keep: "keeps_tickets s ?s" by (rule trigger_bulk_refund_keeps [OF run payments_inv_own_ids [OF inv]])
  have "bulk_ready env e ?s" using ready payments_inv_keeps [OF keep inv] loop(4) fin(6-8) by (simp add: bulk_ready_def same_guards_def)
  moreover have "within B (C + B * int m) ?s" using fin(2) by (simp add: within_def)
  moreover have "get_event_payments e ?s = ?L" using keep by (rule keeps_tickets_list)
  ultimately show ?thesis
    using that [OF run] loop(5,6) fin(3,4) by simp
qed


section \<open>All calls\<close>

text \<open>The organizer calls a number of times with the same batch size.\<close>

fun bulk_refund_rounds ::
    "ticket_env \<Rightarrow> string \<Rightarrow> nat \<Rightarrow> nat \<Rightarrow> 'a ticket_ledger_scheme \<Rightarrow> (ticket_error, 'a ticket_ledger_scheme) result" where
  "bulk_refund_rounds env e n 0 s = Ok s"
| "bulk_refund_rounds env e n (Suc rounds) s =
     rbind (trigger_bulk_refund env e n s) (\<lambda>(s1, _). bulk_refund_rounds env e n rounds s1)"

lemma trigger_bulk_refund_end:
  assumes "bulk_ready env e s" "length (get_event_payments e s) \<le> tk_bulk_index s e"
  shows "trigger_bulk_refund env e n s = Ok (s, 0)"
proof -
  obtain info where info: "lookup_event env e s = Ok info" "authorised env (ei_organizer info)" "\<not> ei_is_active info"
    "ei_status info = Cancelled" by (rule bulk_ready_lookup [OF assms(1)])
  show ?thesis unfolding trigger_bulk_refund_def info(1) rbind.simps Let_def
    using assms info(2-4) by (simp add: bulk_ready_def require_auth_def)
qed

lemma bulk_refund_rounds_ok:
  assumes "token_pays_out env" "bulk_ready env e s" "0 < n" "0 \<le> B" "within B C s"
    "C + B * int (length (get_event_payments e s) - tk_bulk_index s e) \<le> i128_max"
    "length (get_event_payments e s) + n < 2 ^ 32" "length (get_event_payments e s) \<le> tk_bulk_index s e + rounds"
    "funded env (refunds_due env (drop (tk_bulk_index s e) (get_event_payments e s)) s) (tk_transfers s)"
  shows "\<exists>t. bulk_refund_rounds env e n rounds s = Ok t
    \<and> tk_transfers t = tk_transfers s @ refunds_due env (drop (tk_bulk_index s e) (get_event_payments e s)) s
    \<and> tk_payments t = refund_marks env (set (drop (tk_bulk_index s e) (get_event_payments e s))) (tk_payments s)"
  using assms(2,5-9)
proof (induction rounds arbitrary: s C)
  case 0
  then show ?case by simp
next
  case (Suc rounds)
  let ?L = "get_event_payments e s" and ?k = "tk_bulk_index s e"
  show ?case
  proof (cases "length ?L \<le> ?k")
    case True
    then have "bulk_refund_rounds env e n (Suc rounds) s = bulk_refund_rounds env e n rounds s"
      using trigger_bulk_refund_end [OF Suc.prems(1), of n] by simp
    then show ?thesis using Suc.IH [OF Suc.prems(1-4)] Suc.prems(6) True by simp
  next
    case False
    define m where "m = min n (length ?L - ?k)"
    define now where "now = take m (drop ?k ?L)"
    define later where "later = drop (?k + m) ?L"
    have m: "0 < m" "?k + m \<le> length ?L" using False assms(3) by (auto simp: m_def)
    have parts: "drop ?k ?L = now @ later" by (simp add: now_def later_def add.commute flip: drop_drop)
    have inv: "payments_inv s" using Suc.prems(1) by (simp add: bulk_ready_def)
    then have "distinct (drop ?k ?L)" using payments_invD(3) [OF inv, of e] by simp
    then have apart: "set now \<inter> set later = {}" unfolding parts by simp
    have step: "C + B * int m + B * int (length ?L - (?k + m)) = C + B * int (length ?L - ?k)"
      using m by (simp add: of_nat_diff algebra_simps)
    moreover have "0 \<le> B * int (length ?L - (?k + m))" using assms(4) by simp
    ultimately have bound: "C + B * int m \<le> i128_max" using Suc.prems(3) by linarith
    have both: "funded env (refunds_due env now s @ refunds_due env later s) (tk_transfers s)"
      using Suc.prems(6) unfolding parts by simp
    then have "funded env (refunds_due env now s) (tk_transfers s)" by (rule funded_left)
    then obtain s1 v where s1: "trigger_bulk_refund env e n s = Ok (s1, v)" "bulk_ready env e s1" "within B (C + B * int m) s1"
        "get_event_payments e s1 = ?L" "tk_bulk_index s1 e = ?k + m" "tk_transfers s1 = tk_transfers s @ refunds_due env now s"
        "tk_payments s1 = refund_marks env (set now) (tk_payments s)"
      using trigger_bulk_refund_ok [OF assms(1) Suc.prems(1) assms(3,4) Suc.prems(2) bound m_def _ Suc.prems(4) now_def] False by auto
    have due: "refunds_due env later s1 = refunds_due env later s"
      using apart by (intro refunds_due_cong) (auto simp: s1(7) refund_marks_apply)
    have rest: "drop (tk_bulk_index s1 e) (get_event_payments e s1) = later" by (simp add: s1(4,5) later_def)
    have "funded env (refunds_due env later s1) (tk_transfers s1)" unfolding due s1(6) by (rule funded_append [OF both])
    then obtain t where "bulk_refund_rounds env e n rounds s1 = Ok t" "tk_transfers t = tk_transfers s1 @ refunds_due env later s1"
        "tk_payments t = refund_marks env (set later) (tk_payments s1)"
      using Suc.IH [OF s1(2,3)] s1(4,5) step Suc.prems(3-5) m(1) unfolding rest by auto
    then show ?thesis unfolding parts by (simp add: s1(1,6,7) due refund_marks_marks Un_commute)
  qed
qed

end
