(* ===== verification/Ticket_Correct.thy ===== *)
theory Ticket_Correct
  imports Ticket_Demo Ticket_Bulk
begin

text \<open>
  The correctness properties of the ticket payment contract, each followed by a witness on a concrete run:
  the lists of payments, the votes of the governors, the money of a sale, of a resale, of a withdrawal and of
  a batch refund.
\<close>

section \<open>The payments of an event\<close>





section \<open>Governors\<close>






section \<open>Refunds\<close>





section \<open>Withdrawals\<close>

text \<open>C14: with a release plan of at most 100 percent, a withdrawal of the organizer takes no more than the
  organizer's balance, and what has been withdrawn in total is then within the released percentage of all
  revenue; the amount moves from the balance to the withdrawn total, is transferred to the organizer, and an
  immediate second withdrawal takes nothing.\<close>

theorem withdrawal_within_release:
  assumes "withdraw_organizer_funds env e k s = Ok (s', v)" "lookup_event env e s = Ok info" "release_percent info \<le> 10000"
    "0 \<le> bal_organizer_amount (tk_balances s e)" "0 \<le> bal_total_withdrawn (tk_balances s e)" "v \<noteq> 0"
  shows "0 < v \<and> v \<le> bal_organizer_amount (tk_balances s e)
    \<and> bal_organizer_amount (tk_balances s' e) = bal_organizer_amount (tk_balances s e) - v
    \<and> bal_total_withdrawn (tk_balances s' e) = bal_total_withdrawn (tk_balances s e) + v
    \<and> bal_total_withdrawn (tk_balances s' e) \<le>
        (bal_organizer_amount (tk_balances s e) + bal_total_withdrawn (tk_balances s e)) * int (release_percent info) div 10000
    \<and> tk_transfers s' = tk_transfers s @ [\<lparr>tr_token = k, tr_from = current_contract env, tr_to = ei_organizer info, tr_amount = v\<rparr>]
    \<and> withdraw_organizer_funds env e k s' = Ok (s', 0)"
proof -
  let ?b = "tk_balances s e" and ?b' = "tk_balances s' e"
  let ?rev = "bal_organizer_amount ?b + bal_total_withdrawn ?b"
  let ?max = "trunc_div (?rev * int (release_percent info)) (int MAX_BPS)"
  let ?avail = "?max - bal_total_withdrawn ?b"
  have run: "0 < ?avail" "v = min ?avail (bal_organizer_amount ?b)" "bal_organizer_amount ?b' = bal_organizer_amount ?b - v"
      "bal_total_withdrawn ?b' = bal_total_withdrawn ?b + v" "in_i128 ?rev" "in_i128 (?rev * int (release_percent info))"
      "in_i128 ?max" "tk_event_registry s' = tk_event_registry s" "?rev \<noteq> 0" "in_i128 (bal_total_withdrawn ?b + v)"
      "tk_transfers s' = tk_transfers s @ [\<lparr>tr_token = k, tr_from = current_contract env, tr_to = ei_organizer info, tr_amount = v\<rparr>]"
    and guards: "authorised env (ei_organizer info)" "ei_status info \<noteq> Cancelled" "is_event_disputed env e s = Ok False"
      "\<not> (ei_min_sales_target info > 0 \<and> \<not> ei_goal_met info)"
      "ei_end_time info > 0 \<longrightarrow> ei_end_time info + ESCROW_DELAY < 2 ^ 64 \<and> ei_end_time info + ESCROW_DELAY \<le> timestamp env"
    using assms(1,2,6)
    by (auto simp: withdraw_organizer_funds_def set_event_balance_def Let_def split: if_splits)
  have max: "?max = ?rev * int (release_percent info) div 10000"
    using assms(4,5) by (simp add: MAX_BPS_def trunc_div_nonneg)
  have "?rev * int (release_percent info) \<le> ?rev * 10000" using assms(3-5) by (intro mult_left_mono) auto
  then have "?max \<le> ?rev * 10000 div 10000" unfolding max by (rule zdiv_mono1) simp
  then have v: "v = ?avail" "0 < v" "v \<le> bal_organizer_amount ?b" using run(1,2) by auto
  have rev: "bal_organizer_amount ?b' + bal_total_withdrawn ?b' = ?rev" using run(3,4) by simp
  have w: "bal_total_withdrawn ?b' = ?max" using run(4) v(1) by simp
  have look: "lookup_event env e s' = Ok info" "is_event_disputed env e s' = Ok False"
    using assms(2) guards(3) run(8) by (simp_all add: lookup_event_def is_event_disputed_def)
  have again: "withdraw_organizer_funds env e k s' = Ok (s', 0)"
    unfolding withdraw_organizer_funds_def look rev w Let_def rbind.simps
    using guards run(5-7,9) w rev
    by (simp add: require_auth_def add_u_def) (auto simp: MAX_BPS_def in_i128_def i128_min_def i128_max_def)
  show ?thesis using v run(3,4,11) w max again by simp
qed

theorem withdrawal_within_release_witness:
  "\<exists>s'. withdraw_organizer_funds (ticket_demo_env Inactive 90000) ''e1'' ''usdc'' ticket_demo_state = Ok (s', 950)
     \<and> bal_total_withdrawn (tk_balances s' ''e1'') \<le> 950 \<and> withdraw_organizer_funds (ticket_demo_env Inactive 90000) ''e1'' ''usdc'' s' = Ok (s', 0)"
proof -
  let ?env = "ticket_demo_env Inactive 90000"
  have info: "lookup_event ?env ''e1'' ticket_demo_state = Ok (ticket_demo_event Inactive)"
    by (simp add: lookup_event_def ticket_demo_fields ticket_demo_env_def unwrap_def ok_or_def)
  have rel: "release_percent (ticket_demo_event Inactive) = 10000"
    by (simp add: release_percent_def ticket_demo_event_def MAX_BPS_def)
  obtain s' where s': "withdraw_organizer_funds ?env ''e1'' ''usdc'' ticket_demo_state = Ok (s', 950)"
    unfolding withdraw_organizer_funds_def info rbind.simps rel
    by (auto simp: ticket_demo_fields set_event_balance_def subtract_from_active_escrow_total_def
        subtract_from_active_escrow_by_token_def ticket_host_eval ticket_env_eval ticket_config_eval ESCROW_DELAY_def)
  show ?thesis using withdrawal_within_release [OF s' info] s' by (simp add: rel ticket_demo_fields)
qed

section \<open>The money of a sale\<close>

lemma share_bounds:
  assumes "0 \<le> x" "b \<le> MAX_BPS"
  shows "0 \<le> trunc_div (x * int b) (int MAX_BPS)" "trunc_div (x * int b) (int MAX_BPS) \<le> x"
proof -
  have m: "0 \<le> x * int b" "x * int b \<le> x * int MAX_BPS" using assms by (auto intro: mult_left_mono)
  then have "x * int b div int MAX_BPS \<le> x * int MAX_BPS div int MAX_BPS" by (intro zdiv_mono1) (auto simp: MAX_BPS_def)
  with m show "0 \<le> trunc_div (x * int b) (int MAX_BPS)" "trunc_div (x * int b) (int MAX_BPS) \<le> x"
    by (simp_all add: trunc_div_nonneg MAX_BPS_def pos_imp_zdiv_nonneg_iff)
qed

lemma share_nonneg: "0 \<le> x \<Longrightarrow> 0 \<le> trunc_div (x * int b) (int MAX_BPS)"
  by (simp add: trunc_div_nonneg MAX_BPS_def pos_imp_zdiv_nonneg_iff)

lemma referral_part_parts:
  assumes "referral_part rate pf oa = Ok (pf', rr)" "0 \<le> pf" "0 \<le> oa"
  shows "0 \<le> pf'" "0 \<le> rr" "rr \<le> oa" "pf' + rr \<le> pf" "rate = None \<Longrightarrow> rr = 0 \<and> pf' = pf"
  using assms share_nonneg [OF assms(2)] by (auto simp: referral_part_def Let_def split: option.splits)

text \<open>The parts of a payment: with a fee rate of at most 100 percent they are not negative, and together they
  never exceed what the buyer pays; without a referrer they are exactly it.\<close>

lemma split_payment_parts:
  assumes "split_payment fee loy rate x = Ok (paid, pf, oa, rr)" "0 \<le> x" "fee \<le> MAX_BPS"
  shows "0 \<le> pf" "0 \<le> oa" "0 \<le> rr" "pf + oa + 2 * rr \<le> paid" "paid \<le> x" "rate = None \<Longrightarrow> rr = 0 \<and> pf + oa = paid"
proof -
  define g where "g = trunc_div (x * int fee) (int MAX_BPS)"
  have g: "0 \<le> g" "g \<le> x" using share_bounds [OF assms(2,3)] by (simp_all add: g_def)
  have "\<exists>d. 0 \<le> d \<and> d \<le> g \<and> paid = x - d \<and> referral_part rate (g - d) (x - d - (g - d)) = Ok (pf, rr)
      \<and> oa = x - d - (g - d) - rr"
    using assms(1) g(1) share_nonneg [OF g(1), of loy]
    by (cases "loy > 0") (auto simp: split_payment_def g_def [symmetric] split: if_splits)
  then obtain d where d: "0 \<le> d" "d \<le> g" "paid = x - d" "referral_part rate (g - d) (x - g) = Ok (pf, rr)" "oa = x - g - rr"
    by auto
  note parts = referral_part_parts [OF d(4)]
  show "0 \<le> pf" "0 \<le> oa" "0 \<le> rr" "pf + oa + 2 * rr \<le> paid" "paid \<le> x" using parts(1-4) d g by auto
  show "rate = None \<Longrightarrow> rr = 0 \<and> pf + oa = paid" using parts(5) d g by auto
qed

text \<open>Steps that move no money and change no account.\<close>

definition same_money :: "'a ticket_ledger_scheme \<Rightarrow> 'a ticket_ledger_scheme \<Rightarrow> bool" where
  "same_money s t \<longleftrightarrow> tk_transfers t = tk_transfers s \<and> tk_balances t = tk_balances s \<and> tk_fees t = tk_fees s"

lemma sale_steps_same_money:
  "apply_discount_code env e c m s = Ok (m', s1) \<Longrightarrow> same_money s s1"
  "same_money s (note_price_switch env e j tier s)"
  "same_money s (publish_sale env i e a m m' s)"
  "same_money s (award_loyalty env a n m l s)"
  "same_money s (publish_discounts env i e hash b m m' m'' s)"
  by (auto simp: apply_discount_code_def note_price_switch_def publish_sale_def award_loyalty_def publish_discounts_def
      same_money_def call_registry_def tpublish_def Let_def split: option.splits if_splits)

lemma store_payment_same_money: "store_payment p s = Ok t \<Longrightarrow> same_money s t"
  by (auto simp: store_payment_def add_payment_to_event_index_def append_event_payment_def add_payment_to_buyer_index_def
      append_buyer_payment_def add_payment_to_status_index_def same_money_def Let_def split: if_splits)

lemma store_tickets_same_money: "store_tickets h f is s = Ok t \<Longrightarrow> same_money s t"
  by (induction "is" arbitrary: s) (fastforce simp: same_money_def dest: store_payment_same_money)+

text \<open>A discount lowers the price to a share of it.\<close>

lemma part_bounds:
  assumes "0 \<le> x" "0 \<le> c" "c \<le> d" "0 < d"
  shows "0 \<le> trunc_div (x * c) d" "trunc_div (x * c) d \<le> x"
proof -
  have "0 \<le> x * c" "x * c \<le> x * d" using assms by (auto intro: mult_left_mono)
  then show "0 \<le> trunc_div (x * c) d" "trunc_div (x * c) d \<le> x"
    using zdiv_mono1 [of "x * c" "x * d" d] assms by (simp_all add: trunc_div_nonneg pos_imp_zdiv_nonneg_iff)
qed

lemma discounts_lower:
  "0 \<le> m \<Longrightarrow> apply_global_promo env r m = Ok (m', b) \<Longrightarrow> 0 \<le> m' \<and> m' \<le> m"
  "0 \<le> m \<Longrightarrow> apply_code_preimage env pre m s = Ok (m', hash) \<Longrightarrow> 0 \<le> m' \<and> m' \<le> m"
  "0 \<le> m \<Longrightarrow> apply_discount_code env e c m s = Ok (m', s1) \<Longrightarrow> 0 \<le> m' \<and> m' \<le> m"
  by (auto simp: apply_global_promo_def apply_code_preimage_def apply_discount_code_def Let_def
      split: option.splits if_splits intro: part_bounds)

lemma take_payment_transfers:
  assumes "take_payment env k a ref paid rr s = Ok t" "0 \<le> rr" "ref = None \<Longrightarrow> rr = 0"
    "a \<noteq> current_contract env" "ref \<noteq> Some (current_contract env)"
  shows "tk_balances t = tk_balances s \<and> tk_fees t = tk_fees s
    \<and> net_inflow k (current_contract env) (tk_transfers t) = net_inflow k (current_contract env) (tk_transfers s) + paid - rr"
  using assms by (auto simp: take_payment_def Let_def split: option.splits if_splits)

lemma settle_sale_money:
  assumes "settle_sale env i e j a ow k v n ref h m c (paid, pf, oa, rr) s = Ok t" "0 \<le> rr" "ref = None \<Longrightarrow> rr = 0"
    "a \<noteq> current_contract env" "ref \<noteq> Some (current_contract env)"
  shows "net_inflow k (current_contract env) (tk_transfers t) = net_inflow k (current_contract env) (tk_transfers s) + paid - rr
    \<and> bal_organizer_amount (tk_balances t e) = bal_organizer_amount (tk_balances s e) + oa
    \<and> bal_platform_fee (tk_balances t e) = bal_platform_fee (tk_balances s e) + pf
    \<and> tk_fees t k = tk_fees s k + pf"
proof -
  obtain s1 s2 s4 f where s1: "take_payment env k a ref paid rr s = Ok s1" and s2: "book_sale e k m oa pf s1 = Ok s2"
    and s4: "call_registry env (IncrementInventory e j ow n k)
      (case c of Some hash \<Rightarrow> s2\<lparr>tk_discount_used := insert hash (tk_discount_used s2)\<rparr> | None \<Rightarrow> s2) = Ok s4"
    and st: "store_tickets h f [0..<n] s4 = Ok t"
    using assms(1) by (auto simp: settle_sale_def Let_def simp del: step_simps)
  have "same_money s2 s4" using s4 by (auto simp: same_money_def split: option.splits)
  then show ?thesis
    using take_payment_transfers [OF s1 assms(2-5)] s2 store_tickets_same_money [OF st]
    by (auto simp: book_sale_def same_money_def)
qed

text \<open>C2: a sale is covered by what it takes in.  When the fee rate is at most 100 percent and neither the buyer
  nor the referrer is the contract itself, a successful purchase pulls a payment of at most the full price
  from the buyer; what it books for the organizer and as platform fee, with the referral reward counted
  twice, is at most that payment, and without a referrer exactly that payment; the contract's holdings grow by
  the payment less the reward that it passes on.\<close>

theorem sale_is_covered:
  assumes "process_payment env i e j a ow k v n opts h s = Ok (s', x)"
    "tk_event_registry s = Some r" "registry_event env r e = Some info"
    "unwrap_or (ei_custom_fee_bps info) (ei_platform_fee_percent info) \<le> 10000"
    "a \<noteq> current_contract env" "opt_referrer opts \<noteq> Some (current_contract env)"
  shows "\<exists>paid fee organizer reward. 0 \<le> fee \<and> 0 \<le> organizer \<and> 0 \<le> reward \<and> paid \<le> v * int n
    \<and> fee + organizer + 2 * reward \<le> paid \<and> (opt_referrer opts = None \<longrightarrow> reward = 0 \<and> fee + organizer = paid)
    \<and> net_inflow k (current_contract env) (tk_transfers s') = net_inflow k (current_contract env) (tk_transfers s) + paid - reward
    \<and> bal_organizer_amount (tk_balances s' e) = bal_organizer_amount (tk_balances s e) + organizer
    \<and> bal_platform_fee (tk_balances s' e) = bal_platform_fee (tk_balances s e) + fee
    \<and> tk_fees s' k = tk_fees s k + fee"
proof -
  obtain s1 s2 s3 m1 m2 m3 bps c tier rate paid fee org rew ow' w where
      v: "0 \<le> v" and m1: "apply_global_promo env r (v * int n) = Ok (m1, bps)"
    and m2: "apply_code_preimage env (opt_code_preimage opts) m1 s = Ok (m2, c)"
    and s1: "apply_discount_code env e (opt_discount_code opts) m2 s = Ok (m3, s1)"
    and s2: "s2 = note_price_switch env e j tier s1"
    and split: "split_payment (platform_fee_bps env info s2) (unwrap_or (registry_loyalty_bps env r a) 0) rate m3
      = Ok (paid, fee, org, rew)"
    and rate: "opt_referrer opts = None \<longrightarrow> rate = None"
    and s3: "settle_sale env i e j a ow' k v n (opt_referrer opts) h (v * int n) c (paid, fee, org, rew) s2 = Ok s3"
    and s': "s' = publish_discounts env i e c bps (v * int n) m1 paid
        (award_loyalty env a n paid w (publish_sale env i e a paid fee s3))"
    using assms(1-3) by (auto simp: process_payment_def Let_def split: if_splits option.splits)
  have "platform_fee_bps env info s2 \<le> MAX_BPS" using assms(4) by (auto simp: platform_fee_bps_def MAX_BPS_def Let_def)
  moreover have m: "0 \<le> m3 \<and> m3 \<le> v * int n"
    using v discounts_lower(1) [OF _ m1] discounts_lower(2) [OF _ m2] discounts_lower(3) [OF _ s1] by fastforce
  ultimately have parts: "0 \<le> fee" "0 \<le> org" "0 \<le> rew" "fee + org + 2 * rew \<le> paid" "paid \<le> m3"
      "opt_referrer opts = None \<longrightarrow> rew = 0 \<and> fee + org = paid"
    using split_payment_parts [OF split] rate by auto
  have "same_money s s2" "same_money s3 s'"
    using sale_steps_same_money(1) [OF s1] sale_steps_same_money(2-5) unfolding s2 s' same_money_def by metis+
  then show ?thesis
    using settle_sale_money [OF s3 parts(3) _ assms(5,6)] parts m
    by (intro exI [of _ paid] exI [of _ fee] exI [of _ org] exI [of _ rew]) (simp add: same_money_def)
qed

definition sale_demo :: "(ticket_env \<times> ticket_call) list" where
  "sale_demo = [(ticket_demo_env Active 1, TConfig (TInitialize ''admin'' ''usdc'' ''wallet'' ''registry''))]"

theorem sale_is_covered_witness:
  "\<exists>s s' x. ticket_run sale_demo ticket_empty = Ok s
     \<and> process_payment (ticket_demo_env Active 2) ''p1'' ''e1'' ''ga'' ''bob'' None ''usdc'' 1000 1
         (no_options\<lparr>opt_referrer := Some ''rita''\<rparr>) ''secret'' s = Ok (s', x)
     \<and> bal_organizer_amount (tk_balances s' ''e1'') + bal_platform_fee (tk_balances s' ''e1'')
       \<le> net_inflow ''usdc'' ''tickets'' (tk_transfers s')"
proof -
  let ?env = "ticket_demo_env Active 2" and ?opts = "no_options\<lparr>opt_referrer := Some ''rita''\<rparr>"
  obtain s s' x where s: "ticket_run sale_demo ticket_empty = Ok s"
      "tk_event_registry s = Some ''registry''" "tk_balances s = (\<lambda>_. zero_balance)" "tk_transfers s = []"
    and s': "process_payment ?env ''p1'' ''e1'' ''ga'' ''bob'' None ''usdc'' 1000 1 ?opts ''secret'' s = Ok (s', x)"
    by (simp add: sale_demo_def ticket_host_eval ticket_env_eval ticket_config_eval ticket_sale_eval)
  have "registry_event ?env ''registry'' ''e1'' = Some (ticket_demo_event Active)" by (simp add: ticket_demo_env_def)
  note cover = sale_is_covered [OF s' s(2) this]
  show ?thesis using cover s s'
    by (auto simp: ticket_demo_event_def ticket_demo_env_def zero_balance_def unwrap_or_def no_options_def)
qed

section \<open>Resale\<close>









section \<open>The batch refund completes\<close>

text \<open>C8: the organizer of a cancelled event can refund everybody.  When no batch has run yet, the amounts are small
  enough for the checked arithmetic, the contract holds the money for the confirmed payments of the event,
  and its tokens pay out what it holds, then as many calls of the batch refund as the event has payments, with
  any positive batch size, all succeed.  The transfers that they make are exactly one for each confirmed payment
  of the event, in the order of the event's list, from the contract to the buyer and of the full amount.
  Afterwards the confirmed payments of the event are marked as refunded, at that time, so that no payment of it
  is confirmed, and every other payment is as it was.\<close>

theorem bulk_refund_completes:
  assumes "token_pays_out env" "bulk_ready env e s" "0 < n" "0 \<le> B" "within B C s" "tk_bulk_index s e = 0"
    "C + B * int (length (get_event_payments e s)) \<le> i128_max" "length (get_event_payments e s) + n < 2 ^ 32"
    "funded env (refunds_due env (get_event_payments e s) s) (tk_transfers s)"
  shows "\<exists>t. bulk_refund_rounds env e n (length (get_event_payments e s)) s = Ok t
    \<and> tk_transfers t = tk_transfers s @
        map (\<lambda>p. \<lparr>tr_token = pay_token p, tr_from = current_contract env, tr_to = pay_buyer p, tr_amount = pay_amount p\<rparr>)
          (List.map_filter (confirmed_payment s) (get_event_payments e s))
    \<and> tk_payments t = (\<lambda>i. map_option (\<lambda>p. if pay_event p = e \<and> pay_status p = Confirmed
        then p\<lparr>pay_status := Refunded, pay_confirmed_at := Some (timestamp env)\<rparr> else p) (tk_payments s i))"
proof -
  let ?L = "get_event_payments e s"
  obtain t where t: "bulk_refund_rounds env e n (length ?L) s = Ok t" "tk_transfers t = tk_transfers s @ refunds_due env ?L s"
      "tk_payments t = refund_marks env (set ?L) (tk_payments s)"
    using bulk_refund_rounds_ok [OF assms(1-5), of "length ?L"] assms(6-9) by auto
  have inv: "payments_inv s" using assms(2) by (simp add: bulk_ready_def)
  have "refund_marks env (set ?L) (tk_payments s) i = map_option (\<lambda>p. if pay_event p = e \<and> pay_status p = Confirmed
        then p\<lparr>pay_status := Refunded, pay_confirmed_at := Some (timestamp env)\<rparr> else p) (tk_payments s i)" for i
    using payments_invD(2) [OF inv, of i e] by (cases "tk_payments s i") (auto simp: refund_marks_apply refund_mark_def)
  then show ?thesis using t by (auto simp: refunds_due_def refund_transfer_def [abs_def])
qed

lemma demo_pays_out: "token_pays_out (ticket_demo_env st n)"
  by (simp add: token_pays_out_def ticket_demo_env_def demo_accepts_def demo_balance_def)

theorem bulk_refund_completes_witness:
  "\<exists>t. bulk_refund_rounds (ticket_demo_env Cancelled 50) ''e1'' 5 1 ticket_demo_state = Ok t
     \<and> tk_transfers t = tk_transfers ticket_demo_state @
         [\<lparr>tr_token = ''usdc'', tr_from = ''tickets'', tr_to = ''bob'', tr_amount = 1000\<rparr>]
     \<and> (\<exists>p. tk_payments t ''p1'' = Some p \<and> pay_status p = Refunded)"
proof -
  let ?env = "ticket_demo_env Cancelled 50"
  have ready: "bulk_ready ?env ''e1'' ticket_demo_state"
    using ticket_reachable_inv [OF ticket_demo_reachable]
    by (simp add: bulk_ready_def ticket_inv_def ticket_demo_fields ticket_demo_env_def ticket_demo_event_def)
  have bound: "within 1000 1000 ticket_demo_state"
    by (auto simp: within_def ticket_demo_fields ticket_demo_payment_def zero_balance_def)
  have one: "confirmed_payment ticket_demo_state ''p1'' = Some ticket_demo_payment"
    by (simp add: confirmed_payment_def ticket_demo_fields ticket_demo_payment_def)
  have "funded ?env (refunds_due ?env [''p1''] ticket_demo_state) (tk_transfers ticket_demo_state)"
    by (simp add: funded_def one refund_transfer_def ticket_demo_fields ticket_demo_payment_def ticket_demo_env_def)
  then show ?thesis
    using bulk_refund_completes [OF demo_pays_out ready _ _ bound, of 5] one
    by (auto simp: ticket_demo_fields ticket_demo_env_def i128_max_def ticket_demo_payment_def map_filter_def)
qed

end
