(* ===== verification/Server_Clock.thy ===== *)
theory Server_Clock
  imports Prelude "HOL-Library.AList" "HOL-Library.Word"
begin

text \<open>
  The vector clocks of the server (\<open>src/server/src/crdt/vector_clock.rs\<close>).  A hash map is the list of
  its entries in the order in which the map happens to iterate: the order is arbitrary, and the
  lemmas speak of lookups only, so they hold for every order.  Counters are 64-bit words.  The
  lemmas show that \<open>compare\<close> decides the pointwise order of the counters, where a missing counter is
  zero, and that \<open>merge\<close> is the least upper bound of that order.
\<close>

section \<open>Hash maps\<close>

type_synonym 'v hash_map = "(string \<times> 'v) list"

abbreviation get_key :: "'v hash_map \<Rightarrow> string \<Rightarrow> 'v option" where
  "get_key m k \<equiv> map_of m k"

abbreviation insert_key :: "string \<Rightarrow> 'v \<Rightarrow> 'v hash_map \<Rightarrow> 'v hash_map" where
  "insert_key k v m \<equiv> AList.update k v m"

abbreviation remove_key :: "string \<Rightarrow> 'v hash_map \<Rightarrow> 'v hash_map" where
  "remove_key k m \<equiv> AList.delete k m"

abbreviation map_values :: "'v hash_map \<Rightarrow> 'v list" where
  "map_values m \<equiv> map snd m"

text \<open>A map holds a key at most once.\<close>

abbreviation keys_once :: "'v hash_map \<Rightarrow> bool" where
  "keys_once m \<equiv> distinct (map fst m)"

text \<open>
  The loops of the module visit each entry of one map and write only the same key of another, so
  that afterwards each key holds what the loop body made of it alone.
\<close>

definition upsert :: "('v option \<Rightarrow> 'w \<Rightarrow> 'v option) \<Rightarrow> 'v option \<Rightarrow> 'w option \<Rightarrow> 'v option" where
  "upsert g old new = (case new of None \<Rightarrow> old | Some w \<Rightarrow> g old w)"

lemma upsert_simps [simp]:
  "upsert g old None = old"
  "upsert g old (Some w) = g old w"
  by (simp_all add: upsert_def)

lemma fold_entries_lookup:
  assumes "\<And>m k w l. get_key (body m k w) l = (if l = k then g (get_key m k) w else get_key m l)"
    and "keys_once es"
  shows "get_key (fold (\<lambda>(k, w) m. body m k w) es m) l = upsert g (get_key m l) (get_key es l)"
  using assms(2)
proof (induction es arbitrary: m)
  case (Cons e es)
  obtain k w where e: "e = (k, w)"
    by force
  have "get_key es k = None"
    using Cons.prems by (simp add: e map_of_eq_None_iff)
  then show ?case
    using Cons.prems Cons.IH [of "body m k w"] by (auto simp: e assms(1))
qed simp

lemma fold_entries_once:
  assumes "\<And>m k w. keys_once m \<Longrightarrow> keys_once (body m k w)"
  shows "keys_once m \<Longrightarrow> keys_once (fold (\<lambda>(k, w) m. body m k w) es m)"
  by (induction es arbitrary: m) (auto simp: assms)

lemma insert_key_lookup [simp]: "get_key (insert_key k v m) l = (if l = k then Some v else get_key m l)"
  by (simp add: update_conv')

lemma remove_key_lookup [simp]: "get_key (remove_key k m) l = (if l = k then None else get_key m l)"
  by (simp add: delete_conv')

section \<open>Clocks\<close>

record vector_clock =
  counters :: "64 word hash_map"

definition clock_new :: "string \<Rightarrow> 64 word \<Rightarrow> vector_clock" where
  "clock_new node_id initial_value = \<lparr>counters = insert_key node_id initial_value []\<rparr>"

definition clock_empty :: vector_clock where
  "clock_empty = \<lparr>counters = []\<rparr>"

definition get_counter :: "vector_clock \<Rightarrow> string \<Rightarrow> 64 word" where
  "get_counter c node_id = unwrap_or (get_key (counters c) node_id) 0"

text \<open>The addition wraps, as in a build without overflow checks.\<close>

definition clock_increment :: "vector_clock \<Rightarrow> string \<Rightarrow> vector_clock" where
  "clock_increment c node_id =
    c\<lparr>counters := insert_key node_id (unwrap_or (get_key (counters c) node_id) 0 + 1) (counters c)\<rparr>"

definition merge_counter :: "64 word hash_map \<Rightarrow> string \<Rightarrow> 64 word \<Rightarrow> 64 word hash_map" where
  "merge_counter merged node_id counter =
    insert_key node_id (max (unwrap_or (get_key merged node_id) 0) counter) merged"

definition clock_merge :: "vector_clock \<Rightarrow> vector_clock \<Rightarrow> vector_clock" where
  "clock_merge c other =
    \<lparr>counters = fold (\<lambda>(node_id, counter) merged. merge_counter merged node_id counter) (counters other) (counters c)\<rparr>"

definition clock_node_ids :: "vector_clock \<Rightarrow> string list" where
  "clock_node_ids c = map fst (counters c)"

definition all_node_ids :: "vector_clock \<Rightarrow> vector_clock \<Rightarrow> string list" where
  "all_node_ids c other = remdups (clock_node_ids c @ clock_node_ids other)"

fun compare_loop :: "vector_clock \<Rightarrow> vector_clock \<Rightarrow> string list \<Rightarrow> bool \<times> bool \<Rightarrow> bool \<times> bool" where
  "compare_loop c other [] flags = flags"
| "compare_loop c other (n # ns) (lt, gt) =
    (if get_counter c n < get_counter other n then compare_loop c other ns (True, gt)
     else if get_counter c n > get_counter other n then compare_loop c other ns (lt, True)
     else compare_loop c other ns (lt, gt))"

definition clock_compare :: "vector_clock \<Rightarrow> vector_clock \<Rightarrow> int" where
  "clock_compare c other = (case compare_loop c other (all_node_ids c other) (False, False) of
    (lt, gt) \<Rightarrow>
      if lt \<and> \<not> gt then - 1
      else if gt \<and> \<not> lt then 1
      else 0)"

definition happened_before :: "vector_clock \<Rightarrow> vector_clock \<Rightarrow> bool" where
  "happened_before c other \<longleftrightarrow> clock_compare c other = - 1"

fun equals_loop :: "vector_clock \<Rightarrow> vector_clock \<Rightarrow> string list \<Rightarrow> bool" where
  "equals_loop c other [] = True"
| "equals_loop c other (n # ns) =
    (if get_counter c n \<noteq> get_counter other n then False else equals_loop c other ns)"

definition clock_equals :: "vector_clock \<Rightarrow> vector_clock \<Rightarrow> bool" where
  "clock_equals c other = equals_loop c other (all_node_ids c other)"

definition is_concurrent :: "vector_clock \<Rightarrow> vector_clock \<Rightarrow> bool" where
  "is_concurrent c other \<longleftrightarrow> clock_compare c other = 0 \<and> \<not> clock_equals c other"

lemmas clock_eval =
  clock_new_def clock_empty_def get_counter_def clock_increment_def merge_counter_def clock_merge_def
  clock_node_ids_def all_node_ids_def clock_compare_def happened_before_def clock_equals_def
  is_concurrent_def unwrap_or_def

lemma clock_of_counters [simp]: "\<lparr>counters = counters c\<rparr> = c"
  by simp

section \<open>The causal order\<close>

text \<open>The abstract clock: a counter for every node, and the pointwise order.\<close>

definition clock_le :: "vector_clock \<Rightarrow> vector_clock \<Rightarrow> bool" where
  "clock_le c other \<longleftrightarrow> get_counter c \<le> get_counter other"

lemma get_counter_outside: "n \<notin> set (clock_node_ids c) \<Longrightarrow> get_counter c n = 0"
  by (simp add: get_counter_def clock_node_ids_def unwrap_or_def map_of_eq_None_iff [THEN iffD2])

lemma clock_le_ids: "clock_le c d \<longleftrightarrow> (\<forall>n\<in>set (all_node_ids c d). get_counter c n \<le> get_counter d n)"
proof -
  have "get_counter c n \<le> get_counter d n" if "n \<notin> set (all_node_ids c d)" for n
    using that by (simp add: all_node_ids_def get_counter_outside)
  then show ?thesis
    unfolding clock_le_def le_fun_def by blast
qed

lemma compare_loop_flags:
  "compare_loop c d ns (l, g) =
    (l \<or> (\<exists>n\<in>set ns. get_counter c n < get_counter d n), g \<or> (\<exists>n\<in>set ns. get_counter d n < get_counter c n))"
  by (induction ns arbitrary: l g) auto

lemma all_node_ids_commute: "set (all_node_ids d c) = set (all_node_ids c d)"
  by (auto simp: all_node_ids_def)

lemma clock_compare_le:
  "clock_compare c d = (if clock_le c d \<and> \<not> clock_le d c then - 1
    else if clock_le d c \<and> \<not> clock_le c d then 1 else 0)"
  by (auto simp: clock_compare_def compare_loop_flags clock_le_ids all_node_ids_commute [of d c] not_le)

lemma equals_loop_all: "equals_loop c d ns \<longleftrightarrow> (\<forall>n\<in>set ns. get_counter c n = get_counter d n)"
  by (induction ns) auto

lemma clock_equals_iff: "clock_equals c d \<longleftrightarrow> clock_le c d \<and> clock_le d c"
  by (auto simp: clock_equals_def equals_loop_all clock_le_ids all_node_ids_commute [of d c] intro: order.antisym)

lemma happened_before_iff: "happened_before c d \<longleftrightarrow> clock_le c d \<and> \<not> clock_le d c"
  by (simp add: happened_before_def clock_compare_le)

lemma is_concurrent_iff: "is_concurrent c d \<longleftrightarrow> \<not> clock_le c d \<and> \<not> clock_le d c"
  by (auto simp: is_concurrent_def clock_compare_le clock_equals_iff)

lemma get_counter_merge:
  assumes "keys_once (counters d)"
  shows "get_counter (clock_merge c d) n = max (get_counter c n) (get_counter d n)"
proof -
  have "get_key (counters (clock_merge c d)) n =
    upsert (\<lambda>old w. Some (max (unwrap_or old 0) w)) (get_key (counters c) n) (get_key (counters d) n)"
    unfolding clock_merge_def vector_clock.simps
    by (rule fold_entries_lookup) (simp_all add: merge_counter_def assms)
  then show ?thesis
    by (cases "get_key (counters d) n") (simp_all add: get_counter_def unwrap_or_def)
qed

lemma merge_keys_once: "keys_once (counters c) \<Longrightarrow> keys_once (counters (clock_merge c d))"
  unfolding clock_merge_def vector_clock.simps
  by (rule fold_entries_once) (simp_all add: merge_counter_def distinct_update)

text \<open>Merging yields the least clock above both.\<close>

lemma clock_merge_lub:
  assumes "keys_once (counters d)"
  shows "clock_le c (clock_merge c d)" "clock_le d (clock_merge c d)"
    "clock_le c e \<Longrightarrow> clock_le d e \<Longrightarrow> clock_le (clock_merge c d) e"
  by (simp_all add: clock_le_def le_fun_def get_counter_merge [OF assms])

lemma clock_le_refl [simp]: "clock_le c c"
  by (simp add: clock_le_def)

lemma clock_le_trans: "clock_le c d \<Longrightarrow> clock_le d e \<Longrightarrow> clock_le c e"
  unfolding clock_le_def by (rule order_trans)

text \<open>Without a wrap-around an increment moves the clock strictly forward.\<close>

lemma increment_happened_before:
  assumes "get_counter c n \<noteq> - 1"
  shows "happened_before c (clock_increment c n)"
proof -
  have "get_counter (clock_increment c n) m = (if m = n then get_counter c n + 1 else get_counter c m)" for m
    by (simp add: get_counter_def clock_increment_def unwrap_or_def)
  moreover have "get_counter c n < get_counter c n + 1"
    using assms inc_less_eq_triv_imp [of "get_counter c n"] not_le by blast
  ultimately show ?thesis
    by (fastforce simp: happened_before_iff clock_le_def le_fun_def)
qed

end
