(* ===== verification/Server_Crdt.thy ===== *)
theory Server_Crdt
  imports Server_Clock "HOL-Library.Option_ord" "HOL-Library.Product_Lexorder"
begin

text \<open>
  The replicated sets of the server (\<open>src/server/src/crdt/lww_element_set.rs\<close> and
  \<open>src/server/src/crdt/or_set.rs\<close>).  The locale \<open>state_crdt\<close> is the contract of a state-based
  replicated data type: what a replica shows lives in a semilattice, and merging replicas joins what
  they show.  Replicas that have merged the same states then agree, whatever the order and the
  repetitions.  Both sets are shown to satisfy it.  The JSON text that serves as the key of a value,
  the current time and the generated tag names are parameters.
\<close>

section \<open>The contract of a state-based replicated type\<close>

locale state_crdt = semilattice join
  for join :: "'v \<Rightarrow> 'v \<Rightarrow> 'v" +
  fixes replica :: "'s \<Rightarrow> bool"
    and merge :: "'s \<Rightarrow> 's \<Rightarrow> 's"
    and view :: "'s \<Rightarrow> 'v"
  assumes replica_merge: "replica s \<Longrightarrow> replica t \<Longrightarrow> replica (merge s t)"
    and view_merge: "replica s \<Longrightarrow> replica t \<Longrightarrow> view (merge s t) = join (view s) (view t)"
begin

text \<open>A replica that merges the states \<open>ts\<close> one after the other.\<close>

lemma merge_all_replica:
  "replica s \<Longrightarrow> \<forall>t\<in>set ts. replica t \<Longrightarrow> replica (fold (\<lambda>t s. merge s t) ts s)"
  by (induction ts arbitrary: s) (simp_all add: replica_merge)

lemma merge_all_view:
  "replica s \<Longrightarrow> \<forall>t\<in>set ts. replica t \<Longrightarrow>
    view (fold (\<lambda>t s. merge s t) ts s) = fold join (map view ts) (view s)"
  by (induction ts arbitrary: s) (simp_all add: replica_merge view_merge commute)

lemma fold_join_set: "fold join vs v = semilattice_set.F join (set (v # vs))"
proof -
  have "comp_fun_idem_on UNIV join"
    by unfold_locales (simp_all add: fun_eq_iff left_commute)
  then have "fold join vs v = Finite_Set.fold join v (set vs)"
    by (rule comp_fun_idem_on.fold_set_fold [symmetric]) simp
  then show ?thesis
    using semilattice_set.eq_fold [OF semilattice_set.intro [OF semilattice_axioms], of "set vs" v] by simp
qed

text \<open>Convergence: only the set of merged states matters, the own initial state included.\<close>

lemma converge:
  assumes "replica s" "\<forall>t\<in>set ts. replica t" "set (s # ts) = set (u # us)"
  shows "view (fold (\<lambda>t s. merge s t) ts s) = view (fold (\<lambda>t s. merge s t) us u)"
proof -
  have u: "replica u" "\<forall>t\<in>set us. replica t"
    using assms by auto
  have "set (view s # map view ts) = set (view u # map view us)"
    using arg_cong [OF assms(3), of "image view"] by simp
  then show ?thesis
    using assms u by (simp only: merge_all_view fold_join_set)
qed

end

section \<open>The last-write-wins element set\<close>

record 'a lww_element =
  lww_value :: 'a
  timestamp :: int
  lww_clock :: vector_clock
  is_add :: bool

type_synonym 'a lww_set = "'a lww_element hash_map"

definition lww_new :: "'a lww_set" where
  "lww_new = []"

definition lww_add ::
  "('a \<Rightarrow> string) \<Rightarrow> int \<Rightarrow> 'a lww_set \<Rightarrow> 'a \<Rightarrow> string \<Rightarrow> int option \<Rightarrow> 'a lww_set" where
  "lww_add key now s v node_id ts = (
    let effective_timestamp = unwrap_or ts now;
        clock = clock_new node_id 1;
        element = \<lparr>lww_value = v, timestamp = effective_timestamp, lww_clock = clock, is_add = True\<rparr> in
    case get_key s (key v) of
      Some existing \<Rightarrow>
        if effective_timestamp > timestamp existing then insert_key (key v) element s
        else if effective_timestamp = timestamp existing then
          (if clock_compare clock (lww_clock existing) > 0 then insert_key (key v) element s else s)
        else s
    | None \<Rightarrow> insert_key (key v) element s)"

definition lww_remove ::
  "('a \<Rightarrow> string) \<Rightarrow> int \<Rightarrow> 'a lww_set \<Rightarrow> 'a \<Rightarrow> string \<Rightarrow> int option \<Rightarrow> 'a lww_set" where
  "lww_remove key now s v node_id ts = (
    let effective_timestamp = unwrap_or ts now;
        clock = clock_new node_id 1;
        element = \<lparr>lww_value = v, timestamp = effective_timestamp, lww_clock = clock, is_add = False\<rparr> in
    case get_key s (key v) of
      Some existing \<Rightarrow>
        if effective_timestamp > timestamp existing then insert_key (key v) element s
        else if effective_timestamp = timestamp existing then
          (if clock_compare clock (lww_clock existing) > 0 then insert_key (key v) element s else s)
        else s
    | None \<Rightarrow> insert_key (key v) element s)"

definition lww_has :: "('a \<Rightarrow> string) \<Rightarrow> 'a lww_set \<Rightarrow> 'a \<Rightarrow> bool" where
  "lww_has key s v = (case get_key s (key v) of Some element \<Rightarrow> is_add element | None \<Rightarrow> False)"

definition lww_values :: "'a lww_set \<Rightarrow> 'a list" where
  "lww_values s = map lww_value (filter is_add (map_values s))"

definition lww_size :: "'a lww_set \<Rightarrow> nat" where
  "lww_size s = length (filter is_add (map_values s))"

text \<open>The body of the merge loop.\<close>

definition lww_merge_entry :: "'a lww_set \<Rightarrow> string \<Rightarrow> 'a lww_element \<Rightarrow> 'a lww_set" where
  "lww_merge_entry s k other_element = (case get_key s k of
      Some existing \<Rightarrow>
        if timestamp other_element > timestamp existing then insert_key k other_element s
        else if timestamp other_element = timestamp existing then
          (let merged_clock = clock_merge (lww_clock existing) (lww_clock other_element);
               comparison = clock_compare (lww_clock other_element) (lww_clock existing) in
           if comparison > 0 then insert_key k (other_element\<lparr>lww_clock := merged_clock\<rparr>) s
           else if comparison = 0 then
             (if is_add other_element \<and> \<not> is_add existing
              then insert_key k (other_element\<lparr>lww_clock := merged_clock\<rparr>) s else s)
           else s)
        else s
    | None \<Rightarrow> insert_key k other_element s)"

definition lww_merge :: "'a lww_set \<Rightarrow> 'a lww_set \<Rightarrow> 'a lww_set" where
  "lww_merge s other = fold (\<lambda>(k, other_element) s. lww_merge_entry s k other_element) other s"

definition lww_clear :: "'a lww_set \<Rightarrow> 'a lww_set" where
  "lww_clear s = []"

lemmas lww_eval =
  lww_new_def lww_add_def lww_remove_def lww_has_def lww_values_def lww_size_def lww_merge_entry_def
  lww_merge_def lww_clear_def

text \<open>The states a replica can be in.\<close>

inductive lww_replica :: "('a \<Rightarrow> string) \<Rightarrow> 'a lww_set \<Rightarrow> bool" for key where
  new: "lww_replica key lww_new"
| add: "lww_replica key s \<Longrightarrow> lww_replica key (lww_add key now s v node_id ts)"
| remove: "lww_replica key s \<Longrightarrow> lww_replica key (lww_remove key now s v node_id ts)"
| merge: "lww_replica key s \<Longrightarrow> lww_replica key t \<Longrightarrow> lww_replica key (lww_merge s t)"
| clear: "lww_replica key s \<Longrightarrow> lww_replica key (lww_clear s)"

subsection \<open>The clocks of a replica\<close>

text \<open>
  Every clock of a replica has a counter above zero, and the clock of a removal is that of one node
  that wrote once: a removal is never newer than an element with the same time stamp.
\<close>

definition lww_element_ok :: "'a lww_element \<Rightarrow> bool" where
  "lww_element_ok e \<longleftrightarrow> keys_once (counters (lww_clock e)) \<and> (\<exists>n. get_counter (lww_clock e) n \<noteq> 0) \<and>
    (is_add e \<or> (\<exists>n. lww_clock e = clock_new n 1))"

definition lww_ok :: "'a lww_set \<Rightarrow> bool" where
  "lww_ok s \<longleftrightarrow> keys_once s \<and> (\<forall>k e. get_key s k = Some e \<longrightarrow> lww_element_ok e)"

lemma get_counter_new [simp]: "get_counter (clock_new n x) m = (if m = n then x else 0)"
  by (simp add: get_counter_def clock_new_def unwrap_or_def)

lemma lww_element_ok_new: "lww_element_ok \<lparr>lww_value = v, timestamp = t, lww_clock = clock_new n 1, is_add = a\<rparr>"
  by (auto simp: lww_element_ok_def) (simp add: clock_new_def)

lemma once_not_newer:
  assumes "get_counter c m \<noteq> 0"
  shows "\<not> clock_compare (clock_new n 1) c > 0"
proof
  assume "clock_compare (clock_new n 1) c > 0"
  then have le: "clock_le c (clock_new n 1)" and not_le: "\<not> clock_le (clock_new n 1) c"
    by (auto simp: clock_compare_le split: if_splits)
  have "get_counter c m \<le> get_counter (clock_new n 1) m"
    using le unfolding clock_le_def by (rule le_funD)
  then have "m = n"
    using assms by (cases "m = n") (simp_all add: word_le_0_iff)
  moreover have "1 \<le> get_counter c m"
    using assms by (simp add: word_le_sub1)
  ultimately have "get_counter (clock_new n 1) k \<le> get_counter c k" for k
    by (cases "k = n") simp_all
  with not_le show False
    unfolding clock_le_def le_fun_def by blast
qed

lemma lww_ok_insert: "lww_ok s \<Longrightarrow> lww_element_ok e \<Longrightarrow> lww_ok (insert_key k e s)"
  unfolding lww_ok_def by (simp add: distinct_update del: map_of_eq_Some_iff)

lemma lww_add_ok: "lww_ok s \<Longrightarrow> lww_ok (lww_add key now s v n ts)"
  by (simp add: lww_add_def Let_def lww_ok_insert lww_element_ok_new split: option.split)

lemma lww_remove_ok: "lww_ok s \<Longrightarrow> lww_ok (lww_remove key now s v n ts)"
  by (simp add: lww_remove_def Let_def lww_ok_insert lww_element_ok_new split: option.split)

subsection \<open>What a merge shows\<close>

text \<open>The rank of a write: later writes first, an addition before a removal of the same time.\<close>

definition lww_rank :: "'a lww_element \<Rightarrow> int \<times> bool" where
  "lww_rank e = (timestamp e, is_add e)"

definition lww_view :: "'a lww_set \<Rightarrow> string \<Rightarrow> (int \<times> bool) option" where
  "lww_view s k = map_option lww_rank (get_key s k)"

text \<open>The entry that one round of the merge loop leaves.\<close>

fun lww_merged :: "'a lww_element option \<Rightarrow> 'a lww_element \<Rightarrow> 'a lww_element option" where
  "lww_merged None d = Some d"
| "lww_merged (Some e) d = Some (
    if timestamp d > timestamp e then d
    else if timestamp d = timestamp e \<and> (clock_compare (lww_clock d) (lww_clock e) > 0 \<or>
        clock_compare (lww_clock d) (lww_clock e) = 0 \<and> is_add d \<and> \<not> is_add e)
      then d\<lparr>lww_clock := clock_merge (lww_clock e) (lww_clock d)\<rparr>
    else e)"

lemma lww_merge_entry_lookup:
  "get_key (lww_merge_entry s k d) l = (if l = k then lww_merged (get_key s k) d else get_key s l)"
  by (auto simp: lww_merge_entry_def Let_def simp del: map_of_eq_Some_iff split: option.split)

lemma lww_merge_lookup:
  "keys_once t \<Longrightarrow> get_key (lww_merge s t) k = upsert lww_merged (get_key s k) (get_key t k)"
  unfolding lww_merge_def by (rule fold_entries_lookup) (rule lww_merge_entry_lookup)

lemma lww_merge_once: "keys_once s \<Longrightarrow> keys_once (lww_merge s t)"
  unfolding lww_merge_def
  by (rule fold_entries_once) (simp_all add: lww_merge_entry_def Let_def distinct_update split: option.split)

lemma removal_not_newer:
  assumes "lww_element_ok d" "lww_element_ok e" "\<not> is_add d"
  shows "\<not> clock_compare (lww_clock d) (lww_clock e) > 0"
  using assms once_not_newer unfolding lww_element_ok_def by metis

lemma addition_not_older:
  assumes "lww_element_ok d" "lww_element_ok e" "\<not> is_add e"
  shows "\<not> clock_compare (lww_clock d) (lww_clock e) < 0"
  using removal_not_newer [OF assms(2,1,3)] by (auto simp: clock_compare_le split: if_splits)

lemma merged_clock_ok:
  assumes "lww_element_ok e" "lww_element_ok d" "is_add d"
  shows "lww_element_ok (d\<lparr>lww_clock := clock_merge (lww_clock e) (lww_clock d)\<rparr>)"
proof -
  obtain n where "get_counter (lww_clock d) n \<noteq> 0"
    using assms(2) unfolding lww_element_ok_def by blast
  then have "get_counter (clock_merge (lww_clock e) (lww_clock d)) n \<noteq> 0"
    using assms(2) max.cobounded2 [of "get_counter (lww_clock d) n" "get_counter (lww_clock e) n"]
    unfolding lww_element_ok_def by (metis get_counter_merge word_le_0_iff)
  then show ?thesis
    using assms unfolding lww_element_ok_def by (simp add: merge_keys_once) blast
qed

lemma lww_merged_ok:
  assumes "lww_element_ok e" "lww_element_ok d"
  shows "\<exists>m. lww_merged (Some e) d = Some m \<and> lww_element_ok m \<and> lww_rank m = max (lww_rank e) (lww_rank d)"
proof (cases "is_add d")
  case True
  then show ?thesis
    using assms merged_clock_ok [OF assms] addition_not_older [OF assms(2,1)]
    by (cases "is_add e") (auto simp: lww_rank_def max_def less_eq_prod_def)
next
  case False
  then show ?thesis
    using assms removal_not_newer [OF assms(2,1)]
    by (auto simp: lww_rank_def max_def less_eq_prod_def)
qed

lemma lww_merge_view:
  assumes "lww_ok s" "lww_ok t"
  shows "lww_ok (lww_merge s t)" "lww_view (lww_merge s t) k = max (lww_view s k) (lww_view t k)"
proof -
  have once: "keys_once t"
    using assms by (simp add: lww_ok_def)
  have *: "(\<forall>m. get_key (lww_merge s t) k = Some m \<longrightarrow> lww_element_ok m) \<and>
      lww_view (lww_merge s t) k = max (lww_view s k) (lww_view t k)" for k
    using assms lww_merged_ok [of "the (get_key s k)" "the (get_key t k)"]
    by (cases "get_key s k"; cases "get_key t k")
      (auto simp: lww_ok_def lww_view_def lww_merge_lookup [OF once] max_def simp del: map_of_eq_Some_iff lww_merged.simps(2))
  then show "lww_view (lww_merge s t) k = max (lww_view s k) (lww_view t k)"
    by blast
  show "lww_ok (lww_merge s t)"
    using * assms lww_merge_once unfolding lww_ok_def by blast
qed

lemma lww_replica_ok: "lww_replica key s \<Longrightarrow> lww_ok s"
proof (induction rule: lww_replica.induct)
  case new
  then show ?case
    by (simp add: lww_ok_def lww_new_def)
next
  case clear
  then show ?case
    by (simp add: lww_ok_def lww_clear_def)
qed (simp_all add: lww_add_ok lww_remove_ok lww_merge_view)

text \<open>The set implements the contract, with the pointwise maximum as its join.\<close>

interpretation lww: state_crdt "\<lambda>f g k. max (f k) (g k) :: (int \<times> bool) option" "lww_replica key" lww_merge lww_view
  for key
  by unfold_locales
    (auto simp: fun_eq_iff max.assoc max.commute max.left_commute lww_replica.merge lww_merge_view lww_replica_ok)

text \<open>Merging many states: what is shown is the highest write of all of them.\<close>

definition lww_merge_all :: "'a lww_set \<Rightarrow> 'a lww_set list \<Rightarrow> 'a lww_set" where
  "lww_merge_all s ts = fold (\<lambda>t s. lww_merge s t) ts s"

lemma fold_pointwise_max: "fold (\<lambda>f g k. max (f k) (g k)) fs f k = fold max (map (\<lambda>f. f k) fs) (f k)"
  by (induction fs arbitrary: f) simp_all

lemma lww_merge_all_view:
  assumes "lww_replica key s" "\<forall>t\<in>set ts. lww_replica key t"
  shows "lww_view (lww_merge_all s ts) k = Max ((\<lambda>t. lww_view t k) ` set (s # ts))"
  using lww.merge_all_view [OF assms] Max.set_eq_fold [of "lww_view s k" "map (\<lambda>t. lww_view t k) ts"]
  by (simp add: lww_merge_all_def fold_pointwise_max comp_def)

lemma lww_has_view: "lww_has key s v \<longleftrightarrow> (\<exists>t. lww_view s (key v) = Some (t, True))"
  by (auto simp: lww_has_def lww_view_def lww_rank_def simp del: map_of_eq_Some_iff split: option.split)

lemma lww_view_le: "lww_view s k \<le> Some (time, True) \<longleftrightarrow> (\<forall>d. get_key s k = Some d \<longrightarrow> timestamp d \<le> time)"
  by (cases "get_key s k") (auto simp: lww_view_def lww_rank_def less_eq_prod_def)

lemma lww_view_eq: "lww_view s k = Some (time, True) \<longleftrightarrow> (\<exists>e. get_key s k = Some e \<and> is_add e \<and> timestamp e = time)"
  by (cases "get_key s k") (auto simp: lww_view_def lww_rank_def)

text \<open>A value is contained when an addition is among its latest writes.\<close>

lemma lww_has_latest:
  assumes "lww_replica key s" "\<forall>t\<in>set ts. lww_replica key t"
  shows "lww_has key (lww_merge_all s ts) v \<longleftrightarrow>
    (\<exists>t\<in>set (s # ts). \<exists>e. get_key t (key v) = Some e \<and> is_add e \<and>
      (\<forall>x\<in>set (s # ts). \<forall>d. get_key x (key v) = Some d \<longrightarrow> timestamp d \<le> timestamp e))" (is "_ \<longleftrightarrow> ?r")
proof -
  let ?views = "(\<lambda>t. lww_view t (key v)) ` set (s # ts)"
  have "finite ?views" "?views \<noteq> {}"
    by simp_all
  then have "Max ?views = m \<longleftrightarrow> m \<in> ?views \<and> (\<forall>y\<in>?views. y \<le> m)" for m
    by (rule Max_eq_iff)
  then have "lww_has key (lww_merge_all s ts) v \<longleftrightarrow>
      (\<exists>time. \<exists>t\<in>set (s # ts). lww_view t (key v) = Some (time, True) \<and>
        (\<forall>x\<in>set (s # ts). lww_view x (key v) \<le> Some (time, True)))"
    unfolding lww_has_view lww_merge_all_view [OF assms] image_iff ball_simps(9) by metis
  then show ?thesis
    unfolding lww_view_le lww_view_eq by blast
qed

lemma lww_size_view: "keys_once s \<Longrightarrow> lww_size s = card {k. \<exists>t. lww_view s k = Some (t, True)}"
proof -
  assume once: "keys_once s"
  have "{k. \<exists>t. lww_view s k = Some (t, True)} = fst ` set (filter (\<lambda>p. is_add (snd p)) s)"
    using once by (force simp: lww_view_def lww_rank_def)
  moreover have "distinct (map fst (filter (\<lambda>p. is_add (snd p)) s))"
    using once by (rule distinct_map_filter)
  then have "card (fst ` set (filter (\<lambda>p. is_add (snd p)) s)) = length (filter (\<lambda>p. is_add (snd p)) s)"
    using distinct_card by fastforce
  ultimately show ?thesis
    by (simp add: lww_size_def filter_map comp_def)
qed

section \<open>The observed-remove set\<close>

record or_tag =
  tag_id :: string
  tag_node_id :: string
  tag_clock :: vector_clock

record 'a or_element =
  or_value :: 'a
  or_tags :: "or_tag list"

type_synonym 'a or_set = "'a or_element hash_map"

definition or_new :: "'a or_set" where
  "or_new = []"

text \<open>
  The parameter \<open>unique\<close> is the text made of the current time and a random identifier.
\<close>

definition generate_tag :: "string \<Rightarrow> string \<Rightarrow> or_tag" where
  "generate_tag unique node_id =
    \<lparr>tag_id = node_id @ ''-'' @ unique, tag_node_id = node_id, tag_clock = clock_new node_id 1\<rparr>"

definition or_add :: "('a \<Rightarrow> string) \<Rightarrow> string \<Rightarrow> 'a or_set \<Rightarrow> 'a \<Rightarrow> string \<Rightarrow> 'a or_set" where
  "or_add key unique s v node_id = (let tag = generate_tag unique node_id in
    case get_key s (key v) of
      Some element \<Rightarrow> insert_key (key v) (element\<lparr>or_tags := or_tags element @ [tag]\<rparr>) s
    | None \<Rightarrow> insert_key (key v) \<lparr>or_value = v, or_tags = [tag]\<rparr> s)"

definition or_remove :: "('a \<Rightarrow> string) \<Rightarrow> 'a or_set \<Rightarrow> 'a \<Rightarrow> 'a or_set" where
  "or_remove key s v = remove_key (key v) s"

definition or_has :: "('a \<Rightarrow> string) \<Rightarrow> 'a or_set \<Rightarrow> 'a \<Rightarrow> bool" where
  "or_has key s v = (case get_key s (key v) of Some element \<Rightarrow> or_tags element \<noteq> [] | None \<Rightarrow> False)"

definition or_values :: "'a or_set \<Rightarrow> 'a list" where
  "or_values s = map or_value (filter (\<lambda>e. or_tags e \<noteq> []) (map_values s))"

definition or_size :: "'a or_set \<Rightarrow> nat" where
  "or_size s = length (filter (\<lambda>e. or_tags e \<noteq> []) (map_values s))"

definition merge_tag :: "or_tag hash_map \<Rightarrow> or_tag \<Rightarrow> or_tag hash_map" where
  "merge_tag tag_map tag = (case get_key tag_map (tag_id tag) of
      Some existing \<Rightarrow> insert_key (tag_id tag)
        (existing\<lparr>tag_clock := clock_merge (tag_clock existing) (tag_clock tag)\<rparr>) tag_map
    | None \<Rightarrow> insert_key (tag_id tag) tag tag_map)"

definition merge_tags :: "or_tag list \<Rightarrow> or_tag list \<Rightarrow> or_tag list" where
  "merge_tags tags1 tags2 = (
    let tag_map = fold (\<lambda>tag m. insert_key (tag_id tag) tag m) tags1 [] in
    map_values (fold (\<lambda>tag m. merge_tag m tag) tags2 tag_map))"

definition or_merge_entry :: "'a or_set \<Rightarrow> string \<Rightarrow> 'a or_element \<Rightarrow> 'a or_set" where
  "or_merge_entry s k other_element = (case get_key s k of
      Some existing \<Rightarrow> (let merged_tags = merge_tags (or_tags existing) (or_tags other_element) in
        if merged_tags = [] then remove_key k s
        else insert_key k (existing\<lparr>or_tags := merged_tags\<rparr>) s)
    | None \<Rightarrow> insert_key k other_element s)"

definition or_merge :: "'a or_set \<Rightarrow> 'a or_set \<Rightarrow> 'a or_set" where
  "or_merge s other = fold (\<lambda>(k, other_element) s. or_merge_entry s k other_element) other s"

definition or_clear :: "'a or_set \<Rightarrow> 'a or_set" where
  "or_clear s = []"

lemmas or_eval =
  or_new_def generate_tag_def or_add_def or_remove_def or_has_def or_values_def or_size_def merge_tag_def
  merge_tags_def or_merge_entry_def or_merge_def or_clear_def

inductive or_replica :: "('a \<Rightarrow> string) \<Rightarrow> 'a or_set \<Rightarrow> bool" for key where
  new: "or_replica key or_new"
| add: "or_replica key s \<Longrightarrow> or_replica key (or_add key unique s v node_id)"
| remove: "or_replica key s \<Longrightarrow> or_replica key (or_remove key s v)"
| merge: "or_replica key s \<Longrightarrow> or_replica key t \<Longrightarrow> or_replica key (or_merge s t)"
| clear: "or_replica key s \<Longrightarrow> or_replica key (or_clear s)"

subsection \<open>What a merge shows\<close>

text \<open>A replica shows the names of the tags of each key.\<close>

definition tag_names :: "'a or_element option \<Rightarrow> string set" where
  "tag_names e = (case e of None \<Rightarrow> {} | Some e \<Rightarrow> tag_id ` set (or_tags e))"

definition or_view :: "'a or_set \<Rightarrow> string \<Rightarrow> string set" where
  "or_view s k = tag_names (get_key s k)"

lemma tag_names_simps [simp]:
  "tag_names None = {}"
  "tag_names (Some e) = tag_id ` set (or_tags e)"
  by (simp_all add: tag_names_def)

text \<open>A map from names to tags under which every tag is stored by its own name.\<close>

definition named_tags :: "or_tag hash_map \<Rightarrow> bool" where
  "named_tags m \<longleftrightarrow> keys_once m \<and> (\<forall>k tag. get_key m k = Some tag \<longrightarrow> tag_id tag = k)"

lemma named_tags_names: "named_tags m \<Longrightarrow> tag_id ` snd ` set m = fst ` set m"
  by (force simp: named_tags_def image_iff)

lemma named_tags_insert: "named_tags m \<Longrightarrow> tag_id tag = k \<Longrightarrow> named_tags (insert_key k tag m)"
  unfolding named_tags_def by (simp add: distinct_update del: map_of_eq_Some_iff)

lemma insert_key_names: "fst ` set (insert_key k v m) = insert k (fst ` set m)"
  by (induction m) auto

lemma merge_tag_named:
  assumes "named_tags m"
  shows "named_tags (merge_tag m tag)" "fst ` set (merge_tag m tag) = insert (tag_id tag) (fst ` set m)"
proof -
  show "named_tags (merge_tag m tag)"
  proof (cases "get_key m (tag_id tag)")
    case None
    then show ?thesis
      using named_tags_insert [OF assms] by (simp add: merge_tag_def)
  next
    case (Some e)
    then have "tag_id e = tag_id tag"
      using assms unfolding named_tags_def by blast
    then have "named_tags (insert_key (tag_id tag) (e\<lparr>tag_clock := clock_merge (tag_clock e) (tag_clock tag)\<rparr>) m)"
      by (intro named_tags_insert [OF assms]) simp
    then show ?thesis
      unfolding merge_tag_def Some by simp
  qed
  show "fst ` set (merge_tag m tag) = insert (tag_id tag) (fst ` set m)"
    by (simp add: merge_tag_def insert_key_names split: option.split)
qed

lemma fold_merge_tag_named:
  "named_tags m \<Longrightarrow> named_tags (fold (\<lambda>tag m. merge_tag m tag) tags m) \<and>
    fst ` set (fold (\<lambda>tag m. merge_tag m tag) tags m) = fst ` set m \<union> tag_id ` set tags"
  by (induction tags arbitrary: m) (simp_all add: merge_tag_named)

lemma fold_insert_tag_named:
  "named_tags m \<Longrightarrow> named_tags (fold (\<lambda>tag m. insert_key (tag_id tag) tag m) tags m) \<and>
    fst ` set (fold (\<lambda>tag m. insert_key (tag_id tag) tag m) tags m) = fst ` set m \<union> tag_id ` set tags"
  by (induction tags arbitrary: m) (simp_all add: named_tags_insert insert_key_names)

lemma merge_tags_names: "tag_id ` set (merge_tags xs ys) = tag_id ` set xs \<union> tag_id ` set ys"
proof -
  define m where "m = fold (\<lambda>tag m. insert_key (tag_id tag) tag m) xs []"
  define n where "n = fold (\<lambda>tag m. merge_tag m tag) ys m"
  have "named_tags []"
    by (simp add: named_tags_def)
  then have m: "named_tags m" "fst ` set m = tag_id ` set xs"
    using fold_insert_tag_named [of "[]" xs] by (simp_all add: m_def)
  then have n: "named_tags n" "fst ` set n = tag_id ` set xs \<union> tag_id ` set ys"
    using fold_merge_tag_named [of m ys] by (simp_all add: n_def)
  have "merge_tags xs ys = map_values n"
    unfolding merge_tags_def m_def n_def Let_def by (rule refl)
  then show ?thesis
    using named_tags_names [OF n(1)] n(2) by simp
qed

fun or_merged :: "'a or_element option \<Rightarrow> 'a or_element \<Rightarrow> 'a or_element option" where
  "or_merged None d = Some d"
| "or_merged (Some e) d = (let tags = merge_tags (or_tags e) (or_tags d) in
    if tags = [] then None else Some (e\<lparr>or_tags := tags\<rparr>))"

lemma or_merge_lookup:
  "keys_once t \<Longrightarrow> get_key (or_merge s t) k = upsert or_merged (get_key s k) (get_key t k)"
  unfolding or_merge_def
  by (rule fold_entries_lookup) (auto simp: or_merge_entry_def Let_def simp del: map_of_eq_Some_iff split: option.split)

lemma or_merge_once: "keys_once s \<Longrightarrow> keys_once (or_merge s t)"
  unfolding or_merge_def
  by (rule fold_entries_once)
    (simp_all add: or_merge_entry_def Let_def distinct_update distinct_delete split: option.split)

lemma tag_names_merged: "tag_names (or_merged (Some e) d) = tag_id ` set (or_tags e) \<union> tag_id ` set (or_tags d)"
  using merge_tags_names [of "or_tags e" "or_tags d"] by (auto simp: Let_def)

lemma or_merge_view: "keys_once t \<Longrightarrow> or_view (or_merge s t) k = or_view s k \<union> or_view t k"
  by (cases "get_key s k"; cases "get_key t k")
    (simp_all add: or_view_def or_merge_lookup tag_names_merged del: map_of_eq_Some_iff or_merged.simps(2))

lemma or_replica_once: "or_replica key s \<Longrightarrow> keys_once s"
  by (induction rule: or_replica.induct)
    (simp_all add: or_new_def or_add_def or_remove_def or_clear_def Let_def distinct_update distinct_delete
      or_merge_once split: option.split)

interpretation orset: state_crdt "\<lambda>f g k. f k \<union> g k :: string set" "or_replica key" or_merge or_view
  for key
  by unfold_locales (auto simp: fun_eq_iff or_replica.merge or_merge_view or_replica_once)

lemma or_has_view: "or_has key s v \<longleftrightarrow> or_view s (key v) \<noteq> {}"
  by (auto simp: or_has_def or_view_def simp del: map_of_eq_Some_iff split: option.split)

lemma or_remove_view: "or_view (or_remove key s v) k = (if k = key v then {} else or_view s k)"
  by (simp add: or_view_def or_remove_def)

text \<open>
  A removal leaves no trace: merging any state that still shows the value brings it back, even the
  state from before the removal.
\<close>

lemma or_remove_undone:
  assumes "or_replica key s" "or_replica key t"
  shows "or_has key (or_merge (or_remove key s v) t) v \<longleftrightarrow> or_has key t v"
    and "or_view (or_merge (or_remove key s v) s) = or_view s"
  using assms
  by (auto simp: or_has_view or_merge_view or_replica_once or_remove_view fun_eq_iff)

end
