(* ===== verification/Server_Sync.thy ===== *)
theory Server_Sync
  imports Server_Clock
begin

text \<open>
  The delta synchronisation endpoint (\<open>src/server/src/handlers/sync.rs\<close>).  The handler takes the locks
  of the shared clock and of the delta store one at a time, so requests that are served at the same
  time interleave between these critical sections.  Each section is an operation on the shared
  state, the handler is their composition, and \<open>sync_step\<close> runs one section of one of the requests
  in flight.  JSON values are a type parameter.  Persisting a delta is a placeholder in the source: it
  logs and succeeds.
\<close>

section \<open>Data\<close>

datatype delta_operation = DeltaAdd | DeltaRemove | DeltaUpdate

record 'j delta_entry =
  delta_id :: string
  entity_type :: string
  entity_id :: string
  operation :: delta_operation
  delta_value :: 'j
  delta_vector_clock :: "64 word hash_map"
  delta_timestamp :: int
  synced :: bool

record 'j sync_request =
  node_id :: string
  request_vector_clock :: "64 word hash_map"
  deltas :: "'j delta_entry list"

record 'j sync_response =
  response_server_clock :: "64 word hash_map"
  response_server_deltas :: "'j delta_entry list"
  response_merged_clock :: "64 word hash_map"

record 'j sync_state =
  server_vector_clock :: vector_clock
  delta_store :: "'j delta_entry list hash_map"

definition sync_state_new :: "'j sync_state" where
  "sync_state_new = \<lparr>server_vector_clock = clock_empty, delta_store = []\<rparr>"

section \<open>Operations\<close>

definition delta_selected :: "vector_clock \<Rightarrow> 'j delta_entry \<Rightarrow> bool" where
  "delta_selected client_clock d = (let delta_clock = \<lparr>counters = delta_vector_clock d\<rparr> in
    happened_before delta_clock client_clock \<or> is_concurrent delta_clock client_clock)"

definition compute_server_deltas :: "'j sync_state \<Rightarrow> vector_clock \<Rightarrow> 'j delta_entry list" where
  "compute_server_deltas s client_clock = concat (map (filter (delta_selected client_clock)) (map_values (delta_store s)))"

definition apply_add_operation :: "'j sync_state \<Rightarrow> 'j delta_entry \<Rightarrow> ('e, 'j sync_state) result" where
  "apply_add_operation s d = Ok s"

definition apply_remove_operation :: "'j sync_state \<Rightarrow> 'j delta_entry \<Rightarrow> ('e, 'j sync_state) result" where
  "apply_remove_operation s d = Ok s"

definition apply_update_operation :: "'j sync_state \<Rightarrow> 'j delta_entry \<Rightarrow> ('e, 'j sync_state) result" where
  "apply_update_operation s d = Ok s"

fun apply_client_deltas :: "'j sync_state \<Rightarrow> 'j delta_entry list \<Rightarrow> ('e, 'j sync_state) result" where
  "apply_client_deltas s [] = Ok s"
| "apply_client_deltas s (d # ds) = rbind
    (case operation d of
      DeltaAdd \<Rightarrow> apply_add_operation s d
    | DeltaRemove \<Rightarrow> apply_remove_operation s d
    | DeltaUpdate \<Rightarrow> apply_update_operation s d)
    (\<lambda>s. apply_client_deltas s ds)"

definition push_delta :: "'j delta_entry \<Rightarrow> 'j delta_entry list \<Rightarrow> 'j delta_entry list" where
  "push_delta d node_deltas =
    (if \<not> list_ex (\<lambda>e. delta_id e = delta_id d) node_deltas then node_deltas @ [d] else node_deltas)"

definition prune_deltas :: "'j delta_entry list \<Rightarrow> 'j delta_entry list" where
  "prune_deltas node_deltas = (if length node_deltas > 1000
    then drop (length node_deltas - 1000) (sort_key delta_timestamp node_deltas) else node_deltas)"

definition store_client_deltas :: "'j sync_state \<Rightarrow> string \<Rightarrow> 'j delta_entry list \<Rightarrow> 'j sync_state" where
  "store_client_deltas s node ds = (
    let node_deltas = unwrap_or (get_key (delta_store s) node) [];
        node_deltas = fold push_delta ds node_deltas in
    s\<lparr>delta_store := insert_key node (prune_deltas node_deltas) (delta_store s)\<rparr>)"

definition write_clock :: "'j sync_state \<Rightarrow> vector_clock \<Rightarrow> 'j sync_state" where
  "write_clock s merged_clock = s\<lparr>server_vector_clock := merged_clock\<rparr>"

text \<open>The handler when no other request is in flight.\<close>

definition delta_sync :: "'j sync_state \<Rightarrow> 'j sync_request \<Rightarrow> ('e, 'j sync_response \<times> 'j sync_state) result" where
  "delta_sync s request = (
    let client_clock = \<lparr>counters = request_vector_clock request\<rparr>;
        server_clock = server_vector_clock s;
        server_deltas = compute_server_deltas s client_clock;
        merged_clock = clock_merge server_clock client_clock in
    rbind (apply_client_deltas s (deltas request)) (\<lambda>s.
    let s = write_clock s merged_clock;
        s = store_client_deltas s (node_id request) (deltas request) in
    Ok (\<lparr>response_server_clock = counters server_clock, response_server_deltas = server_deltas,
      response_merged_clock = counters merged_clock\<rparr>, s)))"

definition sync_status :: "'j sync_state \<Rightarrow> string \<Rightarrow> 64 word hash_map \<times> nat" where
  "sync_status s node =
    (counters (server_vector_clock s), unwrap_or (map_option length (get_key (delta_store s) node)) 0)"

section \<open>Requests in flight\<close>

datatype 'j sync_phase =
    Received "'j sync_request"
  | ClockRead "'j sync_request" vector_clock
  | DeltasComputed "'j sync_request" vector_clock "'j delta_entry list"
  | ClockWritten "'j sync_request" "'j sync_response"
  | Answered "'j sync_request" "'j sync_response"

text \<open>One critical section of one request.\<close>

inductive sync_section :: "'j sync_state \<Rightarrow> 'j sync_phase \<Rightarrow> 'j sync_state \<Rightarrow> 'j sync_phase \<Rightarrow> bool" where
  read_clock: "sync_section s (Received r) s (ClockRead r (server_vector_clock s))"
| compute_deltas: "sync_section s (ClockRead r c) s
    (DeltasComputed r c (compute_server_deltas s \<lparr>counters = request_vector_clock r\<rparr>))"
| write_merged: "apply_client_deltas s (deltas r) = (Ok s' :: (unit, 'j sync_state) result) \<Longrightarrow>
    merged = clock_merge c \<lparr>counters = request_vector_clock r\<rparr> \<Longrightarrow>
    sync_section s (DeltasComputed r c ds) (write_clock s' merged)
      (ClockWritten r \<lparr>response_server_clock = counters c, response_server_deltas = ds,
        response_merged_clock = counters merged\<rparr>)"
| store_deltas: "sync_section s (ClockWritten r resp) (store_client_deltas s (node_id r) (deltas r)) (Answered r resp)"

inductive sync_step :: "'j sync_state \<times> 'j sync_phase list \<Rightarrow> 'j sync_state \<times> 'j sync_phase list \<Rightarrow> bool" where
  run: "i < length ps \<Longrightarrow> sync_section s (ps ! i) t q \<Longrightarrow> sync_step (s, ps) (t, ps[i := q])"
| receive: "sync_step (s, ps) (s, ps @ [Received r])"

text \<open>The states the endpoint can be in after start-up, with the requests in flight.\<close>

definition sync_reachable :: "'j sync_state \<Rightarrow> 'j sync_phase list \<Rightarrow> bool" where
  "sync_reachable s ps \<longleftrightarrow> sync_step\<^sup>*\<^sup>* (sync_state_new, []) (s, ps)"

section \<open>Lemmas\<close>

lemmas sync_eval =
  sync_state_new_def delta_selected_def compute_server_deltas_def apply_add_operation_def apply_remove_operation_def
  apply_update_operation_def push_delta_def prune_deltas_def store_client_deltas_def write_clock_def delta_sync_def

lemma apply_client_deltas_same: "apply_client_deltas s ds = Ok s"
  by (induction ds)
    (simp_all add: apply_add_operation_def apply_remove_operation_def apply_update_operation_def
      split: delta_operation.split)

text \<open>Every list of the store is short and names a delta once.\<close>

definition deltas_ok :: "'j delta_entry list \<Rightarrow> bool" where
  "deltas_ok ds \<longleftrightarrow> length ds \<le> 1000 \<and> distinct (map delta_id ds)"

definition store_ok :: "'j sync_state \<Rightarrow> bool" where
  "store_ok s \<longleftrightarrow> keys_once (delta_store s) \<and> (\<forall>n ds. get_key (delta_store s) n = Some ds \<longrightarrow> deltas_ok ds)"

lemma push_delta_distinct: "distinct (map delta_id es) \<Longrightarrow> distinct (map delta_id (push_delta d es))"
  by (auto simp: push_delta_def list_ex_iff)

lemma fold_push_distinct: "distinct (map delta_id es) \<Longrightarrow> distinct (map delta_id (fold push_delta ds es))"
  by (induction ds arbitrary: es) (simp_all add: push_delta_distinct)

lemma distinct_sort_key: "distinct (map f (sort_key g xs)) \<longleftrightarrow> distinct (map f xs)"
  by (simp add: distinct_map)

lemma prune_deltas_ok: "distinct (map delta_id es) \<Longrightarrow> deltas_ok (prune_deltas es)"
  by (auto simp: deltas_ok_def prune_deltas_def drop_map [symmetric] distinct_sort_key)

lemma store_client_deltas_ok: "store_ok s \<Longrightarrow> store_ok (store_client_deltas s n ds)"
proof -
  assume ok: "store_ok s"
  have "distinct (map delta_id (unwrap_or (get_key (delta_store s) n) []))"
    using ok by (cases "get_key (delta_store s) n")
      (simp_all add: store_ok_def deltas_ok_def unwrap_or_def del: map_of_eq_Some_iff)
  then have "deltas_ok (prune_deltas (fold push_delta ds (unwrap_or (get_key (delta_store s) n) [])))"
    by (intro prune_deltas_ok fold_push_distinct)
  then show ?thesis
    using ok by (simp add: store_ok_def store_client_deltas_def Let_def distinct_update del: map_of_eq_Some_iff)
qed

text \<open>What a request is answered with: the deltas that are neither equal to nor after its clock.\<close>

abbreviation client_clock :: "'j sync_request \<Rightarrow> vector_clock" where
  "client_clock r \<equiv> \<lparr>counters = request_vector_clock r\<rparr>"

abbreviation delta_clock :: "'j delta_entry \<Rightarrow> vector_clock" where
  "delta_clock d \<equiv> \<lparr>counters = delta_vector_clock d\<rparr>"

lemma delta_selected_iff: "delta_selected c d \<longleftrightarrow> \<not> clock_le c (delta_clock d)"
  by (auto simp: delta_selected_def Let_def happened_before_iff is_concurrent_iff)

lemma compute_server_deltas_iff:
  "keys_once (delta_store s) \<Longrightarrow> d \<in> set (compute_server_deltas s c) \<longleftrightarrow>
    (\<exists>n ds. get_key (delta_store s) n = Some ds \<and> d \<in> set ds \<and> \<not> clock_le c (delta_clock d))"
  by (force simp: compute_server_deltas_def delta_selected_iff)

lemma compute_server_deltas_sound: "d \<in> set (compute_server_deltas s c) \<Longrightarrow> \<not> clock_le c (delta_clock d)"
  by (auto simp: compute_server_deltas_def delta_selected_iff)

definition response_ok :: "'j sync_request \<Rightarrow> 'j sync_response \<Rightarrow> bool" where
  "response_ok r resp \<longleftrightarrow> (\<forall>d\<in>set (response_server_deltas resp). \<not> clock_le (client_clock r) (delta_clock d)) \<and>
    (keys_once (request_vector_clock r) \<longrightarrow>
      clock_le \<lparr>counters = response_server_clock resp\<rparr> \<lparr>counters = response_merged_clock resp\<rparr> \<and>
      clock_le (client_clock r) \<lparr>counters = response_merged_clock resp\<rparr> \<and>
      (\<forall>c. clock_le \<lparr>counters = response_server_clock resp\<rparr> c \<longrightarrow> clock_le (client_clock r) c \<longrightarrow>
        clock_le \<lparr>counters = response_merged_clock resp\<rparr> c))"

fun phase_ok :: "'j sync_phase \<Rightarrow> bool" where
  "phase_ok (DeltasComputed r c ds) \<longleftrightarrow> (\<forall>d\<in>set ds. \<not> clock_le (client_clock r) (delta_clock d))"
| "phase_ok (ClockWritten r resp) \<longleftrightarrow> response_ok r resp"
| "phase_ok (Answered r resp) \<longleftrightarrow> response_ok r resp"
| "phase_ok _ \<longleftrightarrow> True"

lemma sync_section_ok: "sync_section s p t q \<Longrightarrow> store_ok s \<Longrightarrow> phase_ok p \<Longrightarrow> store_ok t \<and> phase_ok q"
proof (induction rule: sync_section.induct)
  case (write_merged s r s' merged c ds)
  then have "response_ok r \<lparr>response_server_clock = counters c, response_server_deltas = ds,
      response_merged_clock = counters merged\<rparr>"
    using clock_merge_lub [of "client_clock r" c] by (simp add: response_ok_def)
  then show ?case
    using write_merged by (simp add: apply_client_deltas_same write_clock_def store_ok_def)
qed (simp_all add: store_client_deltas_ok compute_server_deltas_sound)

lemma sync_step_ok:
  "sync_step x y \<Longrightarrow> store_ok (fst x) \<and> list_all phase_ok (snd x) \<Longrightarrow> store_ok (fst y) \<and> list_all phase_ok (snd y)"
proof (induction rule: sync_step.induct)
  case (run i ps s t q)
  then have "store_ok t \<and> phase_ok q"
    using sync_section_ok [OF run.hyps(2)] by (simp add: list_all_length)
  then show ?case
    using run by (simp add: list_all_length nth_list_update)
qed simp

lemma sync_reachable_ok: "sync_reachable s ps \<Longrightarrow> store_ok s \<and> list_all phase_ok ps"
proof -
  have "store_ok (fst x) \<and> list_all phase_ok (snd x)"
    if "sync_step\<^sup>*\<^sup>* (sync_state_new :: 'a sync_state, []) x" for x
    using that
  proof (induction rule: rtranclp_induct)
    case base
    then show ?case
      by (simp add: store_ok_def sync_state_new_def)
  next
    case (step x y)
    then show ?case
      using sync_step_ok by blast
  qed
  then show "sync_reachable s ps \<Longrightarrow> store_ok s \<and> list_all phase_ok ps"
    unfolding sync_reachable_def by fastforce
qed

text \<open>A request served without interruption runs its four sections in a row.\<close>

lemma sync_run_last: "sync_section a p b q \<Longrightarrow> sync_step (a, ps @ [p]) (b, ps @ [q])"
  using sync_step.run [of "length ps" "ps @ [p]" a b q] by simp

lemma delta_sync_sections:
  assumes "delta_sync s r = (Ok (resp, t) :: (unit, _) result)"
  shows "sync_step\<^sup>*\<^sup>* (s, ps) (t, ps @ [Answered r resp])"
proof -
  let ?c = "server_vector_clock s"
  have same: "apply_client_deltas s (deltas r) = (Ok s :: (unit, _) result)"
    by (rule apply_client_deltas_same)
  have t: "t = store_client_deltas (write_clock s (clock_merge ?c (client_clock r))) (node_id r) (deltas r)"
    and resp: "resp = \<lparr>response_server_clock = counters ?c, response_server_deltas = compute_server_deltas s (client_clock r),
      response_merged_clock = counters (clock_merge ?c (client_clock r))\<rparr>"
    using assms by (simp_all add: delta_sync_def same Let_def)
  note steps = sync_step.receive [of s ps r] sync_run_last [OF read_clock [of s r]] sync_run_last [OF compute_deltas [of s r ?c]]
    sync_run_last [OF write_merged [OF same refl, of ?c "compute_server_deltas s (client_clock r)"]]
    sync_run_last [OF store_deltas [of "write_clock s (clock_merge ?c (client_clock r))" r resp]]
  from steps show ?thesis
    unfolding t resp by (meson converse_rtranclp_into_rtranclp r_into_rtranclp)
qed

lemma sync_reachable_serve:
  "sync_reachable s ps \<Longrightarrow> delta_sync s r = (Ok (resp, t) :: (unit, _) result) \<Longrightarrow>
    sync_reachable t (ps @ [Answered r resp])"
  unfolding sync_reachable_def using delta_sync_sections by (metis rtranclp_trans)

lemma sync_reachable_new: "sync_reachable sync_state_new []"
  by (simp add: sync_reachable_def)

text \<open>Served alone, a request only moves the clock of the server forward, up to both clocks.\<close>

lemma delta_sync_clock:
  assumes "delta_sync s r = Ok (resp, t)" "keys_once (request_vector_clock r)"
  shows "clock_le (server_vector_clock s) (server_vector_clock t)"
    and "clock_le \<lparr>counters = request_vector_clock r\<rparr> (server_vector_clock t)"
    and "counters (server_vector_clock t) = response_merged_clock resp"
  using assms clock_merge_lub [of "\<lparr>counters = request_vector_clock r\<rparr>" "server_vector_clock s"]
  by (auto simp: delta_sync_def apply_client_deltas_same Let_def write_clock_def store_client_deltas_def)

end
