(* ===== verification/Server_Correct.thy ===== *)
theory Server_Correct
  imports Server_Crdt Server_Sync
begin

text \<open>
  The properties of the replicated data types and of the delta synchronisation of the server.
\<close>

section \<open>Last-write-wins sets\<close>

text \<open>C9: convergence of the last-write-wins set.  Two replicas that have merged the same states, their own
  included, in whatever order and however often, contain the same values and have the same size; a value is
  contained exactly when the latest of its writes in these states includes an addition.\<close>

theorem lww_replicas_converge:
  assumes "lww_replica key s" "\<forall>t\<in>set ts. lww_replica key t" "set (s # ts) = set (u # us)"
  shows "lww_has key (lww_merge_all s ts) v = lww_has key (lww_merge_all u us) v \<and>
    lww_size (lww_merge_all s ts) = lww_size (lww_merge_all u us) \<and>
    (lww_has key (lww_merge_all s ts) v \<longleftrightarrow>
      (\<exists>t\<in>set (s # ts). \<exists>e. get_key t (key v) = Some e \<and> is_add e \<and>
        (\<forall>x\<in>set (s # ts). \<forall>d. get_key x (key v) = Some d \<longrightarrow> timestamp d \<le> timestamp e)))"
proof -
  have u: "lww_replica key u" "\<forall>t\<in>set us. lww_replica key t"
    using assms by auto
  have view: "lww_view (lww_merge_all s ts) = lww_view (lww_merge_all u us)"
    using lww.converge [OF assms] by (simp add: lww_merge_all_def)
  have once: "keys_once (lww_merge_all s ts)" "keys_once (lww_merge_all u us)"
    using lww.merge_all_replica [OF assms(1,2)] lww.merge_all_replica [OF u] lww_replica_ok
    by (auto simp: lww_merge_all_def lww_ok_def)
  show ?thesis
    using lww_has_latest [OF assms(1,2)] lww_size_view [OF once(1)] lww_size_view [OF once(2)]
    by (simp add: lww_has_view view)
qed

text \<open>The witness: one replica adds a value, another removes it at the same time.\<close>

definition demo_adder :: "string lww_set" where
  "demo_adder = lww_add (\<lambda>s. s) 0 lww_new ''talk'' ''phone'' (Some 5)"

definition demo_remover :: "string lww_set" where
  "demo_remover = lww_remove (\<lambda>s. s) 0 lww_new ''talk'' ''web'' (Some 5)"

theorem lww_replicas_converge_witness:
  "lww_has (\<lambda>s. s) (lww_merge_all demo_adder [demo_remover]) ''talk'' \<and>
   lww_has (\<lambda>s. s) (lww_merge_all demo_remover [demo_adder, demo_remover]) ''talk''"
proof -
  have "lww_replica (\<lambda>s. s) demo_adder" "lww_replica (\<lambda>s. s) demo_remover"
    unfolding demo_adder_def demo_remover_def by (intro lww_replica.intros)+
  then have "lww_has (\<lambda>s. s) (lww_merge_all demo_adder [demo_remover]) ''talk'' =
      lww_has (\<lambda>s. s) (lww_merge_all demo_remover [demo_adder, demo_remover]) ''talk''"
    using lww_replicas_converge [of "\<lambda>s. s" demo_adder "[demo_remover]" demo_remover "[demo_adder, demo_remover]" "''talk''"] by auto
  moreover have "lww_has (\<lambda>s. s) (lww_merge_all demo_adder [demo_remover]) ''talk''"
    by (simp add: lww_merge_all_def demo_adder_def demo_remover_def lww_eval clock_eval compare_loop.simps)
  ultimately show ?thesis
    by simp
qed

section \<open>Synchronisation\<close>

text \<open>C21: in every state that interleaved requests can reach, the server keeps at most 1000 deltas of a node, each
  once, and the merged clock of an answer is the least clock that is at or after both the server clock which
  the answer reports and the clock of its client, if the client sent a clock with one counter per node.\<close>

theorem sync_answers_bounded:
  assumes "sync_reachable s ps"
  shows "(\<forall>n ds. get_key (delta_store s) n = Some ds \<longrightarrow> length ds \<le> 1000 \<and> distinct (map delta_id ds)) \<and>
    (\<forall>r resp. Answered r resp \<in> set ps \<longrightarrow> keys_once (request_vector_clock r) \<longrightarrow>
      clock_le \<lparr>counters = response_server_clock resp\<rparr> \<lparr>counters = response_merged_clock resp\<rparr> \<and>
      clock_le (client_clock r) \<lparr>counters = response_merged_clock resp\<rparr> \<and>
      (\<forall>c. clock_le \<lparr>counters = response_server_clock resp\<rparr> c \<longrightarrow> clock_le (client_clock r) c \<longrightarrow>
        clock_le \<lparr>counters = response_merged_clock resp\<rparr> c))"
  using sync_reachable_ok [OF assms]
  by (force simp: store_ok_def deltas_ok_def list_all_iff response_ok_def simp del: map_of_eq_Some_iff)

text \<open>The answer leaves out the deltas that are equal to or after the clock of the client.\<close>

lemma answers_miss_later_deltas:
  "sync_reachable s ps \<Longrightarrow> Answered r resp \<in> set ps \<Longrightarrow> d \<in> set (response_server_deltas resp) \<Longrightarrow>
    \<not> clock_le (client_clock r) (delta_clock d)"
  using sync_reachable_ok [of s ps] by (fastforce simp: list_all_iff response_ok_def)

text \<open>The witness: a phone sends a delta, and a client that has not seen it asks for what is new.\<close>

definition demo_delta :: "unit delta_entry" where
  "demo_delta = \<lparr>delta_id = ''d1'', entity_type = ''bookmark'', entity_id = ''e'', operation = DeltaAdd, delta_value = (),
    delta_vector_clock = [(''phone'', 2)], delta_timestamp = 7, synced = False\<rparr>"

definition demo_push :: "unit sync_request" where
  "demo_push = \<lparr>node_id = ''phone'', request_vector_clock = [(''phone'', 2)], deltas = [demo_delta]\<rparr>"

definition demo_pull :: "unit sync_request" where
  "demo_pull = \<lparr>node_id = ''web'', request_vector_clock = [(''phone'', 1)], deltas = []\<rparr>"

definition demo_synced :: "unit sync_state" where
  "demo_synced = \<lparr>server_vector_clock = \<lparr>counters = [(''phone'', 2)]\<rparr>, delta_store = [(''phone'', [demo_delta])]\<rparr>"

lemma demo_push_sync:
  "delta_sync sync_state_new demo_push = (Ok (\<lparr>response_server_clock = [], response_server_deltas = [],
    response_merged_clock = [(''phone'', 2)]\<rparr>, demo_synced) :: (unit, _) result)"
  by (simp add: sync_eval demo_push_def demo_synced_def clock_eval apply_client_deltas_same)

lemma demo_pull_sync:
  "\<exists>resp t. delta_sync demo_synced demo_pull = (Ok (resp, t) :: (unit, _) result)
     \<and> response_server_clock resp = [(''phone'', 2)]"
  by (simp add: sync_eval demo_pull_def demo_synced_def demo_delta_def clock_eval apply_client_deltas_same)

theorem sync_answers_bounded_witness:
  "\<exists>resp t. delta_sync demo_synced demo_pull = (Ok (resp, t) :: (unit, _) result) \<and>
    get_key (delta_store t) ''phone'' = Some [demo_delta] \<and> length [demo_delta] \<le> 1000 \<and>
    clock_le (client_clock demo_pull) \<lparr>counters = response_merged_clock resp\<rparr> \<and>
    clock_le \<lparr>counters = response_merged_clock resp\<rparr> \<lparr>counters = [(''phone'', 2)]\<rparr>"
proof -
  obtain resp t where served: "delta_sync demo_synced demo_pull = (Ok (resp, t) :: (unit, _) result)"
      "response_server_clock resp = [(''phone'', 2)]"
    using demo_pull_sync by blast
  have store: "get_key (delta_store t) ''phone'' = Some [demo_delta]"
    using served by (auto simp: sync_eval demo_pull_def demo_synced_def apply_client_deltas_same Let_def)
  have le: "clock_le (client_clock demo_pull) \<lparr>counters = [(''phone'', 2)]\<rparr>"
    by (simp add: clock_le_def le_fun_def demo_pull_def get_counter_def unwrap_or_def)
  from sync_answers_bounded [OF sync_reachable_serve [OF sync_reachable_serve [OF sync_reachable_new demo_push_sync] served(1)]]
  show ?thesis
    using served store le by (auto simp: demo_pull_def)
qed

end
