(* ===== verification/Zk_Proof.thy ===== *)
theory Zk_Proof
  imports Prelude "HOL-Library.Word"
begin

text \<open>
  The zero-knowledge ticket attestation of the server (\<open>src/server/src/utils/zkp_verifier.rs\<close>): tiers,
  hash transcripts, commitments, the Merkle tree, the wire format of a proof, the verifier and the
  prover.

  The ristretto255 group, its scalars and SHA-512 come from other crates.  They are the fields of the
  record \<open>curve\<close>: scalars and points are type variables with the ring and group operations of their
  type classes, and a hasher is the list of the bytes fed to it.  What the proofs use of these crates
  is written out in the predicates \<open>module_laws\<close> and \<open>encoding_laws\<close>.
\<close>

section \<open>Bytes\<close>

type_synonym byte = "8 word"
type_synonym bytes = "byte list"

definition as_bytes :: "string \<Rightarrow> bytes" where
  "as_bytes s = map of_char s"

definition u64_to_be_bytes :: "nat \<Rightarrow> bytes" where
  "u64_to_be_bytes n = map (\<lambda>i. of_nat (n div 256 ^ (7 - i))) [0..<8]"

definition u16_to_be_bytes :: "nat \<Rightarrow> bytes" where
  "u16_to_be_bytes n = [of_nat (n div 256), of_nat n]"

definition u16_from_be_bytes :: "byte \<Rightarrow> byte \<Rightarrow> nat" where
  "u16_from_be_bytes a b = unat a * 256 + unat b"

section \<open>Protocol constants\<close>

definition DOMAIN_GENERATOR_H :: bytes where "DOMAIN_GENERATOR_H = as_bytes ''agora/zkp/v1/generator-h''"
definition DOMAIN_TICKET_SCALAR :: bytes where "DOMAIN_TICKET_SCALAR = as_bytes ''agora/zkp/v1/ticket-scalar''"
definition DOMAIN_SECRET_SCALAR :: bytes where "DOMAIN_SECRET_SCALAR = as_bytes ''agora/zkp/v1/secret-scalar''"
definition DOMAIN_NULLIFIER_BASE :: bytes where "DOMAIN_NULLIFIER_BASE = as_bytes ''agora/zkp/v1/nullifier-base''"
definition DOMAIN_MERKLE_LEAF :: bytes where "DOMAIN_MERKLE_LEAF = as_bytes ''agora/zkp/v1/merkle-leaf''"
definition DOMAIN_MERKLE_NODE :: bytes where "DOMAIN_MERKLE_NODE = as_bytes ''agora/zkp/v1/merkle-node''"
definition DOMAIN_TRANSCRIPT :: bytes where "DOMAIN_TRANSCRIPT = as_bytes ''agora/zkp/v1/fiat-shamir''"

definition PROOF_VERSION :: byte where "PROOF_VERSION = 1"
definition DEFAULT_EPOCH :: string where "DEFAULT_EPOCH = ''checkin''"
definition MAX_RING_SIZE :: nat where "MAX_RING_SIZE = 256"
definition PROOF_HEADER_BYTES :: nat where "PROOF_HEADER_BYTES = 1 + 1 + 2 + 32"
definition PROOF_BYTES_PER_MEMBER :: nat where "PROOF_BYTES_PER_MEMBER = 32 * 3"

lemmas zk_constants = PROOF_VERSION_def MAX_RING_SIZE_def PROOF_HEADER_BYTES_def PROOF_BYTES_PER_MEMBER_def

datatype zkp_error =
    MalformedProof
  | UnsupportedVersion byte
  | NonCanonicalEncoding
  | RingSize (got: nat) (min_size: nat) (max_size: nat)
  | RingMismatch
  | RootMismatch
  | DegenerateNullifier
  | VerificationFailed
  | WitnessOutOfRange nat
  | WitnessMismatch

section \<open>Attestation tiers\<close>

datatype attestation_tier = General | Age21Plus | Vip

fun as_byte :: "attestation_tier \<Rightarrow> byte" where
  "as_byte General = 0"
| "as_byte Age21Plus = 1"
| "as_byte Vip = 2"

definition from_byte :: "byte \<Rightarrow> attestation_tier option" where
  "from_byte b = (if b = 0 then Some General else if b = 1 then Some Age21Plus else if b = 2 then Some Vip else None)"

fun tier_as_str :: "attestation_tier \<Rightarrow> string" where
  "tier_as_str General = ''general''"
| "tier_as_str Age21Plus = ''age21plus''"
| "tier_as_str Vip = ''vip''"

definition from_str_label :: "string \<Rightarrow> attestation_tier option" where
  "from_str_label s = (if s = ''general'' then Some General else if s = ''age21plus'' then Some Age21Plus
    else if s = ''vip'' then Some Vip else None)"

fun min_ring :: "attestation_tier \<Rightarrow> nat" where
  "min_ring General = 8"
| "min_ring Age21Plus = 8"
| "min_ring Vip = 4"

section \<open>The group and the hash function\<close>

record ('s, 'p) curve =
  smul :: "'s \<Rightarrow> 'p \<Rightarrow> 'p"
  basepoint :: 'p
  compress :: "'p \<Rightarrow> bytes"
  decompress :: "bytes \<Rightarrow> 'p option"
  scalar_bytes :: "'s \<Rightarrow> bytes"
  from_canonical_bytes :: "bytes \<Rightarrow> 's option"
  from_bytes_mod_order_wide :: "bytes \<Rightarrow> 's"
  from_uniform_bytes :: "bytes \<Rightarrow> 'p"
  sha512 :: "bytes \<Rightarrow> bytes"

text \<open>The sum of the products of scalars and points.\<close>

definition multiscalar_mul :: "('s, 'p::ab_group_add, 'z) curve_scheme \<Rightarrow> 's list \<Rightarrow> 'p list \<Rightarrow> 'p" where
  "multiscalar_mul c ss ps = sum_list (map2 (smul c) ss ps)"

text \<open>Multiplication by a scalar is linear on both sides.\<close>

definition module_laws :: "('s::comm_ring_1, 'p::ab_group_add, 'z) curve_scheme \<Rightarrow> bool" where
  "module_laws c \<longleftrightarrow>
    (\<forall>a b p. smul c (a + b) p = smul c a p + smul c b p) \<and>
    (\<forall>a p q. smul c a (p + q) = smul c a p + smul c a q) \<and>
    (\<forall>a b p. smul c (a * b) p = smul c a (smul c b p)) \<and>
    (\<forall>p. smul c 1 p = p)"

text \<open>
  Points and scalars have 32-byte encodings that decode to what was encoded, a scalar has only one
  canonical encoding, and SHA-512 returns 64 bytes.
\<close>

definition encoding_laws :: "('s, 'p, 'z) curve_scheme \<Rightarrow> bool" where
  "encoding_laws c \<longleftrightarrow>
    (\<forall>p. decompress c (compress c p) = Some p \<and> length (compress c p) = 32) \<and>
    (\<forall>s. from_canonical_bytes c (scalar_bytes c s) = Some s \<and> length (scalar_bytes c s) = 32) \<and>
    (\<forall>b s. from_canonical_bytes c b = Some s \<longrightarrow> scalar_bytes c s = b) \<and>
    (\<forall>b. length (sha512 c b) = 64)"

section \<open>Hashing\<close>

definition absorb :: "bytes \<Rightarrow> bytes \<Rightarrow> bytes" where
  "absorb hasher field = hasher @ u64_to_be_bytes (length field) @ field"

definition transcript :: "bytes \<Rightarrow> bytes list \<Rightarrow> bytes" where
  "transcript domain parts = fold (\<lambda>part hasher. absorb hasher part) parts (absorb [] domain)"

definition hash_to_group :: "('s, 'p, 'z) curve_scheme \<Rightarrow> bytes \<Rightarrow> bytes list \<Rightarrow> 'p" where
  "hash_to_group c domain parts = from_uniform_bytes c (sha512 c (transcript domain parts))"

definition hash_to_scalar :: "('s, 'p, 'z) curve_scheme \<Rightarrow> bytes \<Rightarrow> bytes list \<Rightarrow> 's" where
  "hash_to_scalar c domain parts = from_bytes_mod_order_wide c (sha512 c (transcript domain parts))"

definition hash32 :: "('s, 'p, 'z) curve_scheme \<Rightarrow> bytes \<Rightarrow> bytes list \<Rightarrow> bytes" where
  "hash32 c domain parts = take 32 (sha512 c (transcript domain parts))"

definition finalize_to_scalar :: "('s, 'p, 'z) curve_scheme \<Rightarrow> bytes \<Rightarrow> 's" where
  "finalize_to_scalar c hasher = from_bytes_mod_order_wide c (sha512 c hasher)"

section \<open>Public parameters and commitments\<close>

definition generator_h :: "('s, 'p, 'z) curve_scheme \<Rightarrow> 'p" where
  "generator_h c = hash_to_group c DOMAIN_GENERATOR_H []"

definition generator_g :: "('s, 'p, 'z) curve_scheme \<Rightarrow> 'p" where
  "generator_g c = basepoint c"

definition ticket_scalar :: "('s, 'p, 'z) curve_scheme \<Rightarrow> string \<Rightarrow> 's" where
  "ticket_scalar c ticket_id = hash_to_scalar c DOMAIN_TICKET_SCALAR [as_bytes ticket_id]"

definition secret_scalar :: "('s, 'p, 'z) curve_scheme \<Rightarrow> bytes \<Rightarrow> 's" where
  "secret_scalar c secret_bytes = hash_to_scalar c DOMAIN_SECRET_SCALAR [secret_bytes]"

definition commit :: "('s, 'p::ab_group_add, 'z) curve_scheme \<Rightarrow> 's \<Rightarrow> 's \<Rightarrow> 'p" where
  "commit c ticket secret = multiscalar_mul c [ticket, secret] [generator_g c, generator_h c]"

definition nullifier_base :: "('s, 'p, 'z) curve_scheme \<Rightarrow> string \<Rightarrow> string \<Rightarrow> 'p" where
  "nullifier_base c event_id epoch = hash_to_group c DOMAIN_NULLIFIER_BASE [as_bytes event_id, as_bytes epoch]"

definition compute_nullifier :: "('s, 'p, 'z) curve_scheme \<Rightarrow> 's \<Rightarrow> string \<Rightarrow> string \<Rightarrow> 'p" where
  "compute_nullifier c secret event_id epoch = smul c secret (nullifier_base c event_id epoch)"

definition leaf_hash :: "('s, 'p, 'z) curve_scheme \<Rightarrow> bytes \<Rightarrow> bytes" where
  "leaf_hash c commitment = hash32 c DOMAIN_MERKLE_LEAF [commitment]"

section \<open>The Merkle tree\<close>

definition node_hash :: "('s, 'p, 'z) curve_scheme \<Rightarrow> bytes \<Rightarrow> bytes \<Rightarrow> bytes" where
  "node_hash c left right = hash32 c DOMAIN_MERKLE_NODE [left, right]"

text \<open>One round of the loop: pairs are hashed, an odd last node is promoted.\<close>

fun merkle_level :: "('s, 'p, 'z) curve_scheme \<Rightarrow> bytes list \<Rightarrow> bytes list" where
  "merkle_level c (left # right # rest) = node_hash c left right # merkle_level c rest"
| "merkle_level c [single] = [single]"
| "merkle_level c [] = []"

lemma length_merkle_level: "length (merkle_level c level) = (length level + 1) div 2"
  by (induction c level rule: merkle_level.induct) auto

function merkle_loop :: "('s, 'p, 'z) curve_scheme \<Rightarrow> bytes list \<Rightarrow> bytes list" where
  "merkle_loop c level = (if length level > 1 then merkle_loop c (merkle_level c level) else level)"
  by pat_completeness auto

termination
  by (relation "measure (\<lambda>(c, level). length level)") (auto simp: length_merkle_level)

declare merkle_loop.simps [simp del]

definition merkle_root :: "('s, 'p, 'z) curve_scheme \<Rightarrow> bytes list \<Rightarrow> bytes" where
  "merkle_root c leaves = (if leaves = [] then replicate 32 0 else merkle_loop c leaves ! 0)"

definition merkle_root_of_commitments :: "('s, 'p, 'z) curve_scheme \<Rightarrow> bytes list \<Rightarrow> bytes" where
  "merkle_root_of_commitments c commitments = merkle_root c (map (leaf_hash c) commitments)"

section \<open>Ring members\<close>

record 'p ring_member =
  point :: 'p
  compressed :: bytes

definition member_from_compressed :: "('s, 'p, 'z) curve_scheme \<Rightarrow> bytes \<Rightarrow> (zkp_error, 'p ring_member) result" where
  "member_from_compressed c b = rbind (ok_or (decompress c b) NonCanonicalEncoding)
    (\<lambda>p. Ok \<lparr>point = p, compressed = b\<rparr>)"

text \<open>The slice conversion of a compressed point accepts exactly 32 bytes.\<close>

definition compressed_from_slice :: "bytes \<Rightarrow> bytes option" where
  "compressed_from_slice b = (if length b = 32 then Some b else None)"

definition member_from_bytes :: "('s, 'p, 'z) curve_scheme \<Rightarrow> bytes \<Rightarrow> (zkp_error, 'p ring_member) result" where
  "member_from_bytes c b = rbind (ok_or (compressed_from_slice b) NonCanonicalEncoding) (member_from_compressed c)"

definition member_leaf :: "('s, 'p, 'z) curve_scheme \<Rightarrow> 'p ring_member \<Rightarrow> bytes" where
  "member_leaf c m = leaf_hash c (compressed m)"

section \<open>Proofs and their wire format\<close>

record 's ring_proof =
  version :: byte
  proof_tier :: attestation_tier
  nullifier :: bytes
  challenges :: "'s list"
  z_ticket :: "'s list"
  z_secret :: "'s list"

definition ring_size :: "'s ring_proof \<Rightarrow> nat" where
  "ring_size p = length (challenges p)"

definition to_bytes :: "('s, 'p, 'z) curve_scheme \<Rightarrow> 's ring_proof \<Rightarrow> bytes" where
  "to_bytes c p = [version p] @ [as_byte (proof_tier p)] @ u16_to_be_bytes (ring_size p) @ nullifier p @
    concat (map (scalar_bytes c) (challenges p)) @
    concat (map (scalar_bytes c) (z_ticket p)) @
    concat (map (scalar_bytes c) (z_secret p))"

text \<open>Reading \<open>n\<close> scalars at the cursor.\<close>

fun read_group :: "('s, 'p, 'z) curve_scheme \<Rightarrow> bytes \<Rightarrow> nat \<Rightarrow> nat \<Rightarrow> (zkp_error, 's list \<times> nat) result" where
  "read_group c b cursor 0 = Ok ([], cursor)"
| "read_group c b cursor (Suc n) =
    rbind (ok_or (from_canonical_bytes c (take 32 (drop cursor b))) NonCanonicalEncoding) (\<lambda>scalar.
    rbind (read_group c b (cursor + 32) n) (\<lambda>(group, cursor). Ok (scalar # group, cursor)))"

definition proof_from_bytes :: "('s, 'p, 'z) curve_scheme \<Rightarrow> bytes \<Rightarrow> (zkp_error, 's ring_proof) result" where
  "proof_from_bytes c b = (
    if length b < PROOF_HEADER_BYTES then Err MalformedProof
    else let v = b ! 0 in
    if v \<noteq> PROOF_VERSION then Err (UnsupportedVersion v)
    else rbind (ok_or (from_byte (b ! 1)) MalformedProof) (\<lambda>tier.
    let n = u16_from_be_bytes (b ! 2) (b ! 3) in
    if n = 0 \<or> n > MAX_RING_SIZE then Err (RingSize n 1 MAX_RING_SIZE)
    else if length b \<noteq> PROOF_HEADER_BYTES + n * PROOF_BYTES_PER_MEMBER then Err MalformedProof
    else rbind (ok_or (compressed_from_slice (take (PROOF_HEADER_BYTES - 4) (drop 4 b))) NonCanonicalEncoding) (\<lambda>nf.
    rbind (read_group c b PROOF_HEADER_BYTES n) (\<lambda>(cs, cursor).
    rbind (read_group c b cursor n) (\<lambda>(zts, cursor).
    rbind (read_group c b cursor n) (\<lambda>(zss, cursor).
    Ok \<lparr>version = v, proof_tier = tier, nullifier = nf, challenges = cs, z_ticket = zts, z_secret = zss\<rparr>))))))"

section \<open>The verifier\<close>

record 'p verification_context =
  ctx_event_id :: string
  ctx_epoch :: string
  ctx_tier :: attestation_tier
  ctx_merkle_root :: bytes
  ctx_ring :: "'p ring_member list"

record verified_attestation =
  att_nullifier :: bytes
  att_tier :: attestation_tier
  anonymity_set_size :: nat

definition base_transcript :: "'p verification_context \<Rightarrow> byte \<Rightarrow> bytes \<Rightarrow> bytes \<Rightarrow> bytes" where
  "base_transcript ctx v omega nf = (
    let hasher = absorb [] DOMAIN_TRANSCRIPT;
        hasher = absorb hasher [v, as_byte (ctx_tier ctx)];
        hasher = absorb hasher (as_bytes (ctx_event_id ctx));
        hasher = absorb hasher (as_bytes (ctx_epoch ctx));
        hasher = absorb hasher (ctx_merkle_root ctx);
        hasher = absorb hasher omega;
        hasher = absorb hasher nf;
        hasher = absorb hasher (u64_to_be_bytes (length (ctx_ring ctx))) in
    fold (\<lambda>member hasher. absorb hasher (compressed member)) (ctx_ring ctx) hasher)"

definition check_ring_size :: "'p verification_context \<Rightarrow> (zkp_error, unit) result" where
  "check_ring_size ctx = (let n = length (ctx_ring ctx); m = min_ring (ctx_tier ctx) in
    if n < m \<or> n > MAX_RING_SIZE then Err (RingSize n m MAX_RING_SIZE) else Ok ())"

text \<open>The points of one member that the verifier recomputes from a challenge and its responses.\<close>

definition a_point :: "('s::comm_ring_1, 'p::ab_group_add, 'z) curve_scheme \<Rightarrow> 's \<Rightarrow> 's \<Rightarrow> 's \<Rightarrow> 'p \<Rightarrow> 'p" where
  "a_point c c_i zt zs member = multiscalar_mul c [zt, zs, - c_i] [generator_g c, generator_h c, member]"

definition b_point :: "('s::comm_ring_1, 'p::ab_group_add, 'z) curve_scheme \<Rightarrow> 's \<Rightarrow> 's \<Rightarrow> 'p \<Rightarrow> 'p \<Rightarrow> 'p" where
  "b_point c c_i zs omega nf = multiscalar_mul c [zs, - c_i] [omega, nf]"

definition verify_member ::
  "('s::comm_ring_1, 'p::ab_group_add, 'z) curve_scheme \<Rightarrow> 's ring_proof \<Rightarrow> 'p verification_context \<Rightarrow>
    'p \<Rightarrow> 'p \<Rightarrow> nat \<Rightarrow> bytes \<times> 's \<Rightarrow> bytes \<times> 's" where
  "verify_member c p ctx omega nf i = (\<lambda>(hasher, challenge_sum).
    let c_i = challenges p ! i;
        a_i = a_point c c_i (z_ticket p ! i) (z_secret p ! i) (point (ctx_ring ctx ! i));
        b_i = b_point c c_i (z_secret p ! i) omega nf in
    (absorb (absorb hasher (compress c a_i)) (compress c b_i), challenge_sum + c_i))"

definition verify ::
  "('s::comm_ring_1, 'p::ab_group_add, 'z) curve_scheme \<Rightarrow> 's ring_proof \<Rightarrow> 'p verification_context \<Rightarrow>
    (zkp_error, verified_attestation) result" where
  "verify c p ctx = (
    if version p \<noteq> PROOF_VERSION then Err (UnsupportedVersion (version p))
    else if proof_tier p \<noteq> ctx_tier ctx then Err VerificationFailed
    else rbind (check_ring_size ctx) (\<lambda>_.
    let n = length (ctx_ring ctx) in
    if length (challenges p) \<noteq> n \<or> length (z_ticket p) \<noteq> n \<or> length (z_secret p) \<noteq> n then Err RingMismatch
    else if merkle_root c (map (member_leaf c) (ctx_ring ctx)) \<noteq> ctx_merkle_root ctx then Err RootMismatch
    else rbind (ok_or (decompress c (nullifier p)) NonCanonicalEncoding) (\<lambda>nf.
    if nf = 0 then Err DegenerateNullifier
    else let omega = nullifier_base c (ctx_event_id ctx) (ctx_epoch ctx);
             hasher = base_transcript ctx (version p) (compress c omega) (nullifier p);
             (hasher, challenge_sum) = fold (verify_member c p ctx omega nf) [0..<n] (hasher, 0) in
    if finalize_to_scalar c hasher \<noteq> challenge_sum then Err VerificationFailed
    else Ok \<lparr>att_nullifier = nullifier p, att_tier = ctx_tier ctx, anonymity_set_size = n\<rparr>)))"

section \<open>The prover\<close>

record 's zk_witness =
  index :: nat
  ticket :: 's
  secret :: 's

text \<open>The arrays of the prover while it simulates the other members, and its source of randomness.\<close>

record ('s, 'p, 'r) prover =
  p_challenges :: "'s list"
  p_z_ticket :: "'s list"
  p_z_secret :: "'s list"
  p_a_points :: "'p list"
  p_b_points :: "'p list"
  p_rng :: 'r

definition simulate_member ::
  "('s::comm_ring_1, 'p::ab_group_add, 'z) curve_scheme \<Rightarrow> ('r \<Rightarrow> 's \<times> 'r) \<Rightarrow> 'p verification_context \<Rightarrow>
    nat \<Rightarrow> 'p \<Rightarrow> 'p \<Rightarrow> nat \<Rightarrow> ('s, 'p, 'r) prover \<Rightarrow> ('s, 'p, 'r) prover" where
  "simulate_member c next_scalar ctx l omega nf i st = (
    if i = l then st
    else let (c_i, rng) = next_scalar (p_rng st);
             (zt, rng) = next_scalar rng;
             (zs, rng) = next_scalar rng in
    st\<lparr>p_challenges := (p_challenges st)[i := c_i],
       p_z_ticket := (p_z_ticket st)[i := zt],
       p_z_secret := (p_z_secret st)[i := zs],
       p_a_points := (p_a_points st)[i := a_point c c_i zt zs (point (ctx_ring ctx ! i))],
       p_b_points := (p_b_points st)[i := b_point c c_i zs omega nf],
       p_rng := rng\<rparr>)"

definition absorb_points :: "('s, 'p, 'z) curve_scheme \<Rightarrow> 'p list \<Rightarrow> 'p list \<Rightarrow> nat \<Rightarrow> bytes \<Rightarrow> bytes" where
  "absorb_points c as bs i hasher = absorb (absorb hasher (compress c (as ! i))) (compress c (bs ! i))"

definition prove ::
  "('s::comm_ring_1, 'p::ab_group_add, 'z) curve_scheme \<Rightarrow> ('r \<Rightarrow> 's \<times> 'r) \<Rightarrow> 's zk_witness \<Rightarrow>
    'p verification_context \<Rightarrow> 'r \<Rightarrow> (zkp_error, 's ring_proof \<times> 'r) result" where
  "prove c next_scalar w ctx rng = rbind (check_ring_size ctx) (\<lambda>_.
    let n = length (ctx_ring ctx) in
    if index w \<ge> n then Err (WitnessOutOfRange (index w))
    else if commit c (ticket w) (secret w) \<noteq> point (ctx_ring ctx ! index w) then Err WitnessMismatch
    else let omega = nullifier_base c (ctx_event_id ctx) (ctx_epoch ctx);
             nf = smul c (secret w) omega;
             l = index w;
             st = \<lparr>p_challenges = replicate n 0, p_z_ticket = replicate n 0, p_z_secret = replicate n 0,
               p_a_points = replicate n 0, p_b_points = replicate n 0, p_rng = rng\<rparr>;
             st = fold (simulate_member c next_scalar ctx l omega nf) [0..<n] st;
             (r_ticket, rng) = next_scalar (p_rng st);
             (r_secret, rng) = next_scalar rng;
             as = (p_a_points st)[l := multiscalar_mul c [r_ticket, r_secret] [generator_g c, generator_h c]];
             bs = (p_b_points st)[l := smul c r_secret omega];
             hasher = base_transcript ctx PROOF_VERSION (compress c omega) (compress c nf);
             challenge = finalize_to_scalar c (fold (absorb_points c as bs) [0..<n] hasher);
             simulated_sum = sum_list (map snd (filter (\<lambda>(i, _). i \<noteq> l) (enumerate 0 (p_challenges st))));
             c_l = challenge - simulated_sum in
    Ok (\<lparr>version = PROOF_VERSION, proof_tier = ctx_tier ctx, nullifier = compress c nf,
      challenges = (p_challenges st)[l := c_l],
      z_ticket = (p_z_ticket st)[l := r_ticket + c_l * ticket w],
      z_secret = (p_z_secret st)[l := r_secret + c_l * secret w]\<rparr>, rng))"

section \<open>The backend of the check-in handler\<close>

definition scheme_id :: string where
  "scheme_id = ''ring-cp-ristretto255-v1''"

definition verify_encoded ::
  "('s::comm_ring_1, 'p::ab_group_add, 'z) curve_scheme \<Rightarrow> bytes \<Rightarrow> 'p verification_context \<Rightarrow>
    (zkp_error, verified_attestation) result" where
  "verify_encoded c b ctx = rbind (proof_from_bytes c b) (\<lambda>p. verify c p ctx)"

lemmas zk_eval =
  multiscalar_mul_def absorb_def transcript_def hash_to_group_def hash_to_scalar_def hash32_def finalize_to_scalar_def
  generator_h_def generator_g_def commit_def nullifier_base_def leaf_hash_def node_hash_def merkle_root_def
  member_leaf_def base_transcript_def check_ring_size_def a_point_def b_point_def verify_member_def verify_def
  simulate_member_def absorb_points_def prove_def

end
