(* ===== verification/Zk_Wire.thy ===== *)
theory Zk_Wire
  imports Zk_Proof
begin

text \<open>
  The wire format of a proof: the parser accepts exactly the byte strings that the printer makes of
  well-formed proofs, and returns that proof.
\<close>

section \<open>Well-formed proofs\<close>

text \<open>The version is the current one, the nullifier has 32 bytes, and there is one challenge and one pair
  of responses for each of 1 to 256 members.\<close>

definition wf_proof :: "'s ring_proof \<Rightarrow> bool" where
  "wf_proof p \<longleftrightarrow> version p = PROOF_VERSION \<and> length (nullifier p) = 32 \<and>
    0 < ring_size p \<and> ring_size p \<le> MAX_RING_SIZE \<and>
    length (z_ticket p) = ring_size p \<and> length (z_secret p) = ring_size p"

section \<open>Bytes\<close>

lemma from_byte_as_byte [simp]: "from_byte (as_byte t) = Some t"
  by (cases t) (simp_all add: from_byte_def)

lemma from_byte_eq_Some: "from_byte b = Some t \<longleftrightarrow> b = as_byte t"
  by (cases t) (auto simp: from_byte_def)

lemma from_str_label_as_str [simp]: "from_str_label (tier_as_str t) = Some t"
  by (cases t) (simp_all add: from_str_label_def)

lemma from_str_label_eq_Some: "from_str_label s = Some t \<longleftrightarrow> s = tier_as_str t"
  by (cases t) (auto simp: from_str_label_def)

lemma u16_roundtrip: "n < 65536 \<Longrightarrow> u16_from_be_bytes (of_nat (n div 256)) (of_nat n) = n"
  by (simp add: u16_from_be_bytes_def unat_of_nat)

lemma u16_to_be_from_be: "u16_to_be_bytes (u16_from_be_bytes a b) = [a, b]"
proof -
  have "unat a < 256" "unat b < 256"
    using unsigned_less [of a] unsigned_less [of b] by simp_all
  moreover have "(of_nat (unat a * 256 + unat b) :: byte) = b"
  proof -
    have "(256 :: byte) = 0"
      by simp
    then show ?thesis
      by (simp only: of_nat_add of_nat_mult of_nat_numeral of_nat_unat mult_zero_right add_0) simp
  qed
  ultimately show ?thesis
    by (simp add: u16_to_be_bytes_def u16_from_be_bytes_def)
qed

lemma length_u16_to_be_bytes [simp]: "length (u16_to_be_bytes n) = 2"
  by (simp add: u16_to_be_bytes_def)

section \<open>Groups of scalars\<close>

lemma drop_after: "drop k b = x @ y \<Longrightarrow> length x = m \<Longrightarrow> drop (k + m) b = y"
  by (metis add.commute append_eq_conv_conj drop_drop)

lemma three_slices:
  "take m (drop k b) @ take m (drop (k + m) b) @ take m (drop (k + m + m) b) = take (m + (m + m)) (drop k b)"
  unfolding take_add drop_drop by (simp add: add.commute add.left_commute)

lemma encoding_scalars:
  assumes "encoding_laws c"
  shows "length (scalar_bytes c s) = 32" "from_canonical_bytes c (scalar_bytes c s) = Some s"
    "from_canonical_bytes c b = Some s \<longleftrightarrow> scalar_bytes c s = b"
  using assms unfolding encoding_laws_def by blast+

lemma length_scalars [simp]:
  "encoding_laws c \<Longrightarrow> length (concat (map (scalar_bytes c) ss)) = 32 * length ss"
  by (induction ss) (simp_all add: encoding_scalars)

lemma read_group_scalars:
  assumes "encoding_laws c"
  shows "drop cursor b = concat (map (scalar_bytes c) ss) @ rest \<Longrightarrow>
    read_group c b cursor (length ss) = Ok (ss, cursor + 32 * length ss)"
proof (induction ss arbitrary: cursor)
  case (Cons s ss)
  have "drop (cursor + 32) b = concat (map (scalar_bytes c) ss) @ rest"
    using Cons.prems by (simp add: add.commute [of cursor] encoding_scalars [OF assms] flip: drop_drop)
  moreover have "take 32 (drop cursor b) = scalar_bytes c s"
    using Cons.prems by (simp add: encoding_scalars [OF assms])
  ultimately show ?case
    using Cons.IH [of "cursor + 32"] by (simp add: ok_or_def encoding_scalars [OF assms])
qed simp

lemma read_group_sound:
  assumes "encoding_laws c"
  shows "read_group c b cursor n = Ok (ss, cursor') \<Longrightarrow>
    length ss = n \<and> cursor' = cursor + 32 * n \<and> concat (map (scalar_bytes c) ss) = take (32 * n) (drop cursor b)"
proof (induction n arbitrary: cursor ss cursor')
  case (Suc n)
  then obtain s ts where s: "from_canonical_bytes c (take 32 (drop cursor b)) = Some s"
    and ts: "read_group c b (cursor + 32) n = Ok (ts, cursor')" and ss: "ss = s # ts"
    by (auto simp: ok_or_def split: option.splits)
  have "scalar_bytes c s = take 32 (drop cursor b)"
    using s encoding_scalars(3) [OF assms] by simp
  moreover have "take (32 * Suc n) (drop cursor b) = take 32 (drop cursor b) @ take (32 * n) (drop (cursor + 32) b)"
    using take_add [of 32 "32 * n" "drop cursor b"] by (simp add: add.commute)
  ultimately show ?case
    using Suc.IH [OF ts] by (simp add: ss)
qed simp

section \<open>Parsing and printing\<close>

definition proof_body :: "('s, 'p, 'z) curve_scheme \<Rightarrow> 's ring_proof \<Rightarrow> bytes" where
  "proof_body c p = concat (map (scalar_bytes c) (challenges p)) @
    concat (map (scalar_bytes c) (z_ticket p)) @ concat (map (scalar_bytes c) (z_secret p))"

lemma to_bytes_split:
  "to_bytes c p = version p # as_byte (proof_tier p) # of_nat (ring_size p div 256) # of_nat (ring_size p) #
    nullifier p @ proof_body c p"
  by (simp add: to_bytes_def u16_to_be_bytes_def proof_body_def)

lemma length_proof_body:
  "encoding_laws c \<Longrightarrow> wf_proof p \<Longrightarrow> length (proof_body c p) = ring_size p * PROOF_BYTES_PER_MEMBER"
  by (simp add: proof_body_def wf_proof_def ring_size_def PROOF_BYTES_PER_MEMBER_def)

lemma to_bytes_parts:
  assumes "encoding_laws c" "wf_proof p"
  shows "length (to_bytes c p) = PROOF_HEADER_BYTES + ring_size p * PROOF_BYTES_PER_MEMBER"
    "to_bytes c p ! 0 = PROOF_VERSION" "to_bytes c p ! 1 = as_byte (proof_tier p)"
    "u16_from_be_bytes (to_bytes c p ! 2) (to_bytes c p ! 3) = ring_size p"
    "take 32 (drop 4 (to_bytes c p)) = nullifier p"
    "drop 36 (to_bytes c p) = proof_body c p"
proof -
  have wf: "version p = PROOF_VERSION" "length (nullifier p) = 32" "ring_size p < 65536"
    using assms(2) by (simp_all add: wf_proof_def MAX_RING_SIZE_def)
  show "length (to_bytes c p) = PROOF_HEADER_BYTES + ring_size p * PROOF_BYTES_PER_MEMBER"
    using assms wf by (simp add: to_bytes_split length_proof_body PROOF_HEADER_BYTES_def)
  show "to_bytes c p ! 0 = PROOF_VERSION" "to_bytes c p ! 1 = as_byte (proof_tier p)"
    using wf by (simp_all add: to_bytes_split)
  show "u16_from_be_bytes (to_bytes c p ! 2) (to_bytes c p ! 3) = ring_size p"
    using wf u16_roundtrip by (simp add: to_bytes_split)
  show "take 32 (drop 4 (to_bytes c p)) = nullifier p" "drop 36 (to_bytes c p) = proof_body c p"
    using wf by (simp_all add: to_bytes_split)
qed

lemma proof_from_to_bytes:
  assumes "encoding_laws c" "wf_proof p"
  shows "proof_from_bytes c (to_bytes c p) = Ok p"
proof -
  let ?n = "ring_size p"
  let ?b = "to_bytes c p"
  note parts = to_bytes_parts [OF assms]
  have lengths: "length (challenges p) = ?n" "length (z_ticket p) = ?n" "length (z_secret p) = ?n"
    using assms(2) by (simp_all add: wf_proof_def ring_size_def)
  have body: "drop 36 ?b = concat (map (scalar_bytes c) (challenges p)) @
      concat (map (scalar_bytes c) (z_ticket p)) @ concat (map (scalar_bytes c) (z_secret p))"
    using parts(6) by (simp add: proof_body_def)
  from drop_after [OF this length_scalars [OF assms(1)]] have tickets: "drop (36 + 32 * ?n) ?b =
      concat (map (scalar_bytes c) (z_ticket p)) @ concat (map (scalar_bytes c) (z_secret p))"
    by (simp only: lengths)
  from drop_after [OF this length_scalars [OF assms(1)]] have secrets: "drop (36 + 32 * ?n + 32 * ?n) ?b = concat (map (scalar_bytes c) (z_secret p)) @ []"
    by (simp only: lengths append_Nil2)
  have groups: "read_group c ?b 36 ?n = Ok (challenges p, 36 + 32 * ?n)"
    "read_group c ?b (36 + 32 * ?n) ?n = Ok (z_ticket p, 36 + 32 * ?n + 32 * ?n)"
    "read_group c ?b (36 + 32 * ?n + 32 * ?n) ?n = Ok (z_secret p, 36 + 32 * ?n + 32 * ?n + 32 * ?n)"
    using read_group_scalars [OF assms(1) body] read_group_scalars [OF assms(1) tickets]
      read_group_scalars [OF assms(1) secrets] by (simp_all add: lengths)
  have guards: "\<not> length ?b < PROOF_HEADER_BYTES" "?n \<noteq> 0" "\<not> ?n > MAX_RING_SIZE" "length (nullifier p) = 32"
      "version p = PROOF_VERSION"
    using assms(2) parts(1) by (simp_all add: wf_proof_def)
  show ?thesis
    unfolding proof_from_bytes_def parts(2-4) Let_def
    using guards parts(1,5) groups
    by (simp add: ok_or_def compressed_from_slice_def PROOF_HEADER_BYTES_def)
qed

lemma proof_from_bytes_sound:
  assumes "encoding_laws c" "proof_from_bytes c b = Ok p"
  shows "wf_proof p \<and> b = to_bytes c p"
proof -
  let ?n = "u16_from_be_bytes (b ! 2) (b ! 3)"
  obtain tier nf cs zts zss k1 k2 k3 where
    length: "length b = 36 + ?n * 96" and n: "0 < ?n" "?n \<le> 256" and v: "b ! 0 = PROOF_VERSION"
    and tier: "b ! 1 = as_byte tier" and nf: "nf = take 32 (drop 4 b)" "length nf = 32"
    and cs: "read_group c b 36 ?n = Ok (cs, k1)" and zts: "read_group c b k1 ?n = Ok (zts, k2)"
    and zss: "read_group c b k2 ?n = Ok (zss, k3)"
    and p: "p = \<lparr>version = PROOF_VERSION, proof_tier = tier, nullifier = nf, challenges = cs, z_ticket = zts, z_secret = zss\<rparr>"
    using assms(2)
    by (auto simp: proof_from_bytes_def Let_def ok_or_def compressed_from_slice_def zk_constants from_byte_eq_Some
        split: if_splits option.splits)
  note sound = read_group_sound [OF assms(1) cs] read_group_sound [OF assms(1) zts] read_group_sound [OF assms(1) zss]
  have body: "proof_body c p = drop 36 b"
  proof -
    have "proof_body c p = take (32 * ?n) (drop 36 b) @ take (32 * ?n) (drop (36 + 32 * ?n) b) @
        take (32 * ?n) (drop (36 + 32 * ?n + 32 * ?n) b)"
      using sound by (simp add: proof_body_def p)
    also have "\<dots> = take (32 * ?n + (32 * ?n + 32 * ?n)) (drop 36 b)"
      by (rule three_slices)
    also have "\<dots> = drop 36 b"
      using length by simp
    finally show ?thesis .
  qed
  have "to_bytes c p = b ! 0 # b ! 1 # b ! 2 # b ! 3 # take 32 (drop 4 b) @ drop 36 b"
    using sound u16_to_be_from_be [of "b ! 2" "b ! 3"] body
    by (simp add: to_bytes_split p ring_size_def u16_to_be_bytes_def v tier [unfolded One_nat_def] nf)
  also have "\<dots> = take 4 b @ take 32 (drop 4 b) @ drop 32 (drop 4 b)"
    using length by (simp add: take_Suc_conv_app_nth eval_nat_numeral)
  finally have "to_bytes c p = b"
    by (simp only: append_take_drop_id)
  then show ?thesis
    using sound n nf by (simp add: p wf_proof_def ring_size_def MAX_RING_SIZE_def)
qed

end
