(* ===== verification/Zk_Merkle.thy ===== *)
theory Zk_Merkle
  imports Zk_Proof
begin

text \<open>
  The Merkle root of an anonymity set determines the set.  The loop over levels is shown to compute the
  hash of a binary tree whose leaves are the commitments in order; two trees with the same hash are equal
  unless two different byte strings hashed while computing them have the same hash.
\<close>

section \<open>Transcripts are injective\<close>

definition frame :: "bytes \<Rightarrow> bytes" where
  "frame f = u64_to_be_bytes (length f) @ f"

lemma transcript_frames: "transcript domain parts = frame domain @ concat (map frame parts)"
proof -
  have "fold (\<lambda>part hasher. absorb hasher part) parts h = h @ concat (map frame parts)" for h
    by (induction parts arbitrary: h) (simp_all add: absorb_def frame_def)
  then show ?thesis
    by (simp add: transcript_def absorb_def frame_def)
qed

lemma length_u64_to_be_bytes [simp]: "length (u64_to_be_bytes n) = 8"
  by (simp add: u64_to_be_bytes_def)

lemma u64_to_be_bytes_inj:
  assumes "u64_to_be_bytes m = u64_to_be_bytes n" "m < 256" "n < 256"
  shows "m = n"
proof -
  have "u64_to_be_bytes k ! 7 = of_nat k" for k
    by (simp add: u64_to_be_bytes_def)
  then have "(of_nat m :: byte) = of_nat n"
    using assms(1) by metis
  then have "unat (of_nat m :: byte) = unat (of_nat n :: byte)"
    by simp
  then show ?thesis
    using assms(2,3) by (simp add: unat_of_nat)
qed

lemma frame_inj:
  assumes "frame f @ x = frame g @ y" "length f < 256" "length g < 256"
  shows "f = g \<and> x = y"
proof -
  have "u64_to_be_bytes (length f) = u64_to_be_bytes (length g)" and rest: "f @ x = g @ y"
    using assms(1) by (simp_all add: frame_def)
  then have "length f = length g"
    using assms(2,3) u64_to_be_bytes_inj by blast
  then show ?thesis
    using rest by simp
qed

lemma frames_inj:
  "concat (map frame fs) = concat (map frame gs) \<Longrightarrow> \<forall>f\<in>set fs \<union> set gs. length f < 256 \<Longrightarrow> fs = gs"
proof (induction fs arbitrary: gs)
  case Nil
  then show ?case
    by (cases gs) (simp_all add: frame_def u64_to_be_bytes_def)
next
  case (Cons f fs)
  then obtain g gs' where gs: "gs = g # gs'"
    by (cases gs) (simp_all add: frame_def u64_to_be_bytes_def)
  have "f = g \<and> concat (map frame fs) = concat (map frame gs')"
    using Cons.prems by (intro frame_inj) (simp_all add: gs)
  then show ?case
    using Cons gs by simp
qed

lemma transcript_inj:
  assumes "transcript d ps = transcript e qs" "\<forall>f\<in>set (d # ps) \<union> set (e # qs). length f < 256"
  shows "d = e \<and> ps = qs"
  using frames_inj [of "d # ps" "e # qs"] assms by (simp add: transcript_frames)

section \<open>Trees\<close>

datatype merkle_tree = MLeaf bytes | MNode merkle_tree merkle_tree

fun tree_hash :: "('s, 'p, 'z) curve_scheme \<Rightarrow> merkle_tree \<Rightarrow> bytes" where
  "tree_hash c (MLeaf b) = leaf_hash c b"
| "tree_hash c (MNode l r) = node_hash c (tree_hash c l) (tree_hash c r)"

fun tree_leaves :: "merkle_tree \<Rightarrow> bytes list" where
  "tree_leaves (MLeaf b) = [b]"
| "tree_leaves (MNode l r) = tree_leaves l @ tree_leaves r"

fun pair_up :: "merkle_tree list \<Rightarrow> merkle_tree list" where
  "pair_up (l # r # ts) = MNode l r # pair_up ts"
| "pair_up ts = ts"

lemma length_pair_up: "length (pair_up ts) = (length ts + 1) div 2"
  by (induction ts rule: pair_up.induct) auto

lemma pair_up_leaves: "concat (map tree_leaves (pair_up ts)) = concat (map tree_leaves ts)"
  by (induction ts rule: pair_up.induct) auto

lemma pair_up_hash: "map (tree_hash c) (pair_up ts) = merkle_level c (map (tree_hash c) ts)"
  by (induction ts rule: pair_up.induct) auto

section \<open>Binding\<close>

text \<open>The byte strings that are hashed to compute a tree, and one level after the other for a list.\<close>

fun tree_inputs :: "('s, 'p, 'z) curve_scheme \<Rightarrow> merkle_tree \<Rightarrow> bytes set" where
  "tree_inputs c (MLeaf b) = {transcript DOMAIN_MERKLE_LEAF [b]}"
| "tree_inputs c (MNode l r) =
    insert (transcript DOMAIN_MERKLE_NODE [tree_hash c l, tree_hash c r]) (tree_inputs c l \<union> tree_inputs c r)"

fun level_inputs :: "bytes list \<Rightarrow> bytes set" where
  "level_inputs (left # right # rest) = insert (transcript DOMAIN_MERKLE_NODE [left, right]) (level_inputs rest)"
| "level_inputs _ = {}"

function loop_inputs :: "('s, 'p, 'z) curve_scheme \<Rightarrow> bytes list \<Rightarrow> bytes set" where
  "loop_inputs c level =
    (if length level > 1 then level_inputs level \<union> loop_inputs c (merkle_level c level) else {})"
  by pat_completeness auto

termination
  by (relation "measure (\<lambda>(c, level). length level)") (auto simp: length_merkle_level)

declare loop_inputs.simps [simp del]

definition merkle_inputs :: "('s, 'p, 'z) curve_scheme \<Rightarrow> bytes list \<Rightarrow> bytes set" where
  "merkle_inputs c commitments = (\<lambda>b. transcript DOMAIN_MERKLE_LEAF [b]) ` set commitments \<union>
    loop_inputs c (map (leaf_hash c) commitments)"

lemma pair_up_inputs:
  "\<Union> (tree_inputs c ` set (pair_up ts)) = \<Union> (tree_inputs c ` set ts) \<union> level_inputs (map (tree_hash c) ts)"
  by (induction ts rule: pair_up.induct) auto

text \<open>The loop ends with the hash of one tree that has the same leaves.\<close>

lemma merkle_loop_inputs:
  assumes "ts \<noteq> []"
  shows "\<exists>t. merkle_loop c (map (tree_hash c) ts) = [tree_hash c t] \<and> tree_leaves t = concat (map tree_leaves ts) \<and>
    tree_inputs c t = \<Union> (tree_inputs c ` set ts) \<union> loop_inputs c (map (tree_hash c) ts)"
  using assms
proof (induction "length ts" arbitrary: ts rule: less_induct)
  case less
  show ?case
  proof (cases "length ts > 1")
    case True
    then have "length (pair_up ts) < length ts" "pair_up ts \<noteq> []"
      using length_pair_up [of ts] by auto
    from less.hyps [OF this] show ?thesis
      using True by (subst merkle_loop.simps, subst loop_inputs.simps)
        (simp add: pair_up_hash pair_up_leaves pair_up_inputs Un_assoc)
  next
    case False
    then obtain t where "ts = [t]"
      using less.prems by (cases ts) auto
    then show ?thesis
      by (subst merkle_loop.simps, subst loop_inputs.simps) auto
  qed
qed

text \<open>The input of the topmost hash.\<close>

fun top_input :: "('s, 'p, 'z) curve_scheme \<Rightarrow> merkle_tree \<Rightarrow> bytes" where
  "top_input c (MLeaf b) = transcript DOMAIN_MERKLE_LEAF [b]"
| "top_input c (MNode l r) = transcript DOMAIN_MERKLE_NODE [tree_hash c l, tree_hash c r]"

definition truncated_sha :: "('s, 'p, 'z) curve_scheme \<Rightarrow> bytes \<Rightarrow> bytes" where
  "truncated_sha c b = take 32 (sha512 c b)"

lemma tree_hash_top: "tree_hash c t = truncated_sha c (top_input c t)"
  by (cases t) (simp_all add: truncated_sha_def leaf_hash_def node_hash_def hash32_def)

lemma top_input_in [simp]: "top_input c t \<in> tree_inputs c t"
  by (cases t) simp_all

lemma length_tree_hash: "encoding_laws c \<Longrightarrow> length (tree_hash c t) = 32"
  by (simp add: tree_hash_top truncated_sha_def encoding_laws_def)

lemma domain_lengths: "length DOMAIN_MERKLE_LEAF = 24" "length DOMAIN_MERKLE_NODE = 24"
  by (simp_all add: DOMAIN_MERKLE_LEAF_def DOMAIN_MERKLE_NODE_def as_bytes_def)

lemma domains_differ: "DOMAIN_MERKLE_LEAF \<noteq> DOMAIN_MERKLE_NODE"
  by (simp add: DOMAIN_MERKLE_LEAF_def DOMAIN_MERKLE_NODE_def as_bytes_def)

lemma top_input_inj:
  assumes "encoding_laws c" "top_input c t = top_input c u"
    and "\<forall>b\<in>set (tree_leaves t) \<union> set (tree_leaves u). length b = 32"
  shows "(\<exists>b. t = MLeaf b \<and> u = MLeaf b) \<or>
    (\<exists>l r l' r'. t = MNode l r \<and> u = MNode l' r' \<and> tree_hash c l = tree_hash c l' \<and> tree_hash c r = tree_hash c r')"
  using assms domains_differ length_tree_hash [OF assms(1)]
  by (cases t; cases u) (auto dest!: transcript_inj simp: domain_lengths)

lemma tree_binding:
  assumes "encoding_laws c"
  shows "tree_hash c t = tree_hash c u \<Longrightarrow> inj_on (truncated_sha c) (tree_inputs c t \<union> tree_inputs c u) \<Longrightarrow>
    \<forall>b\<in>set (tree_leaves t) \<union> set (tree_leaves u). length b = 32 \<Longrightarrow> t = u"
proof (induction t arbitrary: u)
  case (MLeaf b)
  have "top_input c (MLeaf b) = top_input c u"
    using MLeaf.prems(1,2) by (simp add: tree_hash_top inj_on_eq_iff del: top_input.simps tree_inputs.simps tree_hash.simps)
  from top_input_inj [OF assms this] show ?case
    using MLeaf.prems(3) by auto
next
  case (MNode l r)
  have "top_input c (MNode l r) = top_input c u"
    using MNode.prems(1,2) by (simp add: tree_hash_top inj_on_eq_iff del: top_input.simps tree_inputs.simps tree_hash.simps)
  from top_input_inj [OF assms this] obtain l' r' where u: "u = MNode l' r'"
    and hashes: "tree_hash c l = tree_hash c l'" "tree_hash c r = tree_hash c r'"
    using MNode.prems(3) by auto
  have inj: "inj_on (truncated_sha c) (tree_inputs c l \<union> tree_inputs c l')"
    "inj_on (truncated_sha c) (tree_inputs c r \<union> tree_inputs c r')"
    using MNode.prems(2) by (auto simp: u intro: inj_on_subset)
  have "l = l'" "r = r'"
    using MNode.IH(1) [OF hashes(1) inj(1)] MNode.IH(2) [OF hashes(2) inj(2)] MNode.prems(3) by (simp_all add: u ball_Un)
  then show ?case
    by (simp add: u)
qed

lemma merkle_root_tree:
  assumes "xs \<noteq> []"
  obtains t where "merkle_root_of_commitments c xs = tree_hash c t" "tree_leaves t = xs"
    "tree_inputs c t = merkle_inputs c xs"
proof -
  have "map MLeaf xs \<noteq> []"
    using assms by simp
  from merkle_loop_inputs [OF this, of c] obtain t where
    root: "merkle_loop c (map (tree_hash c) (map MLeaf xs)) = [tree_hash c t]"
    and leaves: "tree_leaves t = concat (map tree_leaves (map MLeaf xs))"
    and inputs: "tree_inputs c t = \<Union> (tree_inputs c ` set (map MLeaf xs)) \<union> loop_inputs c (map (tree_hash c) (map MLeaf xs))"
    by blast
  have hashes: "map (tree_hash c) (map MLeaf xs) = map (leaf_hash c) xs"
    by simp
  show ?thesis
  proof (rule that)
    show "merkle_root_of_commitments c xs = tree_hash c t"
      using root assms unfolding hashes by (simp add: merkle_root_of_commitments_def merkle_root_def)
    show "tree_leaves t = xs"
      using leaves by (simp add: comp_def)
    show "tree_inputs c t = merkle_inputs c xs"
      using inputs unfolding hashes by (auto simp: merkle_inputs_def)
  qed
qed

lemma merkle_root_inj:
  assumes "encoding_laws c" "cs \<noteq> []" "ds \<noteq> []" "\<forall>b\<in>set cs \<union> set ds. length b = 32"
    and "inj_on (truncated_sha c) (merkle_inputs c cs \<union> merkle_inputs c ds)"
    and "merkle_root_of_commitments c cs = merkle_root_of_commitments c ds"
  shows "cs = ds"
proof -
  obtain t where t: "merkle_root_of_commitments c cs = tree_hash c t" "tree_leaves t = cs"
    "tree_inputs c t = merkle_inputs c cs"
    by (rule merkle_root_tree [OF assms(2)])
  obtain u where u: "merkle_root_of_commitments c ds = tree_hash c u" "tree_leaves u = ds"
    "tree_inputs c u = merkle_inputs c ds"
    by (rule merkle_root_tree [OF assms(3)])
  have "tree_hash c t = tree_hash c u"
    using assms(6) t(1) u(1) by simp
  then have "t = u"
    by (rule tree_binding [OF assms(1)]) (use assms(4,5) in \<open>simp_all only: t u\<close>)
  then show ?thesis
    using t(2) u(2) by simp
qed

end
