(* ===== verification/Zk_Sigma.thy ===== *)
theory Zk_Sigma
  imports Zk_Wire Zk_Merkle
begin

text \<open>
  The proof system of the ticket attestation.  Completeness: a proof that the prover builds is accepted.
  Special soundness: from two accepted runs with the same first message and different challenges an
  opening of one of the commitments of the ring can be computed whose secret also explains the nullifier.
\<close>

section \<open>Arithmetic of the verification equations\<close>

lemma module_simps:
  assumes "module_laws c"
  shows "smul c (a + b) p = smul c a p + smul c b p" "smul c a (p + q) = smul c a p + smul c a q"
    "smul c (a * b) p = smul c a (smul c b p)" "smul c 1 p = p" "smul c 0 p = 0" "smul c a 0 = 0"
    "smul c (- a) p = - smul c a p" "smul c (a - b) p = smul c a p - smul c b p"
proof -
  show add: "smul c (a + b) p = smul c a p + smul c b p" for a b p
    using assms unfolding module_laws_def by blast
  show "smul c a (p + q) = smul c a p + smul c a q" for a p q
    using assms unfolding module_laws_def by blast
  then show "smul c a 0 = 0"
    by (metis add_0 add_cancel_right_left)
  show "smul c (a * b) p = smul c a (smul c b p)" "smul c 1 p = p"
    using assms unfolding module_laws_def by blast+
  show zero: "smul c 0 p = 0" for p
    using add [of 0 0] by simp
  show minus: "smul c (- a) p = - smul c a p" for a p
    using add [of a "- a" p] zero [of p] by (simp add: eq_neg_iff_add_eq_0 add.commute)
  show "smul c (a - b) p = smul c a p - smul c b p"
    using add [of a "- b" p] minus [of b p] by simp
qed

lemma commit_eq: "commit c t s = smul c t (generator_g c) + smul c s (generator_h c)"
  by (simp add: commit_def multiscalar_mul_def)

lemma a_point_eq:
  "module_laws c \<Longrightarrow> a_point c ch zt zs p = smul c zt (generator_g c) + smul c zs (generator_h c) - smul c ch p"
  by (simp add: a_point_def multiscalar_mul_def module_simps)

lemma b_point_eq: "module_laws c \<Longrightarrow> b_point c ch zs omega nf = smul c zs omega - smul c ch nf"
  by (simp add: b_point_def multiscalar_mul_def module_simps)

text \<open>The responses of the holder reproduce the points committed to.\<close>

lemma honest_points:
  assumes "module_laws c"
  shows "a_point c ch (rt + ch * t) (rs + ch * s) (commit c t s) = multiscalar_mul c [rt, rs] [generator_g c, generator_h c]"
    "b_point c ch (rs + ch * s) omega (smul c s omega) = smul c rs omega"
  using assms by (simp_all add: a_point_eq b_point_eq commit_eq module_simps multiscalar_mul_def)

section \<open>Completeness\<close>

text \<open>The simulated members satisfy the verification equations.\<close>

definition prover_ok ::
  "('s::comm_ring_1, 'p::ab_group_add, 'z) curve_scheme \<Rightarrow> 'p verification_context \<Rightarrow> nat \<Rightarrow> 'p \<Rightarrow> 'p \<Rightarrow> nat \<Rightarrow>
    ('s, 'p, 'r) prover \<Rightarrow> bool" where
  "prover_ok c ctx l omega nf k st \<longleftrightarrow> (let n = length (ctx_ring ctx) in
    length (p_challenges st) = n \<and> length (p_z_ticket st) = n \<and> length (p_z_secret st) = n \<and>
    length (p_a_points st) = n \<and> length (p_b_points st) = n \<and>
    (\<forall>i<k. i \<noteq> l \<longrightarrow>
      p_a_points st ! i = a_point c (p_challenges st ! i) (p_z_ticket st ! i) (p_z_secret st ! i) (point (ctx_ring ctx ! i)) \<and>
      p_b_points st ! i = b_point c (p_challenges st ! i) (p_z_secret st ! i) omega nf))"

lemma simulate_member_ok:
  assumes "prover_ok c ctx l omega nf k st" "k < length (ctx_ring ctx)"
  shows "prover_ok c ctx l omega nf (Suc k) (simulate_member c next_scalar ctx l omega nf k st)"
  using assms
  by (auto simp: prover_ok_def simulate_member_def Let_def less_Suc_eq nth_list_update split: prod.split)

lemma simulate_all_ok:
  "prover_ok c ctx l omega nf 0 st \<Longrightarrow> k \<le> length (ctx_ring ctx) \<Longrightarrow>
    prover_ok c ctx l omega nf k (fold (simulate_member c next_scalar ctx l omega nf) [0..<k] st)"
  by (induction k) (simp_all add: simulate_member_ok)

text \<open>The challenge of the holder completes the sum.\<close>

lemma sum_list_update_enumerate:
  "l < length xs \<Longrightarrow> sum_list (xs[l := v]) =
    v + sum_list (map snd (filter (\<lambda>(i, _). i \<noteq> l + k) (enumerate k xs)))"
  for v :: "'a::comm_ring_1"
proof (induction xs arbitrary: l k)
  case (Cons x xs)
  have all: "filter (\<lambda>(i, _). i \<noteq> k) (enumerate (Suc k) xs) = enumerate (Suc k) xs"
    by (intro filter_True) (auto simp: in_set_enumerate_eq)
  show ?case
  proof (cases l)
    case 0
    then show ?thesis
      by (simp add: all)
  next
    case (Suc m)
    then show ?thesis
      using Cons.prems Cons.IH [of m "Suc k"] by (simp add: algebra_simps)
  qed
qed simp

text \<open>The loop of the verifier, as one of the prover's loops.\<close>

lemma verify_fold:
  assumes "\<forall>i<n. as ! i = a_point c (challenges p ! i) (z_ticket p ! i) (z_secret p ! i) (point (ctx_ring ctx ! i))"
    and "\<forall>i<n. bs ! i = b_point c (challenges p ! i) (z_secret p ! i) omega nf"
  shows "fold (verify_member c p ctx omega nf) [0..<n] (h, x) =
    (fold (absorb_points c as bs) [0..<n] h, x + sum_list (map ((!) (challenges p)) [0..<n]))"
  using assms
  by (induction n) (simp_all add: verify_member_def absorb_points_def Let_def add.assoc)

lemma sum_list_nth: "length xs = n \<Longrightarrow> sum_list (map ((!) xs) [0..<n]) = sum_list xs"
  using map_nth [of xs] by auto

text \<open>What a run of the prover yields: the points it hashed and the shape of the proof.\<close>

lemma prove_yields:
  assumes laws: "module_laws c" and proved: "prove c next_scalar w ctx rng = Ok (p, rng')"
  defines "omega \<equiv> nullifier_base c (ctx_event_id ctx) (ctx_epoch ctx)"
    and "n \<equiv> length (ctx_ring ctx)"
  shows "\<exists>as bs. version p = PROOF_VERSION \<and> proof_tier p = ctx_tier ctx \<and>
    nullifier p = compress c (smul c (secret w) omega) \<and>
    length (challenges p) = n \<and> length (z_ticket p) = n \<and> length (z_secret p) = n \<and>
    check_ring_size ctx = Ok () \<and>
    (\<forall>i<n. as ! i = a_point c (challenges p ! i) (z_ticket p ! i) (z_secret p ! i) (point (ctx_ring ctx ! i))) \<and>
    (\<forall>i<n. bs ! i = b_point c (challenges p ! i) (z_secret p ! i) omega (smul c (secret w) omega)) \<and>
    sum_list (challenges p) = finalize_to_scalar c (fold (absorb_points c as bs) [0..<n]
      (base_transcript ctx PROOF_VERSION (compress c omega) (nullifier p)))"
proof -
  let ?nf = "smul c (secret w) omega"
  let ?l = "index w"
  define st where "st = fold (simulate_member c next_scalar ctx ?l omega ?nf) [0..<n]
    \<lparr>p_challenges = replicate n 0, p_z_ticket = replicate n 0, p_z_secret = replicate n 0,
      p_a_points = replicate n 0, p_b_points = replicate n 0, p_rng = rng\<rparr>"
  have ok: "prover_ok c ctx ?l omega ?nf n st"
    unfolding st_def n_def by (rule simulate_all_ok) (simp_all add: prover_ok_def)
  obtain rt r1 rs r2 where r: "next_scalar (p_rng st) = (rt, r1)" "next_scalar r1 = (rs, r2)"
    by fastforce
  define as where "as = (p_a_points st)[?l := multiscalar_mul c [rt, rs] [generator_g c, generator_h c]]"
  define bs where "bs = (p_b_points st)[?l := smul c rs omega]"
  define ch where "ch = finalize_to_scalar c (fold (absorb_points c as bs) [0..<n]
    (base_transcript ctx PROOF_VERSION (compress c omega) (compress c ?nf)))"
  define cl where "cl = ch - sum_list (map snd (filter (\<lambda>(i, _). i \<noteq> ?l) (enumerate 0 (p_challenges st))))"
  have size: "check_ring_size ctx = Ok ()" and l: "?l < n"
    and opens: "point (ctx_ring ctx ! ?l) = commit c (ticket w) (secret w)"
    and p: "p = \<lparr>version = PROOF_VERSION, proof_tier = ctx_tier ctx, nullifier = compress c ?nf,
      challenges = (p_challenges st)[?l := cl], z_ticket = (p_z_ticket st)[?l := rt + cl * ticket w],
      z_secret = (p_z_secret st)[?l := rs + cl * secret w]\<rparr>"
    using proved r
    by (auto simp: prove_def Let_def omega_def [symmetric] n_def [symmetric] st_def [symmetric]
        as_def bs_def ch_def cl_def split: if_splits)
  have sum: "sum_list (challenges p) = ch"
    using ok l sum_list_update_enumerate [of ?l "p_challenges st" cl 0]
    by (simp add: p cl_def prover_ok_def Let_def n_def)
  have points: "\<forall>i<n. as ! i = a_point c (challenges p ! i) (z_ticket p ! i) (z_secret p ! i) (point (ctx_ring ctx ! i))"
    "\<forall>i<n. bs ! i = b_point c (challenges p ! i) (z_secret p ! i) omega ?nf"
    using ok l opens honest_points [OF laws]
    by (auto simp: p as_def bs_def prover_ok_def Let_def n_def nth_list_update)
  show ?thesis
    using ok size sum points
    by (intro exI [of _ as] exI [of _ bs]) (simp add: p ch_def prover_ok_def Let_def n_def)
qed

lemma prove_verifies:
  assumes "module_laws c" "encoding_laws c" "prove c next_scalar w ctx rng = Ok (p, rng')"
  defines "nf \<equiv> compute_nullifier c (secret w) (ctx_event_id ctx) (ctx_epoch ctx)"
  shows "wf_proof p"
    and "verify c p ctx = (if merkle_root_of_commitments c (map compressed (ctx_ring ctx)) \<noteq> ctx_merkle_root ctx
      then Err RootMismatch else if nf = 0 then Err DegenerateNullifier
      else Ok \<lparr>att_nullifier = compress c nf, att_tier = ctx_tier ctx, anonymity_set_size = length (ctx_ring ctx)\<rparr>)"
proof -
  let ?omega = "nullifier_base c (ctx_event_id ctx) (ctx_epoch ctx)"
  let ?n = "length (ctx_ring ctx)"
  obtain as bs where p: "version p = PROOF_VERSION" "proof_tier p = ctx_tier ctx" "nullifier p = compress c nf"
      "length (challenges p) = ?n" "length (z_ticket p) = ?n" "length (z_secret p) = ?n"
    and size: "check_ring_size ctx = Ok ()"
    and points: "\<forall>i<?n. as ! i = a_point c (challenges p ! i) (z_ticket p ! i) (z_secret p ! i) (point (ctx_ring ctx ! i))"
      "\<forall>i<?n. bs ! i = b_point c (challenges p ! i) (z_secret p ! i) ?omega nf"
    and sum: "sum_list (challenges p) = finalize_to_scalar c (fold (absorb_points c as bs) [0..<?n]
      (base_transcript ctx PROOF_VERSION (compress c ?omega) (nullifier p)))"
    using prove_yields [OF assms(1,3)] unfolding nf_def compute_nullifier_def by blast
  have codec: "decompress c (compress c nf) = Some nf" "length (compress c nf) = 32"
    using assms(2) unfolding encoding_laws_def by blast+
  have "0 < ?n" "?n \<le> MAX_RING_SIZE"
    using size by (cases "ctx_tier ctx"; auto simp: check_ring_size_def Let_def split: if_splits)+
  then show "wf_proof p"
    using p codec by (simp add: wf_proof_def ring_size_def)
  have leaves: "merkle_root c (map (member_leaf c) (ctx_ring ctx)) = merkle_root_of_commitments c (map compressed (ctx_ring ctx))"
    by (simp add: merkle_root_of_commitments_def member_leaf_def [abs_def] comp_def)
  show "verify c p ctx = (if merkle_root_of_commitments c (map compressed (ctx_ring ctx)) \<noteq> ctx_merkle_root ctx
      then Err RootMismatch else if nf = 0 then Err DegenerateNullifier
      else Ok \<lparr>att_nullifier = compress c nf, att_tier = ctx_tier ctx, anonymity_set_size = ?n\<rparr>)"
    using size sum p codec
    by (simp add: verify_def ok_or_def leaves Let_def verify_fold [OF points] sum_list_nth)
qed

lemma prove_verify_encoded:
  assumes "module_laws c" "encoding_laws c" "prove c next_scalar w ctx rng = Ok (p, rng')"
    and "merkle_root_of_commitments c (map compressed (ctx_ring ctx)) = ctx_merkle_root ctx"
    and "compute_nullifier c (secret w) (ctx_event_id ctx) (ctx_epoch ctx) \<noteq> 0"
  shows "verify_encoded c (to_bytes c p) ctx = Ok
    \<lparr>att_nullifier = compress c (compute_nullifier c (secret w) (ctx_event_id ctx) (ctx_epoch ctx)),
     att_tier = ctx_tier ctx, anonymity_set_size = length (ctx_ring ctx)\<rparr>"
  unfolding verify_encoded_def proof_from_to_bytes [OF assms(2) prove_verifies(1) [OF assms(1-3)]] rbind.simps
  using prove_verifies(2) [OF assms(1-3)] assms(4,5) by simp

lemma prove_succeeds:
  "(\<exists>r. prove c next_scalar w ctx rng = Ok r) \<longleftrightarrow> check_ring_size ctx = Ok () \<and> index w < length (ctx_ring ctx) \<and>
    commit c (ticket w) (secret w) = point (ctx_ring ctx ! index w)"
  by (auto simp: prove_def Let_def split: prod.split)

section \<open>Special soundness\<close>

text \<open>The points that the verifier recomputes for each member, and the bytes it hashes into the challenge.\<close>

definition proof_points ::
  "('s::comm_ring_1, 'p::ab_group_add, 'z) curve_scheme \<Rightarrow> 's ring_proof \<Rightarrow> 'p verification_context \<Rightarrow> 'p \<Rightarrow> ('p \<times> 'p) list" where
  "proof_points c p ctx nf = map (\<lambda>i.
    (a_point c (challenges p ! i) (z_ticket p ! i) (z_secret p ! i) (point (ctx_ring ctx ! i)),
     b_point c (challenges p ! i) (z_secret p ! i) (nullifier_base c (ctx_event_id ctx) (ctx_epoch ctx)) nf))
    [0..<length (ctx_ring ctx)]"

definition challenge_input ::
  "('s, 'p, 'z) curve_scheme \<Rightarrow> 'p verification_context \<Rightarrow> bytes \<Rightarrow> ('p \<times> 'p) list \<Rightarrow> bytes" where
  "challenge_input c ctx nf points = fold (\<lambda>(a, b) hasher. absorb (absorb hasher (compress c a)) (compress c b)) points
    (base_transcript ctx PROOF_VERSION (compress c (nullifier_base c (ctx_event_id ctx) (ctx_epoch ctx))) nf)"

lemma verify_fold_points:
  "fold (verify_member c p ctx (nullifier_base c (ctx_event_id ctx) (ctx_epoch ctx)) nf) [0..<length (ctx_ring ctx)] (h, x) =
    (fold (\<lambda>(a, b) hasher. absorb (absorb hasher (compress c a)) (compress c b)) (proof_points c p ctx nf) h,
     x + sum_list (map ((!) (challenges p)) [0..<length (ctx_ring ctx)]))"
proof -
  have "fold (verify_member c p ctx (nullifier_base c (ctx_event_id ctx) (ctx_epoch ctx)) nf) [0..<n] (h, x) =
    (fold (\<lambda>(a, b) hasher. absorb (absorb hasher (compress c a)) (compress c b)) (map (\<lambda>i.
      (a_point c (challenges p ! i) (z_ticket p ! i) (z_secret p ! i) (point (ctx_ring ctx ! i)),
       b_point c (challenges p ! i) (z_secret p ! i) (nullifier_base c (ctx_event_id ctx) (ctx_epoch ctx)) nf)) [0..<n]) h,
     x + sum_list (map ((!) (challenges p)) [0..<n]))" for n
    by (induction n) (simp_all add: verify_member_def Let_def add.assoc)
  then show ?thesis
    by (simp add: proof_points_def)
qed

text \<open>What acceptance means.\<close>

lemma verify_accepts:
  assumes "verify c p ctx = Ok att"
  obtains nf where "decompress c (nullifier p) = Some nf" "nf \<noteq> 0"
    "length (challenges p) = length (ctx_ring ctx)" "length (z_ticket p) = length (ctx_ring ctx)"
    "length (z_secret p) = length (ctx_ring ctx)" "check_ring_size ctx = Ok ()"
    "sum_list (challenges p) = finalize_to_scalar c (challenge_input c ctx (nullifier p) (proof_points c p ctx nf))"
proof -
  obtain nf where "decompress c (nullifier p) = Some nf" "nf \<noteq> 0" "version p = PROOF_VERSION"
    "length (challenges p) = length (ctx_ring ctx)" "length (z_ticket p) = length (ctx_ring ctx)"
    "length (z_secret p) = length (ctx_ring ctx)" "check_ring_size ctx = Ok ()"
    "finalize_to_scalar c (challenge_input c ctx (nullifier p) (proof_points c p ctx nf)) =
      sum_list (map ((!) (challenges p)) [0..<length (ctx_ring ctx)])"
    using assms
    by (auto simp: verify_def ok_or_def Let_def verify_fold_points challenge_input_def
        split: if_splits option.splits prod.splits)
  then show ?thesis
    using that [of nf] by (simp add: sum_list_nth)
qed

lemma verify_accepting:
  assumes "version p = PROOF_VERSION" "proof_tier p = ctx_tier ctx" "check_ring_size ctx = Ok ()"
    and "length (challenges p) = length (ctx_ring ctx)" "length (z_ticket p) = length (ctx_ring ctx)"
    and "length (z_secret p) = length (ctx_ring ctx)"
    and "merkle_root c (map (member_leaf c) (ctx_ring ctx)) = ctx_merkle_root ctx"
    and "decompress c (nullifier p) = Some nf" "nf \<noteq> 0"
    and "sum_list (challenges p) = finalize_to_scalar c (challenge_input c ctx (nullifier p) (proof_points c p ctx nf))"
  shows "verify c p ctx = Ok \<lparr>att_nullifier = nullifier p, att_tier = ctx_tier ctx, anonymity_set_size = length (ctx_ring ctx)\<rparr>"
  using assms by (simp add: verify_def ok_or_def Let_def verify_fold_points challenge_input_def sum_list_nth)

text \<open>The extractor: the differing challenge of one member is divided out.\<close>

lemma extract_opening:
  fixes c :: "('s::field, 'p::ab_group_add, 'z) curve_scheme"
  assumes laws: "module_laws c" and ne: "ch \<noteq> ch'"
    and a: "a_point c ch zt zs p = a_point c ch' zt' zs' p" and b: "b_point c ch zs omega nf = b_point c ch' zs' omega nf"
  shows "p = commit c ((zt - zt') / (ch - ch')) ((zs - zs') / (ch - ch'))"
    and "nf = smul c ((zs - zs') / (ch - ch')) omega"
proof -
  have unit: "q = smul c (inverse (ch - ch')) (smul c (ch - ch') q)" for q
  proof -
    have "smul c (inverse (ch - ch') * (ch - ch')) q = q"
      using ne by (simp add: module_simps(4) [OF laws])
    then show ?thesis
      unfolding module_simps(3) [OF laws] by (rule sym)
  qed
  have quotient: "smul c (a / (ch - ch')) q = smul c (inverse (ch - ch')) (smul c a q)" for a q
    by (simp only: divide_inverse mult.commute [of a] module_simps(3) [OF laws])
  have eq: "smul c (ch - ch') p = smul c (zt - zt') (generator_g c) + smul c (zs - zs') (generator_h c)"
    using a by (simp add: a_point_eq [OF laws] module_simps [OF laws] algebra_simps)
  show "p = commit c ((zt - zt') / (ch - ch')) ((zs - zs') / (ch - ch'))"
    using unit [of p] unfolding eq commit_eq quotient module_simps(2) [OF laws] .
  have eq': "smul c (ch - ch') nf = smul c (zs - zs') omega"
    using b by (simp add: b_point_eq [OF laws] module_simps [OF laws] algebra_simps)
  show "nf = smul c ((zs - zs') / (ch - ch')) omega"
    using unit [of nf] unfolding eq' quotient .
qed

lemma two_transcripts:
  fixes c :: "('s::field, 'p::ab_group_add, 'z) curve_scheme"
  assumes "module_laws c" "proof_points c p ctx nf = proof_points c q ctx nf"
    and "length (challenges p) = length (ctx_ring ctx)" "length (challenges q) = length (ctx_ring ctx)"
    and "sum_list (challenges p) \<noteq> sum_list (challenges q)"
  shows "\<exists>i<length (ctx_ring ctx). \<exists>t s. point (ctx_ring ctx ! i) = commit c t s \<and>
    nf = compute_nullifier c s (ctx_event_id ctx) (ctx_epoch ctx)"
proof -
  let ?n = "length (ctx_ring ctx)"
  obtain i where i: "i < ?n" "challenges p ! i \<noteq> challenges q ! i"
    using assms(3-5) by (metis nth_equalityI)
  have "proof_points c p ctx nf ! i = proof_points c q ctx nf ! i"
    using assms(2) by simp
  then have "a_point c (challenges p ! i) (z_ticket p ! i) (z_secret p ! i) (point (ctx_ring ctx ! i)) =
      a_point c (challenges q ! i) (z_ticket q ! i) (z_secret q ! i) (point (ctx_ring ctx ! i))"
    "b_point c (challenges p ! i) (z_secret p ! i) (nullifier_base c (ctx_event_id ctx) (ctx_epoch ctx)) nf =
      b_point c (challenges q ! i) (z_secret q ! i) (nullifier_base c (ctx_event_id ctx) (ctx_epoch ctx)) nf"
    using i(1) by (simp_all add: proof_points_def)
  from extract_opening [OF assms(1) i(2) this] show ?thesis
    using i(1) unfolding compute_nullifier_def by blast
qed

text \<open>A second run in which the hash function answers the challenge query differently.\<close>

definition reprogram :: "('s, 'p) curve \<Rightarrow> bytes \<Rightarrow> bytes \<Rightarrow> ('s, 'p) curve" where
  "reprogram c x y = c\<lparr>sha512 := (sha512 c)(x := y)\<rparr>"

lemma reprogram_simps [simp]:
  "smul (reprogram c x y) = smul c" "basepoint (reprogram c x y) = basepoint c" "compress (reprogram c x y) = compress c"
  "decompress (reprogram c x y) = decompress c" "from_uniform_bytes (reprogram c x y) = from_uniform_bytes c"
  "from_bytes_mod_order_wide (reprogram c x y) = from_bytes_mod_order_wide c"
  "sha512 (reprogram c x y) = (sha512 c)(x := y)" "generator_g (reprogram c x y) = generator_g c"
  by (simp_all add: reprogram_def generator_g_def)

lemma absorb_starts: "\<exists>rest. h = pre @ rest \<Longrightarrow> \<exists>rest. absorb h f = pre @ rest"
  by (auto simp: absorb_def)

lemma fold_absorb_starts:
  "\<exists>rest. h = pre @ rest \<Longrightarrow> \<exists>rest. fold (\<lambda>x hasher. absorb hasher (f x)) xs h = pre @ rest"
  by (induction xs arbitrary: h) (simp_all add: absorb_starts)

lemma fold_absorb_pair_starts:
  "\<exists>rest. h = pre @ rest \<Longrightarrow> \<exists>rest. fold (\<lambda>(a, b) hasher. absorb (absorb hasher (f a)) (g b)) xs h = pre @ rest"
  by (induction xs arbitrary: h) (auto simp: absorb_starts)

lemma challenge_input_prefix: "\<exists>rest. challenge_input c ctx nf points = frame DOMAIN_TRANSCRIPT @ rest"
proof -
  have "\<exists>rest. absorb [] DOMAIN_TRANSCRIPT = frame DOMAIN_TRANSCRIPT @ rest"
    by (simp add: absorb_def frame_def)
  from this [THEN absorb_starts, THEN absorb_starts, THEN absorb_starts, THEN absorb_starts, THEN absorb_starts,
      THEN absorb_starts, THEN absorb_starts, THEN fold_absorb_starts, THEN fold_absorb_pair_starts]
  show ?thesis
    unfolding challenge_input_def base_transcript_def Let_def .
qed

lemma domain_separation:
  assumes "length domain < 256" "domain \<noteq> DOMAIN_TRANSCRIPT"
  shows "transcript domain parts \<noteq> challenge_input c ctx nf points"
proof
  assume "transcript domain parts = challenge_input c ctx nf points"
  then obtain rest where "frame domain @ concat (map frame parts) = frame DOMAIN_TRANSCRIPT @ rest"
    using challenge_input_prefix [of c ctx nf points] by (auto simp: transcript_frames)
  moreover have "length DOMAIN_TRANSCRIPT < 256"
    by (simp add: DOMAIN_TRANSCRIPT_def as_bytes_def)
  ultimately show False
    using frame_inj assms by blast
qed

lemma reprogram_parameters:
  assumes "x = challenge_input c ctx nf points"
  shows "generator_h (reprogram c x y) = generator_h c" "nullifier_base (reprogram c x y) = nullifier_base c"
proof -
  have "transcript DOMAIN_GENERATOR_H parts \<noteq> x" "transcript DOMAIN_NULLIFIER_BASE parts \<noteq> x" for parts
    unfolding assms
    by (rule domain_separation; simp add: DOMAIN_GENERATOR_H_def DOMAIN_NULLIFIER_BASE_def DOMAIN_TRANSCRIPT_def as_bytes_def)+
  then show "generator_h (reprogram c x y) = generator_h c" "nullifier_base (reprogram c x y) = nullifier_base c"
    by (simp_all add: generator_h_def nullifier_base_def hash_to_group_def fun_eq_iff)
qed

lemma reprogram_tree:
  assumes "x = challenge_input c ctx nf points"
  shows "leaf_hash (reprogram c x y) = leaf_hash c" "node_hash (reprogram c x y) = node_hash c"
proof -
  have "transcript DOMAIN_MERKLE_LEAF parts \<noteq> x" "transcript DOMAIN_MERKLE_NODE parts \<noteq> x" for parts
    unfolding assms
    by (rule domain_separation; simp add: DOMAIN_MERKLE_LEAF_def DOMAIN_MERKLE_NODE_def DOMAIN_TRANSCRIPT_def as_bytes_def)+
  then show "leaf_hash (reprogram c x y) = leaf_hash c" "node_hash (reprogram c x y) = node_hash c"
    by (simp_all add: leaf_hash_def node_hash_def hash32_def fun_eq_iff)
qed

lemma reprogram_points:
  assumes "x = challenge_input c ctx nf points"
  shows "proof_points (reprogram c x y) q ctx' nf' = proof_points c q ctx' nf'"
    "challenge_input (reprogram c x y) ctx' nf'' points' = challenge_input c ctx' nf'' points'"
  by (simp_all add: proof_points_def a_point_def b_point_def multiscalar_mul_def challenge_input_def
      reprogram_parameters [OF assms])

text \<open>
  Two accepted runs on the same first message whose challenges differ: the prover knows an opening.
\<close>

lemma rewinding_extracts:
  fixes c :: "('s::field, 'p::ab_group_add) curve"
  assumes laws: "module_laws c" and nf: "decompress c (nullifier p) = Some nf"
    and first: "verify c p ctx = Ok att" and second: "verify (reprogram c x y) q ctx = Ok att'"
    and x: "x = challenge_input c ctx (nullifier p) (proof_points c p ctx nf)"
    and message: "nullifier q = nullifier p" "proof_points c q ctx nf = proof_points c p ctx nf"
    and y: "from_bytes_mod_order_wide c y \<noteq> from_bytes_mod_order_wide c (sha512 c x)"
  shows "\<exists>i<length (ctx_ring ctx). \<exists>t s. point (ctx_ring ctx ! i) = commit c t s \<and>
    nf = compute_nullifier c s (ctx_event_id ctx) (ctx_epoch ctx)"
proof (rule two_transcripts [OF laws])
  have p: "length (challenges p) = length (ctx_ring ctx)" "sum_list (challenges p) = from_bytes_mod_order_wide c (sha512 c x)"
    using verify_accepts [OF first] nf by (auto simp: x finalize_to_scalar_def)
  have q: "length (challenges q) = length (ctx_ring ctx)" "sum_list (challenges q) = from_bytes_mod_order_wide c y"
    using verify_accepts [OF second] nf by (auto simp: message finalize_to_scalar_def reprogram_points [OF x] x [symmetric])
  show "length (challenges p) = length (ctx_ring ctx)" "length (challenges q) = length (ctx_ring ctx)"
    "sum_list (challenges p) \<noteq> sum_list (challenges q)"
    using p q y by simp_all
qed (simp add: message)

end
