(* ===== verification/Zk_Checkin.thy ===== *)
theory Zk_Checkin
  imports Zk_Sigma
begin

text \<open>
  The zero-knowledge check-in endpoints (\<open>src/server/src/handlers/zk_checkin.rs\<close>): registering a ticket
  commitment, sealing an anonymity bucket, reading a sealed ring and checking in.

  The three tables of the migration \<open>20260821000001_zk_ticket_attestation.sql\<close> are the fields of the
  database record; a table with an insertion order is a list in that order.  Every SQL statement of the
  handlers is one operation on these tables.  An error carries its kind, not its text, and the measured
  verification time of a response is left out.  Hexadecimal coding comes from another crate and is a
  parameter.  Requests run one after the other; the header of the development says what overlapping
  requests add.
\<close>

section \<open>Parameters, tables and errors\<close>

record ('s, 'p) zk_env = "('s, 'p) curve" +
  hex_encode :: "bytes \<Rightarrow> string"
  hex_decode :: "string \<Rightarrow> bytes option"

text \<open>Two characters for each byte, decoded to what was encoded.\<close>

definition hex_laws :: "('s, 'p, 'z) zk_env_scheme \<Rightarrow> bool" where
  "hex_laws e \<longleftrightarrow> (\<forall>b. hex_decode e (hex_encode e b) = Some b \<and> length (hex_encode e b) = 2 * length b)"

datatype app_error =
    ValidationError
  | AuthError
  | Forbidden
  | NotFound
  | Conflict
  | DatabaseError
  | ExternalServiceError
  | InternalServerError

record commitment_row =
  row_event_id :: string
  row_tier :: string
  row_bucket_index :: int
  row_commitment :: bytes
  row_leaf_hash :: bytes

record bucket_row =
  commitment_count :: int
  bucket_merkle_root :: "bytes option"
  sealed_at :: "int option"

record nullifier_row =
  spent_nullifier :: bytes
  spent_event_id :: string
  spent_epoch :: string
  spent_tier :: string
  spent_scheme :: string
  spent_anonymity_set_size :: int
  spent_scanner_id :: "string option"

record zk_db =
  zk_ticket_commitments :: "commitment_row list"
  zk_anonymity_buckets :: "string \<times> string \<times> int \<Rightarrow> bucket_row option"
  zk_spent_nullifiers :: "nullifier_row list"

definition zk_db_empty :: zk_db where
  "zk_db_empty = \<lparr>zk_ticket_commitments = [], zk_anonymity_buckets = (\<lambda>_. None), zk_spent_nullifiers = []\<rparr>"

section \<open>Requests and responses\<close>

record register_commitment_request =
  reg_event_id :: string
  reg_tier :: string
  reg_commitment :: string
  reg_bucket_index :: int

record register_commitment_response =
  regr_event_id :: string
  regr_tier :: string
  regr_bucket_index :: int
  bucket_size :: int
  created :: bool

record seal_bucket_request =
  seal_event_id :: string
  seal_tier :: string
  seal_bucket_index :: int

record seal_bucket_response =
  sealr_event_id :: string
  sealr_tier :: string
  sealr_bucket_index :: int
  sealr_merkle_root :: string
  sealr_commitment_count :: int

record ring_query =
  ring_event_id :: string
  ring_tier :: string
  ring_bucket_index :: int

record ring_response =
  ringr_event_id :: string
  ringr_tier :: string
  ringr_bucket_index :: int
  ringr_merkle_root :: string
  ringr_epoch :: string
  ringr_commitments :: "string list"

record zk_checkin_request =
  req_event_id :: string
  req_tier :: string
  req_bucket_index :: int
  req_epoch :: "string option"
  req_proof :: string
  req_scanner_id :: "string option"

record zk_checkin_response =
  admitted :: bool
  resp_tier :: string
  resp_anonymity_set_size :: int
  resp_nullifier :: string

section \<open>Helpers\<close>

definition MAX_PROOF_ENCODED_BYTES :: nat where
  "MAX_PROOF_ENCODED_BYTES = 64 * 1024"

definition parse_tier :: "string \<Rightarrow> (app_error, attestation_tier) result" where
  "parse_tier label = ok_or (from_str_label label) ValidationError"

definition parse_hex_bytes :: "('s, 'p, 'z) zk_env_scheme \<Rightarrow> string \<Rightarrow> nat \<Rightarrow> (app_error, bytes) result" where
  "parse_hex_bytes e v expected_len = rbind (ok_or (hex_decode e v) ValidationError) (\<lambda>b.
    if length b \<noteq> expected_len then Err ValidationError else Ok b)"

definition validate_bucket_index :: "int \<Rightarrow> (app_error, unit) result" where
  "validate_bucket_index bucket_index = (if bucket_index < 0 then Err ValidationError else Ok ())"

definition in_bucket :: "string \<Rightarrow> attestation_tier \<Rightarrow> int \<Rightarrow> commitment_row \<Rightarrow> bool" where
  "in_bucket event_id tier bucket_index row \<longleftrightarrow>
    row_event_id row = event_id \<and> row_tier row = tier_as_str tier \<and> row_bucket_index row = bucket_index"

definition load_bucket_commitments :: "zk_db \<Rightarrow> string \<Rightarrow> attestation_tier \<Rightarrow> int \<Rightarrow> bytes list" where
  "load_bucket_commitments db event_id tier bucket_index =
    map row_commitment (filter (in_bucket event_id tier bucket_index) (zk_ticket_commitments db))"

definition load_sealed_bucket ::
  "zk_db \<Rightarrow> string \<Rightarrow> attestation_tier \<Rightarrow> int \<Rightarrow> (app_error, bytes \<times> int) result" where
  "load_sealed_bucket db event_id tier bucket_index =
    rbind (ok_or (zk_anonymity_buckets db (event_id, tier_as_str tier, bucket_index)) NotFound) (\<lambda>row.
    rbind (ok_or (bucket_merkle_root row) Conflict) (\<lambda>root. Ok (root, commitment_count row)))"

fun map_zkp_error :: "zkp_error \<Rightarrow> app_error" where
  "map_zkp_error MalformedProof = ValidationError"
| "map_zkp_error NonCanonicalEncoding = ValidationError"
| "map_zkp_error (UnsupportedVersion _) = ValidationError"
| "map_zkp_error (RingSize _ _ _) = ValidationError"
| "map_zkp_error RingMismatch = Conflict"
| "map_zkp_error RootMismatch = Conflict"
| "map_zkp_error DegenerateNullifier = AuthError"
| "map_zkp_error VerificationFailed = AuthError"
| "map_zkp_error (WitnessOutOfRange _) = AuthError"
| "map_zkp_error WitnessMismatch = AuthError"

fun map_err :: "('e \<Rightarrow> 'f) \<Rightarrow> ('e, 'a) result \<Rightarrow> ('f, 'a) result" where
  "map_err f (Ok x) = Ok x"
| "map_err f (Err x) = Err (f x)"
| "map_err f (Trap t) = Trap t"

text \<open>The loop that decodes the rows of a bucket.\<close>

fun load_ring :: "('s, 'p, 'z) zk_env_scheme \<Rightarrow> bytes list \<Rightarrow> (app_error, 'p ring_member list) result" where
  "load_ring e [] = Ok []"
| "load_ring e (row # rows) = rbind (map_err map_zkp_error (member_from_bytes e row)) (\<lambda>member.
    rbind (load_ring e rows) (\<lambda>members. Ok (member # members)))"

section \<open>Handlers\<close>

text \<open>\<open>INSERT ... ON CONFLICT DO NOTHING\<close> into the commitments; the flag says whether a row was inserted.\<close>

definition insert_commitment :: "commitment_row \<Rightarrow> zk_db \<Rightarrow> bool \<times> zk_db" where
  "insert_commitment row db = (
    if list_ex (\<lambda>r. row_event_id r = row_event_id row \<and> row_tier r = row_tier row \<and>
      row_commitment r = row_commitment row) (zk_ticket_commitments db) then (False, db)
    else (True, db\<lparr>zk_ticket_commitments := zk_ticket_commitments db @ [row]\<rparr>))"

definition track_bucket :: "string \<times> string \<times> int \<Rightarrow> zk_db \<Rightarrow> zk_db" where
  "track_bucket k db = (case zk_anonymity_buckets db k of
      Some _ \<Rightarrow> db
    | None \<Rightarrow> db\<lparr>zk_anonymity_buckets :=
        (zk_anonymity_buckets db)(k \<mapsto> \<lparr>commitment_count = 0, bucket_merkle_root = None, sealed_at = None\<rparr>)\<rparr>)"

definition register_commitment_inner ::
  "('s, 'p, 'z) zk_env_scheme \<Rightarrow> zk_db \<Rightarrow> register_commitment_request \<Rightarrow>
    (app_error, register_commitment_response \<times> zk_db) result" where
  "register_commitment_inner e db payload =
    rbind (parse_tier (reg_tier payload)) (\<lambda>tier.
    rbind (validate_bucket_index (reg_bucket_index payload)) (\<lambda>_.
    rbind (parse_hex_bytes e (reg_commitment payload) 32) (\<lambda>commitment.
    rbind (map_err map_zkp_error (member_from_bytes e commitment)) (\<lambda>member.
    let leaf = member_leaf e member;
        k = (reg_event_id payload, tier_as_str tier, reg_bucket_index payload);
        sealed = map_option sealed_at (zk_anonymity_buckets db k) in
    if (case sealed of Some (Some _) \<Rightarrow> True | _ \<Rightarrow> False) then Err Conflict
    else let existing = length (load_bucket_commitments db (reg_event_id payload) tier (reg_bucket_index payload)) in
    if existing \<ge> MAX_RING_SIZE then Err Conflict
    else let (inserted, db) = insert_commitment
               \<lparr>row_event_id = reg_event_id payload, row_tier = tier_as_str tier,
                row_bucket_index = reg_bucket_index payload, row_commitment = commitment, row_leaf_hash = leaf\<rparr> db;
             db = track_bucket k db;
             size = length (load_bucket_commitments db (reg_event_id payload) tier (reg_bucket_index payload)) in
    Ok (\<lparr>regr_event_id = reg_event_id payload, regr_tier = tier_as_str tier, regr_bucket_index = reg_bucket_index payload,
      bucket_size = int size, created = inserted\<rparr>, db)))))"

text \<open>\<open>UPDATE ... WHERE sealed_at IS NULL\<close>.\<close>

definition write_seal :: "int \<Rightarrow> string \<times> string \<times> int \<Rightarrow> bytes \<Rightarrow> nat \<Rightarrow> zk_db \<Rightarrow> zk_db" where
  "write_seal now k root n db = (case zk_anonymity_buckets db k of
      Some row \<Rightarrow> if sealed_at row = None
        then db\<lparr>zk_anonymity_buckets := (zk_anonymity_buckets db)(k \<mapsto>
          row\<lparr>bucket_merkle_root := Some root, commitment_count := int n, sealed_at := Some now\<rparr>)\<rparr>
        else db
    | None \<Rightarrow> db)"

definition seal_bucket_inner ::
  "('s, 'p, 'z) zk_env_scheme \<Rightarrow> int \<Rightarrow> zk_db \<Rightarrow> seal_bucket_request \<Rightarrow>
    (app_error, seal_bucket_response \<times> zk_db) result" where
  "seal_bucket_inner e now db payload =
    rbind (parse_tier (seal_tier payload)) (\<lambda>tier.
    rbind (validate_bucket_index (seal_bucket_index payload)) (\<lambda>_.
    let k = (seal_event_id payload, tier_as_str tier, seal_bucket_index payload);
        response = (\<lambda>root n. \<lparr>sealr_event_id = seal_event_id payload, sealr_tier = tier_as_str tier,
          sealr_bucket_index = seal_bucket_index payload, sealr_merkle_root = hex_encode e root,
          sealr_commitment_count = n\<rparr>) in
    case Option.bind (zk_anonymity_buckets db k) (\<lambda>row. map_option (\<lambda>root. (root, commitment_count row)) (bucket_merkle_root row)) of
      Some (root, n) \<Rightarrow> Ok (response root n, db)
    | None \<Rightarrow>
      let rows = load_bucket_commitments db (seal_event_id payload) tier (seal_bucket_index payload) in
      if length rows < min_ring tier then Err ValidationError
      else rbind (load_ring e rows) (\<lambda>members.
      let commitments = map compressed members;
          root = merkle_root_of_commitments e commitments in
      Ok (response root (int (length commitments)), write_seal now k root (length commitments) db))))"

definition get_ring_inner ::
  "('s, 'p, 'z) zk_env_scheme \<Rightarrow> zk_db \<Rightarrow> ring_query \<Rightarrow> (app_error, ring_response) result" where
  "get_ring_inner e db query =
    rbind (parse_tier (ring_tier query)) (\<lambda>tier.
    rbind (validate_bucket_index (ring_bucket_index query)) (\<lambda>_.
    rbind (load_sealed_bucket db (ring_event_id query) tier (ring_bucket_index query)) (\<lambda>(root, _).
    let rows = load_bucket_commitments db (ring_event_id query) tier (ring_bucket_index query) in
    Ok \<lparr>ringr_event_id = ring_event_id query, ringr_tier = tier_as_str tier, ringr_bucket_index = ring_bucket_index query,
      ringr_merkle_root = hex_encode e root, ringr_epoch = DEFAULT_EPOCH, ringr_commitments = map (hex_encode e) rows\<rparr>)))"

text \<open>\<open>INSERT ... ON CONFLICT (event_id, epoch, nullifier) DO NOTHING\<close>; \<open>None\<close> when no row was affected.\<close>

definition is_spent :: "zk_db \<Rightarrow> string \<Rightarrow> string \<Rightarrow> bytes \<Rightarrow> bool" where
  "is_spent db event_id epoch nf = list_ex (\<lambda>r. spent_event_id r = event_id \<and> spent_epoch r = epoch \<and>
    spent_nullifier r = nf) (zk_spent_nullifiers db)"

definition burn_nullifier :: "nullifier_row \<Rightarrow> zk_db \<Rightarrow> zk_db option" where
  "burn_nullifier row db = (if is_spent db (spent_event_id row) (spent_epoch row) (spent_nullifier row) then None
    else Some (db\<lparr>zk_spent_nullifiers := zk_spent_nullifiers db @ [row]\<rparr>))"

definition zk_checkin_inner ::
  "('s::comm_ring_1, 'p::ab_group_add, 'z) zk_env_scheme \<Rightarrow> zk_db \<Rightarrow> zk_checkin_request \<Rightarrow>
    (app_error, zk_checkin_response \<times> zk_db) result" where
  "zk_checkin_inner e db payload =
    rbind (parse_tier (req_tier payload)) (\<lambda>tier.
    rbind (validate_bucket_index (req_bucket_index payload)) (\<lambda>_.
    if length (req_proof payload) > MAX_PROOF_ENCODED_BYTES then Err ValidationError
    else rbind (ok_or (hex_decode e (req_proof payload)) ValidationError) (\<lambda>proof_bytes.
    let epoch = unwrap_or (req_epoch payload) DEFAULT_EPOCH in
    rbind (load_sealed_bucket db (req_event_id payload) tier (req_bucket_index payload)) (\<lambda>(root, _).
    if length root \<noteq> 32 then Trap PanicTrap
    else rbind (load_ring e (load_bucket_commitments db (req_event_id payload) tier (req_bucket_index payload))) (\<lambda>ring.
    let ctx = \<lparr>ctx_event_id = req_event_id payload, ctx_epoch = epoch, ctx_tier = tier, ctx_merkle_root = root, ctx_ring = ring\<rparr> in
    rbind (map_err map_zkp_error (verify_encoded e proof_bytes ctx)) (\<lambda>attestation.
    case burn_nullifier \<lparr>spent_nullifier = att_nullifier attestation, spent_event_id = req_event_id payload,
        spent_epoch = epoch, spent_tier = tier_as_str tier, spent_scheme = scheme_id,
        spent_anonymity_set_size = int (anonymity_set_size attestation), spent_scanner_id = req_scanner_id payload\<rparr> db of
      None \<Rightarrow> Err Conflict
    | Some db' \<Rightarrow> Ok (\<lparr>admitted = True, resp_tier = tier_as_str tier,
        resp_anonymity_set_size = int (anonymity_set_size attestation),
        resp_nullifier = hex_encode e (att_nullifier attestation)\<rparr>, db')))))))"

section \<open>Reachable databases\<close>

inductive zk_step :: "('s::comm_ring_1, 'p::ab_group_add, 'z) zk_env_scheme \<Rightarrow> zk_db \<Rightarrow> zk_db \<Rightarrow> bool" for e where
  register: "register_commitment_inner e db r = Ok (resp, db') \<Longrightarrow> zk_step e db db'"
| seal: "seal_bucket_inner e now db r = Ok (resp, db') \<Longrightarrow> zk_step e db db'"
| checkin: "zk_checkin_inner e db r = Ok (resp, db') \<Longrightarrow> zk_step e db db'"

definition zk_reachable :: "('s::comm_ring_1, 'p::ab_group_add, 'z) zk_env_scheme \<Rightarrow> zk_db \<Rightarrow> bool" where
  "zk_reachable e db \<longleftrightarrow> (zk_step e)\<^sup>*\<^sup>* zk_db_empty db"

text \<open>What a sealed bucket publishes: the context against which proofs are built and verified.\<close>

definition published ::
  "('s, 'p, 'z) zk_env_scheme \<Rightarrow> zk_db \<Rightarrow> string \<Rightarrow> attestation_tier \<Rightarrow> int \<Rightarrow> string \<Rightarrow> 'p verification_context option" where
  "published e db event_id tier bucket_index epoch =
    (case (load_sealed_bucket db event_id tier bucket_index,
        load_ring e (load_bucket_commitments db event_id tier bucket_index)) of
      (Ok (root, _), Ok ring) \<Rightarrow> Some \<lparr>ctx_event_id = event_id, ctx_epoch = epoch, ctx_tier = tier,
        ctx_merkle_root = root, ctx_ring = ring\<rparr>
    | _ \<Rightarrow> None)"

end
