(* ===== verification/Zk_Admission.thy ===== *)
theory Zk_Admission
  imports Zk_Checkin
begin

text \<open>
  The check-in database: a sealed bucket never changes and its root is the root of its commitments, a
  nullifier is spent at most once for an event and epoch and stays spent, and what the handler answers
  depends on the verifier and the spent nullifiers alone.
\<close>

section \<open>Successful handlers\<close>

lemma map_err_eq_Ok [simp]: "map_err f r = Ok x \<longleftrightarrow> r = Ok x"
  by (cases r) simp_all

lemma tier_as_str_inj [simp]: "tier_as_str s = tier_as_str t \<longleftrightarrow> s = t"
  by (cases s; cases t) simp_all

lemma member_from_bytes_compressed: "member_from_bytes e b = Ok m \<Longrightarrow> compressed m = b \<and> length b = 32"
  by (auto simp: member_from_bytes_def member_from_compressed_def compressed_from_slice_def ok_or_def
      split: if_splits option.splits)

lemma load_ring_compressed: "load_ring e rows = Ok ring \<Longrightarrow> map compressed ring = rows"
  by (induction rows arbitrary: ring) (auto dest: member_from_bytes_compressed)

lemma load_ring_ok: "\<forall>b\<in>set rows. \<exists>m. member_from_bytes e b = Ok m \<Longrightarrow> \<exists>ring. load_ring e rows = Ok ring"
  by (induction rows) auto

lemma register_eq_Ok:
  assumes "register_commitment_inner e db r = Ok (resp, db')"
  obtains tier commitment member where "reg_tier r = tier_as_str tier" "length commitment = 32"
    "member_from_bytes e commitment = Ok member"
    "\<forall>row. zk_anonymity_buckets db (reg_event_id r, tier_as_str tier, reg_bucket_index r) = Some row \<longrightarrow> sealed_at row = None"
    "length (load_bucket_commitments db (reg_event_id r) tier (reg_bucket_index r)) < MAX_RING_SIZE"
    "db' = track_bucket (reg_event_id r, tier_as_str tier, reg_bucket_index r) (snd (insert_commitment
      \<lparr>row_event_id = reg_event_id r, row_tier = tier_as_str tier, row_bucket_index = reg_bucket_index r,
       row_commitment = commitment, row_leaf_hash = member_leaf e member\<rparr> db))"
  using assms
  by (auto simp: register_commitment_inner_def parse_tier_def parse_hex_bytes_def validate_bucket_index_def ok_or_def
      Let_def from_str_label_eq_Some split: if_splits option.splits prod.splits)

lemma seal_eq_Ok:
  assumes "seal_bucket_inner e now db r = Ok (resp, db')"
  obtains "db' = db"
  | tier ring where "seal_tier r = tier_as_str tier"
    "load_ring e (load_bucket_commitments db (seal_event_id r) tier (seal_bucket_index r)) = Ok ring"
    "min_ring tier \<le> length (load_bucket_commitments db (seal_event_id r) tier (seal_bucket_index r))"
    "db' = write_seal now (seal_event_id r, tier_as_str tier, seal_bucket_index r)
      (merkle_root_of_commitments e (map compressed ring)) (length ring) db"
proof -
  obtain tier where tier: "from_str_label (seal_tier r) = Some tier"
    using assms by (cases "from_str_label (seal_tier r)") (simp_all add: seal_bucket_inner_def parse_tier_def ok_or_def)
  let ?rows = "load_bucket_commitments db (seal_event_id r) tier (seal_bucket_index r)"
  show thesis
  proof (cases "Option.bind (zk_anonymity_buckets db (seal_event_id r, tier_as_str tier, seal_bucket_index r))
      (\<lambda>row. map_option (\<lambda>root. (root, commitment_count row)) (bucket_merkle_root row))")
    case None
    then obtain ring where "load_ring e ?rows = Ok ring" "min_ring tier \<le> length ?rows"
      "db' = write_seal now (seal_event_id r, tier_as_str tier, seal_bucket_index r)
        (merkle_root_of_commitments e (map compressed ring)) (length ring) db"
      using assms tier
      by (simp add: seal_bucket_inner_def parse_tier_def ok_or_def validate_bucket_index_def Let_def not_less split: if_splits)
        auto
    then show ?thesis
      using that(2) tier from_str_label_eq_Some by blast
  next
    case (Some x)
    then have "db' = db"
      using assms tier
      by (cases x) (simp add: seal_bucket_inner_def parse_tier_def ok_or_def validate_bucket_index_def Let_def split: if_splits)
    then show ?thesis
      by (rule that(1))
  qed
qed

lemma checkin_eq_Ok:
  assumes "zk_checkin_inner e db r = Ok (resp, db')"
  obtains row where "burn_nullifier row db = Some db'"
  using assms
  by (auto simp: zk_checkin_inner_def ok_or_def Let_def split: if_splits option.splits prod.splits)

section \<open>The invariant\<close>

definition spent_key :: "nullifier_row \<Rightarrow> string \<times> string \<times> bytes" where
  "spent_key r = (spent_event_id r, spent_epoch r, spent_nullifier r)"

definition sealed_ok :: "('s, 'p, 'z) zk_env_scheme \<Rightarrow> zk_db \<Rightarrow> string \<Rightarrow> attestation_tier \<Rightarrow> int \<Rightarrow> bucket_row \<Rightarrow> bool" where
  "sealed_ok e db event_id tier i row \<longleftrightarrow>
    (sealed_at row = None \<longleftrightarrow> bucket_merkle_root row = None) \<and>
    (\<forall>root. bucket_merkle_root row = Some root \<longrightarrow> (let rows = load_bucket_commitments db event_id tier i in
      root = merkle_root_of_commitments e rows \<and> commitment_count row = int (length rows) \<and> min_ring tier \<le> length rows))"

definition zk_inv :: "('s, 'p, 'z) zk_env_scheme \<Rightarrow> zk_db \<Rightarrow> bool" where
  "zk_inv e db \<longleftrightarrow> distinct (map spent_key (zk_spent_nullifiers db)) \<and>
    (\<forall>r\<in>set (zk_ticket_commitments db). \<exists>m. member_from_bytes e (row_commitment r) = Ok m) \<and>
    (\<forall>event_id tier i. length (load_bucket_commitments db event_id tier i) \<le> MAX_RING_SIZE) \<and>
    (\<forall>event_id tier i row. zk_anonymity_buckets db (event_id, tier_as_str tier, i) = Some row \<longrightarrow>
      sealed_ok e db event_id tier i row)"

lemma zk_inv_empty: "zk_inv e zk_db_empty"
  by (simp add: zk_inv_def zk_db_empty_def load_bucket_commitments_def)

lemma insert_commitment_load:
  "load_bucket_commitments (snd (insert_commitment row db)) event_id tier i =
    load_bucket_commitments db event_id tier i @
      (if in_bucket event_id tier i row \<and> fst (insert_commitment row db) then [row_commitment row] else [])"
  by (auto simp: load_bucket_commitments_def insert_commitment_def)

lemma insert_commitment_frame:
  "zk_anonymity_buckets (snd (insert_commitment row db)) = zk_anonymity_buckets db"
  "zk_spent_nullifiers (snd (insert_commitment row db)) = zk_spent_nullifiers db"
  "set (zk_ticket_commitments (snd (insert_commitment row db))) \<subseteq> insert row (set (zk_ticket_commitments db))"
  by (auto simp: insert_commitment_def)

lemma track_bucket_frame:
  "load_bucket_commitments (track_bucket k db) = load_bucket_commitments db"
  "zk_ticket_commitments (track_bucket k db) = zk_ticket_commitments db"
  "zk_spent_nullifiers (track_bucket k db) = zk_spent_nullifiers db"
  "zk_anonymity_buckets (track_bucket k db) k' = (if k' = k \<and> zk_anonymity_buckets db k = None
    then Some \<lparr>commitment_count = 0, bucket_merkle_root = None, sealed_at = None\<rparr> else zk_anonymity_buckets db k')"
  by (auto simp: track_bucket_def load_bucket_commitments_def fun_eq_iff split: option.split)

lemma register_inv:
  assumes inv: "zk_inv e db" and reg: "register_commitment_inner e db r = Ok (resp, db')"
  shows "zk_inv e db'"
proof -
  from reg obtain tier commitment member where c: "member_from_bytes e commitment = Ok member"
    and unsealed: "\<forall>row. zk_anonymity_buckets db (reg_event_id r, tier_as_str tier, reg_bucket_index r) = Some row \<longrightarrow> sealed_at row = None"
    and room: "length (load_bucket_commitments db (reg_event_id r) tier (reg_bucket_index r)) < MAX_RING_SIZE"
    and db': "db' = track_bucket (reg_event_id r, tier_as_str tier, reg_bucket_index r) (snd (insert_commitment
      \<lparr>row_event_id = reg_event_id r, row_tier = tier_as_str tier, row_bucket_index = reg_bucket_index r,
       row_commitment = commitment, row_leaf_hash = member_leaf e member\<rparr> db))"
    by (rule register_eq_Ok)
  let ?row = "\<lparr>row_event_id = reg_event_id r, row_tier = tier_as_str tier, row_bucket_index = reg_bucket_index r,
    row_commitment = commitment, row_leaf_hash = member_leaf e member\<rparr>"
  have load: "load_bucket_commitments db' ev t i = load_bucket_commitments db ev t i @
      (if in_bucket ev t i ?row \<and> fst (insert_commitment ?row db) then [commitment] else [])" for ev t i
    by (simp add: db' track_bucket_frame insert_commitment_load)
  have mine: "in_bucket ev t i ?row \<longleftrightarrow> ev = reg_event_id r \<and> t = tier \<and> i = reg_bucket_index r" for ev t i
    by (auto simp: in_bucket_def)
  have "sealed_ok e db' ev t i b" if b: "zk_anonymity_buckets db' (ev, tier_as_str t, i) = Some b" for ev t i b
  proof (cases "in_bucket ev t i ?row")
    case True
    then have "b = \<lparr>commitment_count = 0, bucket_merkle_root = None, sealed_at = None\<rparr> \<or>
        zk_anonymity_buckets db (ev, tier_as_str t, i) = Some b \<and> sealed_at b = None"
      using b unsealed unfolding mine
      by (auto simp: db' track_bucket_frame insert_commitment_frame split: if_splits)
    moreover have "bucket_merkle_root b = None" if "zk_anonymity_buckets db (ev, tier_as_str t, i) = Some b" "sealed_at b = None"
      using inv that unfolding zk_inv_def sealed_ok_def by blast
    ultimately show ?thesis
      by (auto simp: sealed_ok_def)
  next
    case False
    then have "zk_anonymity_buckets db (ev, tier_as_str t, i) = Some b"
      using b unfolding mine by (auto simp: db' track_bucket_frame insert_commitment_frame split: if_splits)
    then show ?thesis
      using inv False by (simp add: zk_inv_def sealed_ok_def load)
  qed
  moreover have "length (load_bucket_commitments db' ev t i) \<le> MAX_RING_SIZE" for ev t i
    using inv room by (auto simp: load mine zk_inv_def)
  moreover have "\<exists>m. member_from_bytes e (row_commitment x) = Ok m" if "x \<in> set (zk_ticket_commitments db')" for x
    using that inv c insert_commitment_frame(3) [of ?row db] by (auto simp: db' track_bucket_frame zk_inv_def)
  moreover have "zk_spent_nullifiers db' = zk_spent_nullifiers db"
    by (simp add: db' track_bucket_frame insert_commitment_frame)
  ultimately show ?thesis
    using inv by (simp add: zk_inv_def)
qed

lemma write_seal_frame:
  "load_bucket_commitments (write_seal now k root n db) = load_bucket_commitments db"
  "zk_ticket_commitments (write_seal now k root n db) = zk_ticket_commitments db"
  "zk_spent_nullifiers (write_seal now k root n db) = zk_spent_nullifiers db"
  "zk_anonymity_buckets (write_seal now k root n db) k' = (case zk_anonymity_buckets db k' of
      None \<Rightarrow> None
    | Some row \<Rightarrow> Some (if k' = k \<and> sealed_at row = None
        then row\<lparr>bucket_merkle_root := Some root, commitment_count := int n, sealed_at := Some now\<rparr> else row))"
  by (auto simp: write_seal_def load_bucket_commitments_def fun_eq_iff split: option.split)

lemma seal_inv:
  assumes inv: "zk_inv e db" and seal: "seal_bucket_inner e now db r = Ok (resp, db')"
  shows "zk_inv e db'"
  using seal
proof (cases rule: seal_eq_Ok)
  case 1
  then show ?thesis
    using inv by simp
next
  case (2 tier ring)
  let ?rows = "load_bucket_commitments db (seal_event_id r) tier (seal_bucket_index r)"
  have ring: "map compressed ring = ?rows" "length ring = length ?rows"
    using load_ring_compressed [OF 2(2)] by (metis length_map)+
  have "sealed_ok e db' ev t i b" if b: "zk_anonymity_buckets db' (ev, tier_as_str t, i) = Some b" for ev t i b
  proof -
    obtain a where a: "zk_anonymity_buckets db (ev, tier_as_str t, i) = Some a"
      and b_a: "b = (if (ev, tier_as_str t, i) = (seal_event_id r, tier_as_str tier, seal_bucket_index r) \<and> sealed_at a = None
        then a\<lparr>bucket_merkle_root := Some (merkle_root_of_commitments e (map compressed ring)),
          commitment_count := int (length ring), sealed_at := Some now\<rparr> else a)"
      using b unfolding 2(4) by (auto simp: write_seal_frame split: option.splits if_splits)
    have "sealed_ok e db ev t i a"
      using inv a by (simp add: zk_inv_def)
    then show ?thesis
      using ring 2(3) unfolding b_a by (auto simp: sealed_ok_def 2(4) write_seal_frame Let_def)
  qed
  then show ?thesis
    using inv by (simp add: zk_inv_def 2(4) write_seal_frame)
qed

lemma checkin_inv:
  assumes inv: "zk_inv e db" and checkin: "zk_checkin_inner e db r = Ok (resp, db')"
  shows "zk_inv e db'"
proof -
  obtain row where "burn_nullifier row db = Some db'"
    using checkin by (rule checkin_eq_Ok)
  then have fresh: "\<not> is_spent db (spent_event_id row) (spent_epoch row) (spent_nullifier row)"
    and db': "db' = db\<lparr>zk_spent_nullifiers := zk_spent_nullifiers db @ [row]\<rparr>"
    by (auto simp: burn_nullifier_def split: if_splits)
  have load: "load_bucket_commitments db' = load_bucket_commitments db"
    by (simp add: db' load_bucket_commitments_def fun_eq_iff)
  have "spent_key row \<notin> set (map spent_key (zk_spent_nullifiers db))"
    using fresh by (auto simp: is_spent_def list_ex_iff spent_key_def)
  then show ?thesis
    using inv by (simp add: zk_inv_def load sealed_ok_def) (simp add: db')
qed

lemma zk_step_inv: "zk_step e db db' \<Longrightarrow> zk_inv e db \<Longrightarrow> zk_inv e db'"
  by (induction rule: zk_step.induct) (blast intro: register_inv seal_inv checkin_inv)+

lemma zk_steps_inv: "(zk_step e)\<^sup>*\<^sup>* db db' \<Longrightarrow> zk_inv e db \<Longrightarrow> zk_inv e db'"
  by (induction rule: rtranclp_induct) (blast intro: zk_step_inv)+

lemma zk_reachable_inv: "zk_reachable e db \<Longrightarrow> zk_inv e db"
  unfolding zk_reachable_def using zk_steps_inv zk_inv_empty by blast

section \<open>What never changes\<close>

text \<open>A spent nullifier stays spent.\<close>

lemma zk_step_spent: "zk_step e db db' \<Longrightarrow> is_spent db event_id epoch nf \<Longrightarrow> is_spent db' event_id epoch nf"
proof (induction rule: zk_step.induct)
  case (register db r resp db')
  then show ?case
    by (elim register_eq_Ok) (simp add: is_spent_def track_bucket_frame insert_commitment_frame)
next
  case (seal now db r resp db')
  then show ?case
    by (elim seal_eq_Ok) (simp_all add: is_spent_def write_seal_frame)
next
  case (checkin db r resp db')
  then show ?case
    by (elim checkin_eq_Ok) (auto simp: is_spent_def burn_nullifier_def split: if_splits)
qed

lemma zk_steps_spent: "(zk_step e)\<^sup>*\<^sup>* db db' \<Longrightarrow> is_spent db event_id epoch nf \<Longrightarrow> is_spent db' event_id epoch nf"
  by (induction rule: rtranclp_induct) (blast intro: zk_step_spent)+

text \<open>A sealed bucket keeps its row and its commitments.\<close>

definition sealed_bucket :: "zk_db \<Rightarrow> string \<Rightarrow> attestation_tier \<Rightarrow> int \<Rightarrow> bucket_row \<Rightarrow> bytes list \<Rightarrow> bool" where
  "sealed_bucket db event_id tier i row rows \<longleftrightarrow>
    zk_anonymity_buckets db (event_id, tier_as_str tier, i) = Some row \<and> sealed_at row \<noteq> None \<and>
    load_bucket_commitments db event_id tier i = rows"

lemma zk_step_sealed:
  "zk_step e db db' \<Longrightarrow> sealed_bucket db event_id tier i row rows \<Longrightarrow> sealed_bucket db' event_id tier i row rows"
proof (induction rule: zk_step.induct)
  case (register db r resp db')
  from register(1) show ?case
  proof (rule register_eq_Ok)
    fix t commitment member
    let ?k = "(reg_event_id r, tier_as_str t, reg_bucket_index r)"
    let ?row = "\<lparr>row_event_id = reg_event_id r, row_tier = tier_as_str t, row_bucket_index = reg_bucket_index r,
      row_commitment = commitment, row_leaf_hash = member_leaf e member\<rparr>"
    assume unsealed: "\<forall>row. zk_anonymity_buckets db ?k = Some row \<longrightarrow> sealed_at row = None"
      and db': "db' = track_bucket ?k (snd (insert_commitment ?row db))"
    have "\<not> in_bucket event_id tier i ?row"
      using register(2) unsealed by (auto simp: sealed_bucket_def in_bucket_def)
    then show ?thesis
      using register(2)
      by (auto simp: sealed_bucket_def db' track_bucket_frame insert_commitment_frame insert_commitment_load)
  qed
next
  case (seal now db r resp db')
  then show ?case
    by (elim seal_eq_Ok) (auto simp: sealed_bucket_def write_seal_frame)
next
  case (checkin db r resp db')
  then show ?case
    by (elim checkin_eq_Ok) (auto simp: sealed_bucket_def burn_nullifier_def load_bucket_commitments_def split: if_splits)
qed

lemma zk_steps_sealed:
  "(zk_step e)\<^sup>*\<^sup>* db db' \<Longrightarrow> sealed_bucket db event_id tier i row rows \<Longrightarrow> sealed_bucket db' event_id tier i row rows"
  by (induction rule: rtranclp_induct) (blast intro: zk_step_sealed)+

lemma published_iff:
  assumes "zk_inv e db"
  shows "published e db event_id tier i epoch = Some ctx \<longleftrightarrow>
    (\<exists>row rows root ring. sealed_bucket db event_id tier i row rows \<and> bucket_merkle_root row = Some root \<and>
      load_ring e rows = Ok ring \<and> ctx = \<lparr>ctx_event_id = event_id, ctx_epoch = epoch, ctx_tier = tier,
        ctx_merkle_root = root, ctx_ring = ring\<rparr>)" (is "?l \<longleftrightarrow> ?r")
proof
  have "sealed_at row \<noteq> None"
    if "zk_anonymity_buckets db (event_id, tier_as_str tier, i) = Some row" "bucket_merkle_root row = Some root" for row root
    using assms that unfolding zk_inv_def sealed_ok_def by fastforce
  moreover assume ?l
  ultimately show ?r
    by (auto simp: published_def load_sealed_bucket_def ok_or_def sealed_bucket_def split: result.splits option.splits)
next
  assume ?r
  then show ?l
    by (auto simp: published_def load_sealed_bucket_def ok_or_def sealed_bucket_def)
qed

lemma published_stable:
  assumes "(zk_step e)\<^sup>*\<^sup>* db db'" "zk_inv e db" "published e db event_id tier i epoch = Some ctx"
  shows "published e db' event_id tier i epoch = Some ctx"
  using assms(3) zk_steps_sealed [OF assms(1)]
  unfolding published_iff [OF assms(2)] published_iff [OF zk_steps_inv [OF assms(1,2)]] by blast

section \<open>Checking in\<close>

lemma root_length:
  assumes "encoding_laws e" "rows \<noteq> []"
  shows "length (merkle_root_of_commitments e rows) = 32"
  by (rule merkle_root_tree [OF assms(2), of e]) (simp add: length_tree_hash [OF assms(1)])

text \<open>A published ring is within the bounds of its tier and reproduces the published root.\<close>

lemma published_context:
  assumes inv: "zk_inv e db" and laws: "encoding_laws e" and ctx: "published e db event_id tier i epoch = Some ctx"
  shows "ctx_event_id ctx = event_id" "ctx_epoch ctx = epoch" "ctx_tier ctx = tier"
    "merkle_root_of_commitments e (map compressed (ctx_ring ctx)) = ctx_merkle_root ctx"
    "check_ring_size ctx = Ok ()" "length (ctx_merkle_root ctx) = 32"
proof -
  obtain row rows root ring where sealed: "sealed_bucket db event_id tier i row rows" and root: "bucket_merkle_root row = Some root"
    and ring: "load_ring e rows = Ok ring" and c: "ctx = \<lparr>ctx_event_id = event_id, ctx_epoch = epoch, ctx_tier = tier,
        ctx_merkle_root = root, ctx_ring = ring\<rparr>"
    using ctx unfolding published_iff [OF inv] by blast
  have rows: "root = merkle_root_of_commitments e rows" "min_ring tier \<le> length rows" "length rows \<le> MAX_RING_SIZE"
    using inv sealed root by (auto simp: zk_inv_def sealed_bucket_def sealed_ok_def Let_def)
  have compressed: "map compressed ring = rows" "length ring = length rows"
    using load_ring_compressed [OF ring] by (metis length_map)+
  have "rows \<noteq> []"
    using rows(2) by (cases tier) auto
  then show "length (ctx_merkle_root ctx) = 32"
    using root_length [OF laws] by (simp add: c rows(1))
  show "ctx_event_id ctx = event_id" "ctx_epoch ctx = epoch" "ctx_tier ctx = tier"
    "merkle_root_of_commitments e (map compressed (ctx_ring ctx)) = ctx_merkle_root ctx" "check_ring_size ctx = Ok ()"
    using rows compressed by (simp_all add: c check_ring_size_def)
qed

text \<open>The handler on a published bucket.\<close>

definition spend ::
  "('s, 'p, 'z) zk_env_scheme \<Rightarrow> zk_db \<Rightarrow> zk_checkin_request \<Rightarrow> string \<Rightarrow> attestation_tier \<Rightarrow> verified_attestation \<Rightarrow>
    (app_error, zk_checkin_response \<times> zk_db) result" where
  "spend e db r epoch tier att =
    (if is_spent db (req_event_id r) epoch (att_nullifier att) then Err Conflict
     else Ok (\<lparr>admitted = True, resp_tier = tier_as_str tier, resp_anonymity_set_size = int (anonymity_set_size att),
        resp_nullifier = hex_encode e (att_nullifier att)\<rparr>,
      db\<lparr>zk_spent_nullifiers := zk_spent_nullifiers db @ [\<lparr>spent_nullifier = att_nullifier att,
        spent_event_id = req_event_id r, spent_epoch = epoch, spent_tier = tier_as_str tier, spent_scheme = scheme_id,
        spent_anonymity_set_size = int (anonymity_set_size att), spent_scanner_id = req_scanner_id r\<rparr>]\<rparr>))"

lemma checkin_published:
  assumes "zk_inv e db" "encoding_laws e" "published e db (req_event_id r) tier (req_bucket_index r) epoch = Some ctx"
    and "req_tier r = tier_as_str tier" "0 \<le> req_bucket_index r" "epoch = unwrap_or (req_epoch r) DEFAULT_EPOCH"
    and "length (req_proof r) \<le> MAX_PROOF_ENCODED_BYTES" "hex_decode e (req_proof r) = Some b"
  shows "zk_checkin_inner e db r = rbind (map_err map_zkp_error (verify_encoded e b ctx)) (spend e db r epoch tier)"
proof -
  have len: "length (ctx_merkle_root ctx) = 32"
    using published_context [OF assms(1-3)] by simp
  obtain n where "load_sealed_bucket db (req_event_id r) tier (req_bucket_index r) = Ok (ctx_merkle_root ctx, n)"
    and "load_ring e (load_bucket_commitments db (req_event_id r) tier (req_bucket_index r)) = Ok (ctx_ring ctx)"
    and "ctx = \<lparr>ctx_event_id = req_event_id r, ctx_epoch = epoch, ctx_tier = tier,
        ctx_merkle_root = ctx_merkle_root ctx, ctx_ring = ctx_ring ctx\<rparr>"
    using assms(3) by (auto simp: published_def split: result.splits)
  then show ?thesis
    using assms(4-8) len
    unfolding zk_checkin_inner_def parse_tier_def validate_bucket_index_def ok_or_def Let_def spend_def burn_nullifier_def
    by (cases "map_err map_zkp_error (verify_encoded e b ctx)") auto
qed

text \<open>The request of a holder who proves against the published ring.\<close>

definition holder_request ::
  "('s, 'p, 'z) zk_env_scheme \<Rightarrow> 's ring_proof \<Rightarrow> string \<Rightarrow> attestation_tier \<Rightarrow> int \<Rightarrow> string \<Rightarrow> string option \<Rightarrow> zk_checkin_request" where
  "holder_request e p event_id tier i epoch scanner = \<lparr>req_event_id = event_id, req_tier = tier_as_str tier,
    req_bucket_index = i, req_epoch = Some epoch, req_proof = hex_encode e (to_bytes e p), req_scanner_id = scanner\<rparr>"

lemma encoded_length:
  assumes "encoding_laws e" "hex_laws e" "wf_proof p"
  shows "length (hex_encode e (to_bytes e p)) \<le> MAX_PROOF_ENCODED_BYTES"
  using assms to_bytes_parts(1) [OF assms(1,3)]
  by (simp add: hex_laws_def MAX_PROOF_ENCODED_BYTES_def wf_proof_def zk_constants)

lemma holder_checkin:
  assumes laws: "module_laws e" "encoding_laws e" "hex_laws e" and inv: "zk_inv e db"
    and ctx: "published e db event_id tier i epoch = Some ctx" "0 \<le> i"
    and proved: "prove e next_scalar w ctx rng = Ok (p, rng')"
    and nf: "nf = compute_nullifier e (secret w) event_id epoch" "nf \<noteq> 0"
  shows "zk_checkin_inner e db (holder_request e p event_id tier i epoch scanner) =
    spend e db (holder_request e p event_id tier i epoch scanner) epoch tier
      \<lparr>att_nullifier = compress e nf, att_tier = tier, anonymity_set_size = length (ctx_ring ctx)\<rparr>"
proof -
  note pub = published_context [OF inv laws(2) ctx(1)]
  have wf: "wf_proof p"
    by (rule prove_verifies(1) [OF laws(1,2) proved])
  have "verify_encoded e (to_bytes e p) ctx = Ok \<lparr>att_nullifier = compress e nf, att_tier = tier,
      anonymity_set_size = length (ctx_ring ctx)\<rparr>"
    using prove_verify_encoded [OF laws(1,2) proved] nf by (simp add: pub)
  then show ?thesis
    using checkin_published [OF inv laws(2), of "holder_request e p event_id tier i epoch scanner" tier epoch ctx "to_bytes e p"]
      ctx encoded_length [OF laws(2,3) wf] laws(3)
    by (simp add: holder_request_def unwrap_or_def hex_laws_def)
qed

end
