(* ===== verification/Zk_Demo.thy ===== *)
theory Zk_Demo
  imports Zk_Admission
begin

text \<open>
  A small instance of the parameters of the attestation, on which the theorems are evaluated: scalars
  and points are bytes with multiplication modulo 256, encodings are padded with zeros, and the hash
  function is constant or, where different inputs must hash differently, returns the end of its input.
\<close>

section \<open>The instance\<close>

definition pad32 :: "byte \<Rightarrow> bytes" where
  "pad32 x = x # replicate 31 0"

definition unpad32 :: "bytes \<Rightarrow> byte option" where
  "unpad32 b = (if b \<noteq> [] \<and> tl b = replicate 31 0 then Some (hd b) else None)"

definition demo_curve :: "(bytes \<Rightarrow> bytes) \<Rightarrow> (byte, byte) curve" where
  "demo_curve sha = \<lparr>smul = (*), basepoint = 1, compress = pad32, decompress = unpad32, scalar_bytes = pad32,
    from_canonical_bytes = unpad32, from_bytes_mod_order_wide = hd, from_uniform_bytes = hd, sha512 = sha\<rparr>"

definition constant_sha :: "bytes \<Rightarrow> bytes" where
  "constant_sha b = replicate 64 3"

definition tail_sha :: "bytes \<Rightarrow> bytes" where
  "tail_sha b = take 64 (rev b @ replicate 64 0)"

definition demo_hex_encode :: "bytes \<Rightarrow> string" where
  "demo_hex_encode b = concat (map (\<lambda>x. [char_of (unat x), CHR ''0'']) b)"

fun demo_hex_decode :: "string \<Rightarrow> bytes option" where
  "demo_hex_decode [] = Some []"
| "demo_hex_decode [c] = None"
| "demo_hex_decode (c # d # s) = map_option ((#) (of_nat (of_char c))) (demo_hex_decode s)"

definition demo_zk_env :: "(byte, byte) zk_env" where
  "demo_zk_env = curve.extend (demo_curve constant_sha) \<lparr>hex_encode = demo_hex_encode, hex_decode = demo_hex_decode\<rparr>"

lemma demo_curve_simps [simp]:
  "smul (demo_curve sha) = (*)" "basepoint (demo_curve sha) = 1" "compress (demo_curve sha) = pad32"
  "decompress (demo_curve sha) = unpad32" "scalar_bytes (demo_curve sha) = pad32"
  "from_canonical_bytes (demo_curve sha) = unpad32" "from_bytes_mod_order_wide (demo_curve sha) = hd"
  "from_uniform_bytes (demo_curve sha) = hd" "sha512 (demo_curve sha) = sha"
  by (simp_all add: demo_curve_def)

lemma demo_zk_env_simps [simp]:
  "smul demo_zk_env = (*)" "basepoint demo_zk_env = 1" "compress demo_zk_env = pad32"
  "decompress demo_zk_env = unpad32" "scalar_bytes demo_zk_env = pad32"
  "from_canonical_bytes demo_zk_env = unpad32" "from_bytes_mod_order_wide demo_zk_env = hd"
  "from_uniform_bytes demo_zk_env = hd" "sha512 demo_zk_env = constant_sha"
  "hex_encode demo_zk_env = demo_hex_encode" "hex_decode demo_zk_env = demo_hex_decode"
  by (simp_all add: demo_zk_env_def demo_curve_def curve.defs)

section \<open>The laws hold\<close>

lemma unpad32_pad32 [simp]: "unpad32 (pad32 x) = Some x"
  by (simp add: pad32_def unpad32_def)

lemma length_pad32 [simp]: "length (pad32 x) = 32"
  by (simp add: pad32_def)

lemma unpad32_canonical: "unpad32 b = Some x \<Longrightarrow> pad32 x = b"
  by (cases b) (auto simp: unpad32_def pad32_def split: if_splits)

lemma demo_module_laws: "module_laws (demo_curve sha)" "module_laws demo_zk_env"
  by (simp_all add: module_laws_def algebra_simps)

lemma demo_encoding_laws: "(\<And>b. length (sha b) = 64) \<Longrightarrow> encoding_laws (demo_curve sha)" "encoding_laws demo_zk_env"
  by (simp_all add: encoding_laws_def unpad32_canonical constant_sha_def)

lemma length_tail_sha [simp]: "length (tail_sha b) = 64"
  by (simp add: tail_sha_def)

lemma length_constant_sha [simp]: "length (constant_sha b) = 64"
  by (simp add: constant_sha_def)

lemma demo_hex_roundtrip: "demo_hex_decode (demo_hex_encode b) = Some b \<and> length (demo_hex_encode b) = 2 * length b"
proof -
  have "unat x mod 256 = unat x" for x :: byte
    using unsigned_less [of x, where ?'a = nat] by simp
  then show ?thesis
    by (induction b) (simp_all add: demo_hex_encode_def)
qed

lemma demo_hex_laws: "hex_laws demo_zk_env"
  by (simp add: hex_laws_def demo_hex_roundtrip)

section \<open>A sealed bucket of four tickets\<close>

text \<open>The commitments to ticket 1 with the secrets 1 to 4.\<close>

lemma demo_generators [simp]:
  "generator_g demo_zk_env = 1" "generator_h demo_zk_env = 3" "nullifier_base demo_zk_env ev ep = 3"
  "generator_g (demo_curve constant_sha) = 1" "generator_h (demo_curve constant_sha) = 3"
  "nullifier_base (demo_curve constant_sha) ev ep = 3"
  by (simp_all add: generator_g_def generator_h_def nullifier_base_def hash_to_group_def constant_sha_def)

definition demo_commitments :: "bytes list" where
  "demo_commitments = [pad32 4, pad32 7, pad32 10, pad32 13]"

lemma demo_hashes [simp]: "hash32 demo_zk_env d ps = replicate 32 3" "hash32 (demo_curve constant_sha) d ps = replicate 32 3"
  by (simp_all add: hash32_def constant_sha_def)

lemma demo_root: "merkle_root_of_commitments demo_zk_env demo_commitments = replicate 32 3"
  by (simp add: merkle_root_of_commitments_def merkle_root_def merkle_loop.simps demo_commitments_def leaf_hash_def node_hash_def)

definition demo_row :: "byte \<Rightarrow> commitment_row" where
  "demo_row x = \<lparr>row_event_id = ''gala'', row_tier = ''vip'', row_bucket_index = 0, row_commitment = pad32 x,
    row_leaf_hash = replicate 32 3\<rparr>"

definition demo_open_db :: "byte list \<Rightarrow> zk_db" where
  "demo_open_db xs = \<lparr>zk_ticket_commitments = map demo_row xs,
    zk_anonymity_buckets = (if xs = [] then (\<lambda>_. None) else (\<lambda>_. None)((''gala'', ''vip'', 0) \<mapsto>
      \<lparr>commitment_count = 0, bucket_merkle_root = None, sealed_at = None\<rparr>)),
    zk_spent_nullifiers = []\<rparr>"

definition demo_sealed_db :: zk_db where
  "demo_sealed_db = \<lparr>zk_ticket_commitments = map demo_row [4, 7, 10, 13],
    zk_anonymity_buckets = (\<lambda>_. None)((''gala'', ''vip'', 0) \<mapsto>
      \<lparr>commitment_count = 4, bucket_merkle_root = Some (replicate 32 3), sealed_at = Some 5\<rparr>),
    zk_spent_nullifiers = []\<rparr>"

lemma pad32_inj [simp]: "pad32 x = pad32 y \<longleftrightarrow> x = y"
  by (simp add: pad32_def)

lemma demo_member: "member_from_bytes demo_zk_env (pad32 x) = Ok \<lparr>point = x, compressed = pad32 x\<rparr>"
  by (simp add: member_from_bytes_def member_from_compressed_def compressed_from_slice_def ok_or_def)

lemma demo_load: "load_bucket_commitments (demo_open_db xs) ''gala'' Vip 0 = map pad32 xs"
  by (simp add: load_bucket_commitments_def demo_open_db_def in_bucket_def demo_row_def comp_def filter_map)

lemma demo_register:
  assumes "x \<notin> set xs" "length xs < 256"
  shows "\<exists>resp. register_commitment_inner demo_zk_env (demo_open_db xs) \<lparr>reg_event_id = ''gala'', reg_tier = ''vip'',
    reg_commitment = demo_hex_encode (pad32 x), reg_bucket_index = 0\<rparr> = Ok (resp, demo_open_db (xs @ [x]))"
proof -
  have "\<not> list_ex (\<lambda>r. row_event_id r = ''gala'' \<and> row_tier r = ''vip'' \<and> row_commitment r = pad32 x) (map demo_row xs)"
    using assms(1) by (auto simp: list_ex_iff demo_row_def)
  then show ?thesis
    using assms(2)
    by (simp add: register_commitment_inner_def parse_tier_def from_str_label_def ok_or_def validate_bucket_index_def
        parse_hex_bytes_def demo_hex_roundtrip demo_member Let_def demo_load MAX_RING_SIZE_def)
      (simp add: demo_open_db_def insert_commitment_def track_bucket_def demo_row_def member_leaf_def leaf_hash_def)
qed

lemma demo_open_bucket:
  "xs \<noteq> [] \<Longrightarrow> zk_anonymity_buckets (demo_open_db xs) (''gala'', ''vip'', 0) =
    Some \<lparr>commitment_count = 0, bucket_merkle_root = None, sealed_at = None\<rparr>"
  by (simp add: demo_open_db_def)

lemma demo_write_seal: "write_seal 5 (''gala'', ''vip'', 0) (replicate 32 3) (length [4 :: byte, 7, 10, 13])
    (demo_open_db [4, 7, 10, 13]) = demo_sealed_db"
  by (simp add: write_seal_def demo_open_db_def demo_sealed_db_def)

lemma demo_seal:
  "\<exists>resp. seal_bucket_inner demo_zk_env 5 (demo_open_db [4, 7, 10, 13])
    \<lparr>seal_event_id = ''gala'', seal_tier = ''vip'', seal_bucket_index = 0\<rparr> = Ok (resp, demo_sealed_db)"
proof -
  have "load_ring demo_zk_env (map pad32 [4, 7, 10, 13]) =
      Ok (map (\<lambda>x. \<lparr>point = x, compressed = pad32 x\<rparr>) [4, 7, 10, 13])"
    by (simp add: demo_member)
  then show ?thesis
    using demo_root demo_write_seal
    by (simp add: seal_bucket_inner_def parse_tier_def from_str_label_def ok_or_def validate_bucket_index_def Let_def demo_load
        demo_commitments_def demo_open_bucket)
qed

lemma demo_sealed_reachable: "zk_reachable demo_zk_env demo_sealed_db"
proof -
  have reg: "zk_step demo_zk_env (demo_open_db xs) (demo_open_db (xs @ [x]))" if "x \<notin> set xs" "length xs < 256" for x xs
    using demo_register [OF that] zk_step.register by blast
  have steps: "zk_step demo_zk_env (demo_open_db []) (demo_open_db [4])"
    "zk_step demo_zk_env (demo_open_db [4]) (demo_open_db [4, 7])"
    "zk_step demo_zk_env (demo_open_db [4, 7]) (demo_open_db [4, 7, 10])"
    "zk_step demo_zk_env (demo_open_db [4, 7, 10]) (demo_open_db [4, 7, 10, 13])"
    "zk_step demo_zk_env (demo_open_db [4, 7, 10, 13]) demo_sealed_db"
    using reg [of 4 "[]"] reg [of 7 "[4]"] reg [of 10 "[4, 7]"] reg [of 13 "[4, 7, 10]"] demo_seal zk_step.seal
    by auto
  have "demo_open_db [] = zk_db_empty"
    by (simp add: demo_open_db_def zk_db_empty_def)
  then show ?thesis
    unfolding zk_reachable_def
    using steps by (metis (no_types) converse_rtranclp_into_rtranclp rtranclp.rtrancl_refl)
qed

definition demo_ctx :: "string \<Rightarrow> byte verification_context" where
  "demo_ctx epoch = \<lparr>ctx_event_id = ''gala'', ctx_epoch = epoch, ctx_tier = Vip, ctx_merkle_root = replicate 32 3,
    ctx_ring = map (\<lambda>x. \<lparr>point = x, compressed = pad32 x\<rparr>) [4, 7, 10, 13]\<rparr>"

lemma demo_published: "published demo_zk_env demo_sealed_db ''gala'' Vip 0 epoch = Some (demo_ctx epoch)"
  by (simp add: published_def load_sealed_bucket_def load_bucket_commitments_def demo_sealed_db_def ok_or_def in_bucket_def
      demo_row_def demo_member demo_ctx_def)

text \<open>The holder of the second ticket, with a generator of randomness that always returns 5.\<close>

definition demo_witness :: "byte zk_witness" where
  "demo_witness = \<lparr>index = 1, ticket = 1, secret = 2\<rparr>"

definition demo_rng :: "unit \<Rightarrow> byte \<times> unit" where
  "demo_rng r = (5, r)"

lemma demo_proves:
  "\<exists>p. prove demo_zk_env demo_rng demo_witness (demo_ctx epoch) () = Ok (p, ())"
  "\<exists>p. prove (demo_curve constant_sha) demo_rng demo_witness (demo_ctx epoch) () = Ok (p, ())"
  using prove_succeeds [of demo_zk_env demo_rng demo_witness "demo_ctx epoch" "()"]
    prove_succeeds [of "demo_curve constant_sha" demo_rng demo_witness "demo_ctx epoch" "()"]
  by (simp_all add: demo_witness_def demo_ctx_def check_ring_size_def MAX_RING_SIZE_def commit_def multiscalar_mul_def)

end
