(* ===== verification/Zk_Correct.thy ===== *)
theory Zk_Correct
  imports Complex_Main Zk_Demo
begin

text \<open>
  The properties of the ticket attestation and of its check-in endpoint.
\<close>

section \<open>The wire format\<close>

text \<open>C17: the parser accepts a byte string exactly when it is the encoding of a well-formed proof, and
  returns that proof: parsing inverts printing, and no proof has a second encoding.\<close>

theorem proof_wire_roundtrip:
  assumes "encoding_laws c"
  shows "proof_from_bytes c b = Ok p \<longleftrightarrow> wf_proof p \<and> b = to_bytes c p"
  using proof_from_bytes_sound [OF assms] proof_from_to_bytes [OF assms] by blast

theorem proof_wire_roundtrip_witness:
  "proof_from_bytes (demo_curve constant_sha) (to_bytes (demo_curve constant_sha)
    \<lparr>version = 1, proof_tier = Vip, nullifier = pad32 6, challenges = [7, 8], z_ticket = [1, 2], z_secret = [255, 0]\<rparr>) =
   Ok \<lparr>version = 1, proof_tier = Vip, nullifier = pad32 6, challenges = [7, 8], z_ticket = [1, 2], z_secret = [255, 0]\<rparr>"
  using proof_wire_roundtrip [OF demo_encoding_laws(1) [of constant_sha]]
  by (simp add: wf_proof_def ring_size_def zk_constants)

section \<open>Completeness\<close>

text \<open>C11: the prover succeeds exactly when the ring has a permitted size and its witness opens the commitment
  at its index; the encoded proof is then accepted and yields the nullifier of the secret, provided that the ring
  reproduces the root and that nullifier is not the identity.\<close>

theorem proof_complete:
  assumes "module_laws c" "encoding_laws c"
  shows "((\<exists>p rng'. prove c next_scalar w ctx rng = Ok (p, rng')) \<longleftrightarrow>
      check_ring_size ctx = Ok () \<and> index w < length (ctx_ring ctx) \<and>
      commit c (ticket w) (secret w) = point (ctx_ring ctx ! index w)) \<and>
    (\<forall>p rng'. prove c next_scalar w ctx rng = Ok (p, rng') \<longrightarrow>
      merkle_root_of_commitments c (map compressed (ctx_ring ctx)) = ctx_merkle_root ctx \<longrightarrow>
      compute_nullifier c (secret w) (ctx_event_id ctx) (ctx_epoch ctx) \<noteq> 0 \<longrightarrow>
      verify_encoded c (to_bytes c p) ctx = Ok
        \<lparr>att_nullifier = compress c (compute_nullifier c (secret w) (ctx_event_id ctx) (ctx_epoch ctx)),
         att_tier = ctx_tier ctx, anonymity_set_size = length (ctx_ring ctx)\<rparr>)"
  using prove_succeeds [of c next_scalar w ctx rng]
  by (intro conjI allI impI prove_verify_encoded [OF assms]) simp_all

theorem proof_complete_witness:
  "\<exists>p. prove (demo_curve constant_sha) demo_rng demo_witness (demo_ctx ''checkin'') () = Ok (p, ()) \<and>
    verify_encoded (demo_curve constant_sha) (to_bytes (demo_curve constant_sha) p) (demo_ctx ''checkin'') =
      Ok \<lparr>att_nullifier = pad32 6, att_tier = Vip, anonymity_set_size = 4\<rparr>"
proof -
  obtain p where p: "prove (demo_curve constant_sha) demo_rng demo_witness (demo_ctx ''checkin'') () = Ok (p, ())"
    using demo_proves(2) by blast
  then show ?thesis
    using proof_complete [OF demo_module_laws(1) demo_encoding_laws(1) [of constant_sha],
        of demo_rng demo_witness "demo_ctx ''checkin''" "()"]
    by (simp add: demo_ctx_def demo_witness_def compute_nullifier_def merkle_root_of_commitments_def merkle_root_def
        merkle_loop.simps leaf_hash_def node_hash_def)
qed

section \<open>Special soundness\<close>

text \<open>C5: if a prover is accepted twice on the same first message (nullifier and hashed points), once more after
  the answer of the hash function to the challenge query has been replaced so that the challenge differs, then some
  member of the ring is a commitment to a ticket and a secret, and the nullifier is the one of that secret.\<close>

theorem proof_special_soundness:
  fixes c :: "('s::field, 'p::ab_group_add) curve"
  assumes "module_laws c" "decompress c (nullifier p) = Some nf"
    and "verify c p ctx = Ok att" "verify (reprogram c x y) q ctx = Ok att'"
    and "x = challenge_input c ctx (nullifier p) (proof_points c p ctx nf)"
    and "nullifier q = nullifier p" "proof_points c q ctx nf = proof_points c p ctx nf"
    and "from_bytes_mod_order_wide c y \<noteq> from_bytes_mod_order_wide c (sha512 c x)"
  shows "\<exists>i<length (ctx_ring ctx). \<exists>t s. point (ctx_ring ctx ! i) = commit c t s \<and>
    nf = compute_nullifier c s (ctx_event_id ctx) (ctx_epoch ctx)"
  using assms by (rule rewinding_extracts)

text \<open>The witness: scalars and points are real numbers, every point hashed is zero, and every member of the ring
  commits to the secret 1.\<close>

definition demo_field :: "(real, real) curve" where
  "demo_field = \<lparr>smul = (*), basepoint = 1, compress = (\<lambda>_. replicate 32 0), decompress = (\<lambda>_. Some 1),
    scalar_bytes = (\<lambda>_. replicate 32 0), from_canonical_bytes = (\<lambda>_. None),
    from_bytes_mod_order_wide = (\<lambda>b. of_nat (unat (hd b))), from_uniform_bytes = (\<lambda>_. 1), sha512 = (\<lambda>_. replicate 64 0)\<rparr>"

definition demo_field_proof :: "real \<Rightarrow> real ring_proof" where
  "demo_field_proof ch = \<lparr>version = 1, proof_tier = Vip, nullifier = replicate 32 0, challenges = [ch, 0, 0, 0],
    z_ticket = [0, 0, 0, 0], z_secret = [ch, 0, 0, 0]\<rparr>"

definition demo_field_ctx :: "real verification_context" where
  "demo_field_ctx = \<lparr>ctx_event_id = ''gala'', ctx_epoch = ''checkin'', ctx_tier = Vip, ctx_merkle_root = replicate 32 0,
    ctx_ring = replicate 4 \<lparr>point = 1, compressed = replicate 32 0\<rparr>\<rparr>"

lemma demo_field_parameters:
  "generator_g demo_field = 1" "generator_h demo_field = 1" "nullifier_base demo_field ev ep = 1"
  "leaf_hash demo_field b = replicate 32 0" "node_hash demo_field a b = replicate 32 0" "decompress demo_field b = Some 1"
  by (simp_all add: demo_field_def generator_g_def generator_h_def nullifier_base_def hash_to_group_def leaf_hash_def
      node_hash_def hash32_def)

lemma demo_field_points: "proof_points demo_field (demo_field_proof ch) demo_field_ctx 1 = replicate 4 (0, 0)"
  by (simp add: proof_points_def demo_field_proof_def demo_field_ctx_def a_point_def b_point_def multiscalar_mul_def
      demo_field_parameters upt_rec numeral_eq_Suc) (simp add: demo_field_def)

definition demo_field_query :: bytes where
  "demo_field_query = challenge_input demo_field demo_field_ctx (replicate 32 0) (replicate 4 (0, 0))"

lemma demo_field_verify:
  assumes "sum_list [ch, 0, 0, 0] = from_bytes_mod_order_wide c (sha512 c demo_field_query)"
    and "c = demo_field \<or> c = reprogram demo_field demo_field_query y"
  shows "\<exists>att. verify c (demo_field_proof ch) demo_field_ctx = Ok att"
proof -
  note repro = reprogram_points [OF demo_field_query_def] reprogram_tree [OF demo_field_query_def]
  have points: "proof_points c (demo_field_proof ch) demo_field_ctx 1 = replicate 4 (0, 0)"
    and query: "challenge_input c demo_field_ctx (replicate 32 0) (replicate 4 (0, 0)) = demo_field_query"
    and hashes: "leaf_hash c = leaf_hash demo_field" "node_hash c = node_hash demo_field"
    and nullifier: "decompress c b = Some 1" for b
    using assms(2) by (auto simp: repro demo_field_points demo_field_parameters simp flip: demo_field_query_def)
  let ?p = "demo_field_proof ch"
  have "verify c ?p demo_field_ctx = Ok \<lparr>att_nullifier = nullifier ?p, att_tier = ctx_tier demo_field_ctx,
      anonymity_set_size = length (ctx_ring demo_field_ctx)\<rparr>"
  proof (rule verify_accepting)
    show "merkle_root c (map (member_leaf c) (ctx_ring demo_field_ctx)) = ctx_merkle_root demo_field_ctx"
      by (simp add: demo_field_ctx_def merkle_root_def merkle_loop.simps member_leaf_def hashes demo_field_parameters numeral_eq_Suc)
    show "decompress c (nullifier ?p) = Some 1"
      by (rule nullifier)
    have "nullifier ?p = replicate 32 0" "challenges ?p = [ch, 0, 0, 0]"
      by (simp_all add: demo_field_proof_def)
    then show "sum_list (challenges ?p) =
        finalize_to_scalar c (challenge_input c demo_field_ctx (nullifier ?p) (proof_points c ?p demo_field_ctx 1))"
      using assms(1) by (simp only: points query finalize_to_scalar_def)
  qed (simp_all add: demo_field_proof_def demo_field_ctx_def PROOF_VERSION_def check_ring_size_def MAX_RING_SIZE_def)
  then show ?thesis
    by blast
qed

theorem proof_special_soundness_witness:
  "\<exists>i<4. \<exists>t s. point (ctx_ring demo_field_ctx ! i) = commit demo_field t s \<and> 1 = compute_nullifier demo_field s ''gala'' ''checkin''"
proof -
  let ?y = "replicate 64 1 :: bytes"
  have field: "sha512 demo_field b = replicate 64 0" "from_bytes_mod_order_wide demo_field b = of_nat (unat (hd b))" for b
    by (simp_all add: demo_field_def)
  obtain att att' where accepted: "verify demo_field (demo_field_proof 0) demo_field_ctx = Ok att"
    "verify (reprogram demo_field demo_field_query ?y) (demo_field_proof 1) demo_field_ctx = Ok att'"
    using demo_field_verify [of 0 demo_field] demo_field_verify [of 1 "reprogram demo_field demo_field_query ?y" ?y]
    by (auto simp: field)
  have laws: "module_laws demo_field"
    by (simp add: module_laws_def demo_field_def algebra_simps)
  have "demo_field_query =
    challenge_input demo_field demo_field_ctx (nullifier (demo_field_proof 0)) (proof_points demo_field (demo_field_proof 0) demo_field_ctx 1)"
    by (simp add: demo_field_points demo_field_query_def) (simp add: demo_field_proof_def)
  from proof_special_soundness [OF laws _ accepted this] show ?thesis
    by (simp add: demo_field_parameters demo_field_points field)
      (simp add: demo_field_proof_def demo_field_ctx_def demo_field_parameters)
qed

section \<open>Anonymity sets\<close>

text \<open>C15: the Merkle root determines the published anonymity set.  If truncated SHA-512 does not collide on the
  byte strings hashed for two non-empty lists of 32-byte commitments, their roots are equal exactly when the lists
  are, in order and length.\<close>

theorem merkle_root_binding:
  assumes "encoding_laws c" "cs \<noteq> []" "ds \<noteq> []" "\<forall>b\<in>set cs \<union> set ds. length b = 32"
    and "inj_on (truncated_sha c) (merkle_inputs c cs \<union> merkle_inputs c ds)"
  shows "merkle_root_of_commitments c cs = merkle_root_of_commitments c ds \<longleftrightarrow> cs = ds"
  using merkle_root_inj [OF assms] by blast

lemma demo_truncated: "length b = 32 \<Longrightarrow> take 32 (tail_sha (transcript d [a, b])) = rev b"
  "length b = 32 \<Longrightarrow> take 32 (tail_sha (transcript d [b])) = rev b"
  by (simp_all add: tail_sha_def transcript_def absorb_def)

theorem merkle_root_binding_witness:
  "merkle_root_of_commitments (demo_curve tail_sha) [pad32 1] \<noteq>
    merkle_root_of_commitments (demo_curve tail_sha) [pad32 1, pad32 2]"
proof -
  let ?c = "demo_curve tail_sha"
  have "merkle_inputs ?c [pad32 1] = {transcript DOMAIN_MERKLE_LEAF [pad32 1]}"
    by (simp add: merkle_inputs_def loop_inputs.simps)
  moreover have "merkle_inputs ?c [pad32 1, pad32 2] = {transcript DOMAIN_MERKLE_LEAF [pad32 1],
      transcript DOMAIN_MERKLE_LEAF [pad32 2], transcript DOMAIN_MERKLE_NODE [rev (pad32 1), rev (pad32 2)]}"
    by (auto simp: merkle_inputs_def loop_inputs.simps leaf_hash_def hash32_def demo_truncated)
  moreover have "rev (pad32 x) \<noteq> pad32 y \<and> pad32 y \<noteq> rev (pad32 x)" if "y = 1 \<or> y = 2" for x y
  proof -
    have "rev (pad32 x) \<noteq> pad32 y"
    proof
      assume "rev (pad32 x) = pad32 y"
      then have "hd (rev (pad32 x)) = y"
        by (simp add: pad32_def)
      then show False
        using that by (auto simp: hd_rev pad32_def)
    qed
    then show ?thesis
      by metis
  qed
  ultimately have "inj_on (truncated_sha ?c) (merkle_inputs ?c [pad32 1] \<union> merkle_inputs ?c [pad32 1, pad32 2])"
    by (auto simp: inj_on_def truncated_sha_def demo_truncated)
  then show ?thesis
    using merkle_root_binding [of ?c "[pad32 1]" "[pad32 1, pad32 2]"] demo_encoding_laws(1) [of tail_sha] by simp
qed

section \<open>Admission\<close>

text \<open>C3: single use.  In every reachable database each (event, epoch, nullifier) is spent at most once.  A holder
  whose witness opens a commitment of a sealed bucket, and whose nullifier is not the identity and not yet spent
  for that event and epoch, is admitted; after any further requests every proof of the same secret for that bucket
  and epoch is refused as a replay.\<close>

theorem ticket_admitted_once:
  assumes "module_laws e" "encoding_laws e" "hex_laws e" "zk_reachable e db"
    and "published e db event_id tier i epoch = Some ctx" "0 \<le> i"
    and "prove e next_scalar w ctx rng = Ok (p, rng')"
    and "nf = compute_nullifier e (secret w) event_id epoch" "nf \<noteq> 0" "\<not> is_spent db event_id epoch (compress e nf)"
  shows "distinct (map spent_key (zk_spent_nullifiers db)) \<and>
    (\<exists>resp db'. zk_checkin_inner e db (holder_request e p event_id tier i epoch scanner) = Ok (resp, db') \<and>
      admitted resp \<and> resp_anonymity_set_size resp = int (length (ctx_ring ctx)) \<and> is_spent db' event_id epoch (compress e nf) \<and>
      (\<forall>db'' w' next' rng'' q r scanner'. (zk_step e)\<^sup>*\<^sup>* db' db'' \<longrightarrow> secret w' = secret w \<longrightarrow>
        prove e next' w' ctx rng'' = Ok (q, r) \<longrightarrow>
        zk_checkin_inner e db'' (holder_request e q event_id tier i epoch scanner') = Err Conflict))"
proof -
  have inv: "zk_inv e db"
    by (rule zk_reachable_inv [OF assms(4)])
  let ?r = "holder_request e p event_id tier i epoch scanner"
  obtain resp db' where checkin: "zk_checkin_inner e db ?r = Ok (resp, db')" and resp: "admitted resp"
      "resp_anonymity_set_size resp = int (length (ctx_ring ctx))" and spent: "is_spent db' event_id epoch (compress e nf)"
    using holder_checkin [OF assms(1-3) inv assms(5-9), of scanner] assms(10)
    by (simp add: spend_def holder_request_def is_spent_def)
  have "zk_checkin_inner e db'' (holder_request e q event_id tier i epoch scanner') = Err Conflict"
    if steps: "(zk_step e)\<^sup>*\<^sup>* db' db''" and w': "secret w' = secret w" and q: "prove e next' w' ctx rng'' = Ok (q, r)"
    for db'' w' next' rng'' q r scanner'
  proof -
    have all: "(zk_step e)\<^sup>*\<^sup>* db db''"
      using zk_step.checkin [OF checkin] steps by (rule converse_rtranclp_into_rtranclp)
    have "nf = compute_nullifier e (secret w') event_id epoch"
      using assms(8) w' by simp
    from holder_checkin [OF assms(1-3) zk_steps_inv [OF all inv] published_stable [OF all inv assms(5)] assms(6) q this assms(9)]
    show ?thesis
      using zk_steps_spent [OF steps spent] by (simp add: spend_def holder_request_def)
  qed
  then show ?thesis
    using inv checkin resp spent unfolding zk_inv_def by blast
qed

theorem ticket_admitted_once_witness:
  "\<exists>p resp db'. prove demo_zk_env demo_rng demo_witness (demo_ctx ''checkin'') () = Ok (p, ()) \<and>
    zk_checkin_inner demo_zk_env demo_sealed_db (holder_request demo_zk_env p ''gala'' Vip 0 ''checkin'' None) = Ok (resp, db') \<and>
    admitted resp \<and> resp_anonymity_set_size resp = 4 \<and>
    zk_checkin_inner demo_zk_env db' (holder_request demo_zk_env p ''gala'' Vip 0 ''checkin'' None) = Err Conflict"
proof -
  obtain p where p: "prove demo_zk_env demo_rng demo_witness (demo_ctx ''checkin'') () = Ok (p, ())"
    using demo_proves(1) by blast
  have nf: "compute_nullifier demo_zk_env (secret demo_witness) ''gala'' ''checkin'' \<noteq> 0"
    by (simp add: compute_nullifier_def demo_witness_def)
  have "\<not> is_spent demo_sealed_db ''gala'' ''checkin'' b" for b
    by (simp add: is_spent_def demo_sealed_db_def)
  from ticket_admitted_once [OF demo_module_laws(2) demo_encoding_laws(2) demo_hex_laws demo_sealed_reachable demo_published order_refl p refl nf this,
      of None]
  obtain resp db' where first: "zk_checkin_inner demo_zk_env demo_sealed_db
      (holder_request demo_zk_env p ''gala'' Vip 0 ''checkin'' None) = Ok (resp, db')" "admitted resp"
    and size: "resp_anonymity_set_size resp = int (length (ctx_ring (demo_ctx ''checkin'')))"
    and again: "\<forall>db'' w' next' rng'' q r scanner'. (zk_step demo_zk_env)\<^sup>*\<^sup>* db' db'' \<longrightarrow> secret w' = secret demo_witness \<longrightarrow>
      prove demo_zk_env next' w' (demo_ctx ''checkin'') rng'' = Ok (q, r :: unit) \<longrightarrow>
      zk_checkin_inner demo_zk_env db'' (holder_request demo_zk_env q ''gala'' Vip 0 ''checkin'' scanner') = Err Conflict"
    by (elim conjE exE)
  have "length (ctx_ring (demo_ctx ''checkin'')) = 4"
    by (simp add: demo_ctx_def)
  then have "resp_anonymity_set_size resp = 4"
    using size by simp
  moreover have "zk_checkin_inner demo_zk_env db' (holder_request demo_zk_env p ''gala'' Vip 0 ''checkin'' None) = Err Conflict"
    using again [rule_format, OF rtranclp.rtrancl_refl refl p] .
  ultimately show ?thesis
    using p first by blast
qed

text \<open>
  The epoch is part of the request, and every epoch has its own nullifiers: a holder who has been admitted
  is admitted again under any epoch that was not used yet.
\<close>

lemma ticket_reused_under_other_epoch:
  assumes "module_laws e" "encoding_laws e" "hex_laws e" "zk_reachable e db"
    and "published e db event_id tier i epoch = Some ctx" "0 \<le> i"
    and "prove e next_scalar w ctx rng = Ok (p, rng')"
    and "compute_nullifier e (secret w) event_id epoch \<noteq> 0"
    and "\<forall>r\<in>set (zk_spent_nullifiers db). spent_epoch r \<noteq> epoch"
  shows "\<exists>resp db'. zk_checkin_inner e db (holder_request e p event_id tier i epoch scanner) = Ok (resp, db') \<and> admitted resp"
  using holder_checkin [OF assms(1-3) zk_reachable_inv [OF assms(4)] assms(5-7) refl assms(8), of scanner] assms(9)
  by (auto simp: spend_def holder_request_def is_spent_def list_ex_iff)

end
