(* ===== verification/Spec2Isabelle.thy ===== *)
theory Spec2Isabelle
  imports Sharded_Index Pro_Subscription Registry_Correct Ticket_Pricing Ticket_Correct Server_Correct Zk_Correct
begin

text \<open>
  A verification development of the event platform: its smart contracts and the parts of its server that
  decide by computation.

  \<^bold>\<open>Parts of the program.\<close>  The contract \<open>event_registry\<close> (src/contract/contracts/event_registry/src)
  keeps events, their ticket inventory, organizers, multisig governance, staking, season passes and
  disputes.  The contract \<open>ticket_payment\<close> (src/contract/contracts/ticket_payment/src) sells tickets, holds the
  money in escrow, refunds, resells and auctions; it calls the registry for events, inventory and disputes.
  The contract \<open>pro_subscription\<close> sells time-limited memberships to organizers.  The server (src/server/src)
  synchronises offline clients through vector clocks and replicated sets, and admits ticket holders by
  zero-knowledge proofs.

  \<^bold>\<open>Host.\<close>  Prelude models what the contracts use of their host: an invocation returns a state
  (\<open>Ok\<close>), an error (\<open>Err\<close>) or traps, and the latter two leave the state as it was.  The record
  \<open>env\<close> holds the ledger time, the contract's address, the authorising addresses and the behaviour of
  token contracts, which is a parameter.  A 128-bit integer is an \<open>int\<close> with an explicit range check, a
  32- or 64-bit unsigned one a \<open>nat\<close> with the bound written out; bytes and the counters of vector clocks
  are machine words.

  \<^bold>\<open>Theories of the contracts.\<close>
  \<^item> Sharded_Index: the lists that the contracts store in buckets of fixed size, as a locale with its reader,
    interpreted on each such list: organizer events, receipts and dispute votes of the registry, payments of an
    event, payments of a buyer and attendance tokens of the ticket contract.
  \<^item> Registry_Types, Registry_Config, Registry_Governance, Registry_Events, Registry_State,
    Registry_Inventory, Registry_Access, Registry_Staking, Registry_Series, Registry_Dispute: the types,
    storage accessors and entry points of \<open>event_registry\<close> (types.rs, error.rs, events.rs, auth.rs, storage.rs,
    lib.rs, dispute.rs, bridge.rs, teleport.rs), one theory per component, with the invariants that its
    operations keep.
  \<^item> Registry_Events_Inv: the invariant of the event store and its preservation.  Its strict form says that the
    counter of active events is exact; the other form, that the counter is not too high, holds always.
  \<^item> Registry_Machine: one constructor per state-changing entry point, the states that sequences of
    invocations reach, and the invariants of all reachable states.  The legacy entry point \<open>store_event\<close> writes
    almost any event, so what it can break is stated for the events that it did not touch
    (\<open>untouched_call\<close>, \<open>exact_call\<close>) and for the calls of it that spoil the counter (\<open>miscounting_call\<close>).
  \<^item> Registry_Index, Registry_Demo, Registry_Correct: the organizer index in reachable states, concrete
    runs, and the correctness properties of the registry.
  \<^item> Pro_Subscription: the whole \<open>pro_subscription\<close> contract (types.rs, error.rs, events.rs, validation.rs,
    storage.rs, contract.rs) and its properties.
  \<^item> Ticket_Types, Ticket_Pricing, Ticket_Config, Ticket_State, Ticket_Sales, Ticket_Refunds, Ticket_Funds,
    Ticket_Market: \<open>ticket_payment\<close> (types.rs, payment_types.rs, error.rs, events.rs, interfaces.rs, keys.rs,
    storage.rs, contract.rs, governance.rs, escrow.rs, resale.rs, auction.rs, bonding_curve.rs), one theory per
    component.  The record \<open>ticket_env\<close>
    holds the registry, the price oracle, the subscription contract, the tokens and the hash function as
    parameters: the contract sees them only through calls, with the arguments that interfaces.rs declares.
    The code that lists a ticket for resale does not set three fields of the listing; their values are an
    argument of the operation.
  \<^item> Ticket_Index, Ticket_Machine, Ticket_Demo, Ticket_Bulk, Ticket_Correct: the payment indexes in reachable
    states, one constructor per entry point, concrete runs with a token that refuses to overdraw an account,
    batch refunds and the properties.

  \<^bold>\<open>Theories of the server.\<close>
  \<^item> Server_Clock, Server_Crdt: crdt/vector_clock.rs, crdt/lww_element_set.rs and crdt/or_set.rs.  The locale
    \<open>state_crdt\<close> states what a replicated type promises and is interpreted on both sets.
  \<^item> Server_Sync: handlers/sync.rs, with the critical sections of overlapping requests as a step relation.
  \<^item> Server_Correct: convergence of the last-write-wins set and what a synchronisation answers.
  \<^item> Zk_Proof: utils/zkp_verifier.rs, over a group and a hash function given as parameters.
  \<^item> Zk_Wire, Zk_Merkle, Zk_Sigma: the wire format, the Merkle tree, completeness and special soundness.
  \<^item> Zk_Checkin, Zk_Admission: handlers/zk_checkin.rs over its three tables, and what never changes in them.
  \<^item> Zk_Demo, Zk_Correct: an instance of the parameters and the properties of attestation and check-in.

  \<^bold>\<open>Hypotheses on parameters.\<close>  Properties of the ticket contract that depend on a token or on the registry say so
  in their premises; the batch refund needs \<open>token_pays_out\<close> (a token makes a transfer of what the contract
  holds) and \<open>funded\<close> (the contract holds what is due).  The attestation relies on \<open>module_laws\<close> (scalar multiplication is linear),
  \<open>encoding_laws\<close> (encodings have 32 bytes and decode to what was encoded, a scalar has no other canonical
  encoding, SHA-512 returns 64 bytes) and \<open>hex_laws\<close> (hexadecimal text has two characters per byte and decodes to what
  was encoded); binding of the Merkle root excludes a collision on the byte strings hashed for the two lists.

  \<^bold>\<open>Bounds and fuel.\<close>  The reader of escrow milestones scans up to \<open>2 ^ 32 - 1\<close> keys, the range of its index.
  The batch refund property needs as many rounds as the event has payments, and amounts within the range
  \<open>within\<close> so that no sum overflows.  The payment index is exact for payment ids that are fresh; the contract
  does not enforce this.  The loop over the levels of a Merkle tree halves the level and ends without fuel.

  \<^bold>\<open>Not modelled.\<close>  Extending the life time of storage entries does not change the values read and is
  left out.  Swapping the code of a contract is the host's.  Of the server, the handlers around database
  queries, Redis scripts and calls to other services, routing, configuration, logging, and the rate limiting in
  floating point are left out: what they compute is mostly the work of the services they call.  Zero-knowledge
  check-in requests run one after the other in the model.  Overlapping requests add one case: a
  commitment registered after the sealing of its bucket has read the commitments and before it publishes their root is in
  the ring but not under the root.  They do not affect single admission, since a nullifier is burnt by one
  insert statement.  The web and mobile applications are user interfaces.\<close>

end
